(* ===== verification/Prelude.thy ===== *)
theory Prelude
  imports Complex_Main "HOL-Library.Word" "HOL-Library.Multiset"
begin

text \<open>
  Shared vocabulary of the development: the machine types of the C++ sources, byte strings,
  fixed arrays of bytes, writes into a buffer at an offset, and the generic lemmas on lists
  and words the components rest on.
\<close>

unbundle bit_operations_syntax

section \<open>Types\<close>

type_synonym byte = "8 word"
type_synonym u8 = "8 word"
type_synonym u16 = "16 word"
type_synonym u32 = "32 word"
type_synonym u64 = "64 word"

text \<open>
  A \<open>std::string\<close> or \<open>ByteView\<close> that carries packet data is the list of its bytes. A null
  view is the empty list: every null test of the sources stands beside a size test that
  the empty list fails in the same way. Functions with an output pointer and a \<open>bool\<close>
  result return an option; the call sites always pass the address of a local.
\<close>

type_synonym bytes = "byte list"

named_theorems codec \<open>lengths and round trips of the fixed-width codecs\<close>

section \<open>Buffers written at an offset\<close>

definition write_at :: "nat \<Rightarrow> 'a list \<Rightarrow> 'a list \<Rightarrow> 'a list" where
  "write_at off bs buf = take off buf @ bs @ drop (off + length bs) buf"

lemma length_write_at [simp]:
  "off + length bs \<le> length buf \<Longrightarrow> length (write_at off bs buf) = length buf"
  by (simp add: write_at_def)

lemma write_at_append_replicate:
  assumes "off = length pre" and "length bs \<le> n"
  shows "write_at off bs (pre @ replicate n x) = pre @ bs @ replicate (n - length bs) x"
  using assms by (simp add: write_at_def)

lemma write_at_replicate:
  "length bs \<le> n \<Longrightarrow> write_at 0 bs (replicate n x) = bs @ replicate (n - length bs) x"
  by (simp add: write_at_def)

text \<open>The bytes \<open>[off, off + n)\<close> of a buffer, as \<open>memcpy\<close> from an offset reads them.\<close>

definition sub_bytes :: "nat \<Rightarrow> nat \<Rightarrow> 'a list \<Rightarrow> 'a list" where
  "sub_bytes off n buf = take n (drop off buf)"

lemma length_sub_bytes [simp]: "off + n \<le> length buf \<Longrightarrow> length (sub_bytes off n buf) = n"
  by (simp add: sub_bytes_def)

lemma drop_sub_bytes:
  "drop off buf = sub_bytes off n buf @ drop (off + n) buf"
  by (metis append_take_drop_id drop_drop add.commute sub_bytes_def)

lemma sub_bytes_append:
  "off = length pre \<Longrightarrow> n = length bs \<Longrightarrow> sub_bytes off n (pre @ bs @ post) = bs"
  by (simp add: sub_bytes_def)

section \<open>Fixed arrays of bytes\<close>

text \<open>
  \<open>std::array<std::uint8_t, N>\<close>: the byte lists of length \<open>N\<close>. \<open>arr_of\<close> reads the first
  \<open>N\<close> bytes of a list and pads a shorter one with zeros, the way a value-initialised array
  is filled from the front.
\<close>

typedef (overloaded) ('n::len) barr = "{bs :: bytes. length bs = LENGTH('n)}"
  morphisms arr_bytes Abs_barr
  by (rule exI [of _ "replicate LENGTH('n) 0"]) simp

declare arr_bytes_inverse [code abstype]

definition arr_of :: "bytes \<Rightarrow> ('n::len) barr" where
  "arr_of bs = Abs_barr (take LENGTH('n) (bs @ replicate LENGTH('n) 0))"

lemma arr_bytes_of [code abstract]:
  "arr_bytes (arr_of bs :: ('n::len) barr) = take LENGTH('n) (bs @ replicate LENGTH('n) 0)"
  by (simp add: arr_of_def Abs_barr_inverse)

lemma length_arr_bytes [simp]: "length (arr_bytes (a :: ('n::len) barr)) = LENGTH('n)"
  using arr_bytes [of a] by simp

lemma arr_bytes_arr_of [simp]:
  "length bs = LENGTH('n::len) \<Longrightarrow> arr_bytes (arr_of bs :: 'n barr) = bs"
  by (simp add: arr_bytes_of)

lemma arr_of_arr_bytes [simp]: "arr_of (arr_bytes a) = a"
  by (simp add: arr_of_def arr_bytes_inverse)

lemma arr_eq_iff: "a = b \<longleftrightarrow> arr_bytes a = arr_bytes b"
  by (simp add: arr_bytes_inject)

lemma arr_of_replicate_bytes [simp]:
  "arr_bytes (arr_of (replicate LENGTH('n::len) x) :: 'n barr) = replicate LENGTH('n) x"
  by simp

instantiation barr :: (len) equal
begin

definition equal_barr :: "'a barr \<Rightarrow> 'a barr \<Rightarrow> bool" where
  "equal_barr a b \<longleftrightarrow> arr_bytes a = arr_bytes b"

instance
  by standard (simp add: equal_barr_def arr_eq_iff)

end

section \<open>Words\<close>

lemma mask8_eq: "(0xff :: 'a::len word) = mask 8"
  by (simp add: mask_eq_exp_minus_1)

lemma byte_bit_ge [simp]: "8 \<le> n \<Longrightarrow> \<not> bit (b :: byte) n"
  using bit_imp_le_length [of b n] by auto

lemma unat_of_nat_small:
  "n < 2 ^ LENGTH('a::len) \<Longrightarrow> unat (of_nat n :: 'a word) = n"
  by (simp add: unat_of_nat take_bit_nat_eq_self)

lemma unsigned_real_nonneg [simp]: "0 \<le> (unsigned (w :: 'a::len word) :: real)"
  by (metis of_nat_0_le_iff of_nat_unat)

section \<open>Lists\<close>

lemma list_length_4:
  "4 \<le> length bs \<Longrightarrow> \<exists>a b c d rest. bs = a # b # c # d # rest"
  by (metis One_nat_def Suc_le_length_iff numeral_2_eq_2 numeral_3_eq_3 numeral_eq_Suc pred_numeral_simps(2) semiring_norm(26) semiring_norm(27) semiring_norm(28))

lemma append_longer_prefix:
  assumes "x @ y = w @ z" and "length w \<le> length x"
  obtains x' where "x = w @ x'"
proof -
  have "take (length w) x = take (length w) (x @ y)" using assms(2) by simp
  also have "\<dots> = w" by (simp add: assms(1))
  finally show ?thesis using that [of "drop (length w) x"] by (metis append_take_drop_id)
qed

lemma distinct_subseteq_mset:
  assumes "mset xs \<subseteq># mset ys" and "distinct ys"
  shows "distinct xs"
  unfolding distinct_count_atmost_1
proof
  fix a
  have "count (mset xs) a \<le> count (mset ys) a" by (rule mset_subset_eq_count [OF assms(1)])
  also have "\<dots> \<le> 1" using assms(2) distinct_count_atmost_1 [of ys] by simp
  finally show "count (mset xs) a = (if a \<in> set xs then 1 else 0)"
    by (cases "a \<in> set xs") (auto simp: count_mset_0_iff le_Suc_eq)
qed

lemma sum_list_map_filter_le:
  "sum_list (map f (filter P xs)) \<le> sum_list (map f xs)" for f :: "'a \<Rightarrow> nat"
  by (induction xs) auto

end
