(* ===== verification/ByteCodec.thy ===== *)
theory ByteCodec
  imports Prelude
begin

text \<open>
  The big-endian loads and stores of \<open>TunnelFrame.cpp\<close> (\<open>store_u16\<close>, \<open>store_u32\<close>,
  \<open>store_u64\<close> and their inverses; \<open>EdgeDataFrame.cpp\<close> and \<open>KcpTunnel.cpp\<close> repeat them
  word for word), and the interface every fixed-width field of a wire format meets.
\<close>

section \<open>Stores and loads\<close>

definition store_u16 :: "u16 \<Rightarrow> bytes" where
  "store_u16 value = [ucast (drop_bit 8 value AND 0xff), ucast (value AND 0xff)]"

definition store_u32 :: "u32 \<Rightarrow> bytes" where
  "store_u32 value =
     [ucast (drop_bit 24 value AND 0xff), ucast (drop_bit 16 value AND 0xff),
      ucast (drop_bit 8 value AND 0xff), ucast (value AND 0xff)]"

definition store_u64 :: "u64 \<Rightarrow> bytes" where
  "store_u64 value = map (\<lambda>i. ucast (drop_bit (i * 8) value AND 0xff)) (rev [0..<8])"

definition load_u16 :: "bytes \<Rightarrow> u16" where
  "load_u16 p = push_bit 8 (ucast (p ! 0)) OR ucast (p ! 1)"

definition load_u32 :: "bytes \<Rightarrow> u32" where
  "load_u32 p =
     push_bit 24 (ucast (p ! 0)) OR push_bit 16 (ucast (p ! 1)) OR
     push_bit 8 (ucast (p ! 2)) OR ucast (p ! 3)"

definition load_u64 :: "bytes \<Rightarrow> u64" where
  "load_u64 p = foldl (\<lambda>value i. push_bit 8 value OR ucast (p ! i)) 0 [0..<8]"

section \<open>The interface of a fixed-width field\<close>

locale be_field =
  fixes store :: "'v \<Rightarrow> bytes" and load :: "bytes \<Rightarrow> 'v" and width :: nat
  assumes length_store: "length (store v) = width"
    and load_store_append: "load (store v @ rest) = v"
    and store_load: "width \<le> length bs \<Longrightarrow> store (load bs) = take width bs"
begin

lemma load_at: "off = length pre \<Longrightarrow> load (drop off (pre @ store v @ post)) = v"
  by (simp add: load_store_append)

lemma store_inject: "store v = store w \<Longrightarrow> v = w"
  by (metis append_Nil2 load_store_append)

lemma load_eq_iff: "width \<le> length bs \<Longrightarrow> load bs = v \<longleftrightarrow> take width bs = store v"
  by (metis append_take_drop_id load_store_append store_load)

lemma drop_field:
  "off + width \<le> length bs \<Longrightarrow> drop off bs = store (load (drop off bs)) @ drop (off + width) bs"
  using store_load [of "drop off bs"] append_take_drop_id [of width "drop off bs"]
  by (simp add: add.commute)

end

section \<open>Bits of a big-endian number\<close>

definition horner :: "bytes \<Rightarrow> 'a::len word" where
  "horner bs = foldl (\<lambda>value b. push_bit 8 value OR ucast b) 0 bs"

definition be_bytes :: "nat \<Rightarrow> 'a::len word \<Rightarrow> bytes" where
  "be_bytes n v = map (\<lambda>i. ucast (drop_bit (i * 8) v AND 0xff)) (rev [0..<n])"

lemma length_be_bytes [simp]: "length (be_bytes n v) = n"
  by (simp add: be_bytes_def)

lemma bit_horner:
  "n < LENGTH('a::len) \<Longrightarrow>
   bit (horner bs :: 'a word) n \<longleftrightarrow> n div 8 < length bs \<and> bit (rev bs ! (n div 8)) (n mod 8)"
proof (induction bs arbitrary: n rule: rev_induct)
  case Nil
  then show ?case by (simp add: horner_def)
next
  case (snoc b bs)
  have step: "bit (horner (bs @ [b]) :: 'a word) n \<longleftrightarrow>
      8 \<le> n \<and> bit (horner bs :: 'a word) (n - 8) \<or> bit b n"
    using snoc.prems by (auto simp: horner_def bit_simps)
  show ?case
  proof (cases "n < 8")
    case True
    then show ?thesis by (simp add: step)
  next
    case False
    then obtain m where m: "n = 8 + m"
      by (metis le_iff_add linorder_not_less)
    with step have "bit (horner (bs @ [b]) :: 'a word) n \<longleftrightarrow> bit (horner bs :: 'a word) m"
      by simp
    also have "\<dots> \<longleftrightarrow> m div 8 < length bs \<and> bit (rev bs ! (m div 8)) (m mod 8)"
      using snoc.prems m by (intro snoc.IH) simp
    finally show ?thesis by (simp add: m)
  qed
qed

lemma horner_be_bytes:
  assumes "LENGTH('a::len) = n * 8"
  shows "horner (be_bytes n v) = (v :: 'a word)"
proof (rule bit_word_eqI)
  fix k assume k: "k < LENGTH('a)"
  then have "k div 8 < n" using assms by (simp add: less_mult_imp_div_less)
  then show "bit (horner (be_bytes n v) :: 'a word) k = bit v k"
    using k le_less_trans [OF mod_less_eq_dividend [of k 8] k]
    by (simp add: bit_horner be_bytes_def rev_map bit_simps mask8_eq div_mult_mod_eq)
qed

lemma be_bytes_horner:
  assumes "LENGTH('a::len) = length bs * 8"
  shows "be_bytes (length bs) (horner bs :: 'a word) = bs"
proof (rule nth_equalityI)
  fix i assume i: "i < length (be_bytes (length bs) (horner bs :: 'a word))"
  define j where "j = length bs - Suc i"
  have j: "j < length bs" "rev [0..<length bs] ! i = j" "rev bs ! j = bs ! i"
    using i by (auto simp: j_def rev_nth)
  show "be_bytes (length bs) (horner bs :: 'a word) ! i = bs ! i"
  proof (rule bit_word_eqI)
    fix m assume m: "m < LENGTH(8)"
    then have "j * 8 + m < LENGTH('a)" "(j * 8 + m) div 8 = j" "(j * 8 + m) mod 8 = m"
      using j(1) assms by auto
    then show "bit (be_bytes (length bs) (horner bs :: 'a word) ! i) m = bit (bs ! i) m"
      using i m j by (simp add: be_bytes_def bit_simps mask8_eq bit_horner add.commute)
  qed
qed simp

section \<open>The three widths\<close>

lemma upt_0_8: "[0..<8] = [0, 1, 2, 3, 4, 5, 6, 7 :: nat]"
  by (simp add: upt_rec)

lemma store_u16_be: "store_u16 v = be_bytes 2 v"
  by (simp add: store_u16_def be_bytes_def upt_rec)

lemma store_u32_be: "store_u32 v = be_bytes 4 v"
  by (simp add: store_u32_def be_bytes_def upt_rec)

lemma store_u64_be: "store_u64 v = be_bytes 8 v"
  by (simp add: store_u64_def be_bytes_def)

lemma load_u16_horner: "2 \<le> length p \<Longrightarrow> load_u16 p = horner (take 2 p)"
  by (cases p; cases "tl p") (auto simp: load_u16_def horner_def)

lemma load_u32_horner: "4 \<le> length p \<Longrightarrow> load_u32 p = horner (take 4 p)"
  using list_length_4 [of p]
  by (auto simp: load_u32_def horner_def push_bit_or or.assoc)

lemma load_u64_horner:
  assumes "8 \<le> length p"
  shows "load_u64 p = horner (take 8 p)"
proof -
  have "take 8 p = map (\<lambda>i. p ! i) [0..<8]"
    using assms by (simp add: list_eq_iff_nth_eq)
  then show ?thesis
    by (simp add: load_u64_def horner_def foldl_map)
qed

interpretation u16: be_field store_u16 load_u16 2
proof
  fix v rest and bs :: bytes
  show "length (store_u16 v) = 2" by (simp add: store_u16_be)
  then show "load_u16 (store_u16 v @ rest) = v"
    by (simp add: load_u16_horner store_u16_be horner_be_bytes)
  assume "2 \<le> length bs"
  then show "store_u16 (load_u16 bs) = take 2 bs"
    using be_bytes_horner [of "take 2 bs", where 'a = 16]
    by (simp add: load_u16_horner store_u16_be)
qed

interpretation u32: be_field store_u32 load_u32 4
proof
  fix v rest and bs :: bytes
  show "length (store_u32 v) = 4" by (simp add: store_u32_be)
  then show "load_u32 (store_u32 v @ rest) = v"
    by (simp add: load_u32_horner store_u32_be horner_be_bytes)
  assume "4 \<le> length bs"
  then show "store_u32 (load_u32 bs) = take 4 bs"
    using be_bytes_horner [of "take 4 bs", where 'a = 32]
    by (simp add: load_u32_horner store_u32_be)
qed

interpretation u64: be_field store_u64 load_u64 8
proof
  fix v rest and bs :: bytes
  show "length (store_u64 v) = 8" by (simp add: store_u64_be)
  then show "load_u64 (store_u64 v @ rest) = v"
    by (simp add: load_u64_horner store_u64_be horner_be_bytes)
  assume "8 \<le> length bs"
  then show "store_u64 (load_u64 bs) = take 8 bs"
    using be_bytes_horner [of "take 8 bs", where 'a = 64]
    by (simp add: load_u64_horner store_u64_be)
qed

lemmas [codec, simp] = u16.length_store u32.length_store u64.length_store
lemmas [codec] = u16.load_store_append u32.load_store_append u64.load_store_append

end
