(* ===== verification/CString.thy ===== *)
theory CString
  imports Prelude
begin

text \<open>
  The parts of the C and C++ string library the sources use: \<open>c_str\<close>, \<open>strtoul\<close>,
  \<open>std::to_string\<close>, \<open>find\<close> and \<open>substr\<close>. Text is a \<open>string\<close>, a list of 8-bit characters.
\<close>

section \<open>Characters\<close>

definition code :: "char \<Rightarrow> nat" where
  "code c = of_char c"

definition isdigit :: "char \<Rightarrow> bool" where
  "isdigit c \<longleftrightarrow> 48 \<le> code c \<and> code c \<le> 57"

text \<open>\<open>std::isspace\<close> in the C locale: space, \<open>\t\<close>, \<open>\n\<close>, \<open>\v\<close>, \<open>\f\<close>, \<open>\r\<close>.\<close>

definition isspace :: "char \<Rightarrow> bool" where
  "isspace c \<longleftrightarrow> code c = 32 \<or> 9 \<le> code c \<and> code c \<le> 13"

definition digit_char :: "nat \<Rightarrow> char" where
  "digit_char d = char_of (48 + d)"

lemma code_digit_char: "d < 10 \<Longrightarrow> code (digit_char d) = 48 + d"
  by (simp add: code_def digit_char_def)

lemma isdigit_digit_char [simp]: "d < 10 \<Longrightarrow> isdigit (digit_char d)"
  by (simp add: isdigit_def code_digit_char)

lemma isdigit_not_isspace: "isdigit c \<Longrightarrow> \<not> isspace c"
  by (auto simp: isdigit_def isspace_def)

section \<open>std::to_string on unsigned values\<close>

fun to_string :: "nat \<Rightarrow> string" where
  "to_string n = (if n < 10 then [digit_char n] else to_string (n div 10) @ [digit_char (n mod 10)])"

declare to_string.simps [simp del]

text \<open>\<open>std::to_string\<close> on signed values.\<close>

definition to_string_int :: "int \<Rightarrow> string" where
  "to_string_int i = (if i < 0 then CHR ''-'' # to_string (nat (- i)) else to_string (nat i))"

fun digits_value :: "nat \<Rightarrow> string \<Rightarrow> nat" where
  "digits_value acc [] = acc"
| "digits_value acc (c # cs) = digits_value (10 * acc + (code c - 48)) cs"

lemma digits_value_append:
  "digits_value acc (xs @ ys) = digits_value (digits_value acc xs) ys"
  by (induction acc xs rule: digits_value.induct) auto

lemma to_string_nonempty [simp]: "to_string n \<noteq> []"
  by (subst to_string.simps) simp

lemma isdigit_to_string: "c \<in> set (to_string n) \<Longrightarrow> isdigit c"
proof (induction n rule: to_string.induct)
  case (1 n)
  then show ?case
    by (cases "n < 10") (auto simp: to_string.simps [of n])
qed

lemma digits_value_to_string [simp]: "digits_value 0 (to_string n) = n"
proof (induction n rule: to_string.induct)
  case (1 n)
  then show ?case
    by (cases "n < 10") (auto simp: to_string.simps [of n] digits_value_append code_digit_char)
qed

lemma to_string_inject: "to_string m = to_string n \<Longrightarrow> m = n"
  by (metis digits_value_to_string)

lemma not_in_to_string: "\<not> isdigit c \<Longrightarrow> c \<notin> set (to_string n)"
  using isdigit_to_string by blast

lemma to_string_int_inject: "to_string_int i = to_string_int j \<Longrightarrow> i = j"
proof -
  assume eq: "to_string_int i = to_string_int j"
  have minus: "CHR ''-'' # xs \<noteq> to_string n" for xs n
  proof
    assume "CHR ''-'' # xs = to_string n"
    then have "CHR ''-'' \<in> set (to_string n)" by (metis list.set_intros(1))
    then show False using isdigit_to_string by (fastforce simp: isdigit_def code_def)
  qed
  show ?thesis
    using eq minus minus [symmetric]
    by (auto simp: to_string_int_def split: if_splits dest!: to_string_inject)
qed

section \<open>strtoul\<close>

text \<open>
  \<open>c_str()\<close> hands over the characters before the first NUL. \<open>strtoul\<close> skips white space,
  takes an optional sign, converts the longest run of digits and reports where it stopped;
  without a digit it converts nothing and reports the start. A value above \<open>ULONG_MAX\<close>
  yields \<open>ULONG_MAX\<close>; a minus sign negates in the unsigned type. The model returns the value
  and the rest of the text at the end pointer, or \<open>None\<close> when the end pointer is the start.
\<close>

definition c_str :: "string \<Rightarrow> string" where
  "c_str s = takeWhile (\<lambda>c. code c \<noteq> 0) s"

definition ulong_max :: nat where
  "ulong_max = 2 ^ 64 - 1"

definition sign_rest :: "string \<Rightarrow> bool \<times> string" where
  "sign_rest s = (case s of [] \<Rightarrow> (False, [])
     | c # cs \<Rightarrow> if c = CHR ''-'' then (True, cs)
                 else if c = CHR ''+'' then (False, cs) else (False, s))"

definition strtoul :: "string \<Rightarrow> (nat \<times> string) option" where
  "strtoul s =
     (let (neg, t) = sign_rest (dropWhile isspace s);
          ds = takeWhile isdigit t;
          value = digits_value 0 ds
      in if ds = [] then None
         else Some (if ulong_max < value then ulong_max
                    else if neg then (2 ^ 64 - value) mod 2 ^ 64 else value,
                    dropWhile isdigit t))"

lemma c_str_no_nul: "(\<And>c. c \<in> set s \<Longrightarrow> code c \<noteq> 0) \<Longrightarrow> c_str s = s"
  by (simp add: c_str_def takeWhile_eq_all_conv)

lemma c_str_to_string [simp]: "c_str (to_string n) = to_string n"
  by (rule c_str_no_nul) (auto dest!: isdigit_to_string simp: isdigit_def)

lemma digits_head:
  assumes "ds \<noteq> []" and "\<And>c. c \<in> set ds \<Longrightarrow> isdigit c"
  shows "sign_rest (dropWhile isspace ds) = (False, ds)"
proof -
  obtain d rest where d: "ds = d # rest" "isdigit d"
    using assms by (cases ds) auto
  then have "d \<noteq> CHR ''-''" "d \<noteq> CHR ''+''" "\<not> isspace d"
    by (auto simp: isdigit_def isspace_def code_def)
  with d(1) show ?thesis by (simp add: sign_rest_def)
qed

lemma strtoul_to_string:
  assumes "n \<le> ulong_max"
  shows "strtoul (to_string n) = Some (n, [])"
proof -
  have ds: "\<And>c. c \<in> set (to_string n) \<Longrightarrow> isdigit c"
    by (rule isdigit_to_string)
  then have tw: "takeWhile isdigit (to_string n) = to_string n"
    and dw: "dropWhile isdigit (to_string n) = []"
    by simp_all
  show ?thesis
    using digits_head [OF to_string_nonempty ds] assms
    by (simp add: strtoul_def Let_def tw dw)
qed

lemma strtoul_le: "strtoul s = Some (v, rest) \<Longrightarrow> v \<le> ulong_max"
proof -
  assume "strtoul s = Some (v, rest)"
  moreover have "(2 ^ 64 - x) mod 2 ^ 64 \<le> ulong_max" for x :: nat
    using mod_less_divisor [of "2 ^ 64" "2 ^ 64 - x"] by (simp add: ulong_max_def)
  ultimately show ?thesis
    by (auto simp: strtoul_def Let_def split: prod.splits if_splits)
qed

section \<open>Searching and cutting text\<close>

text \<open>\<open>text.find(c, from)\<close>: the first position at or after \<open>from\<close>, \<open>None\<close> for \<open>npos\<close>.\<close>

definition find_char :: "char \<Rightarrow> nat \<Rightarrow> string \<Rightarrow> nat option" where
  "find_char c from s =
     (let k = length (takeWhile (\<lambda>x. x \<noteq> c) (drop from s))
      in if from + k < length s then Some (from + k) else None)"

lemma find_char_append:
  "c \<notin> set xs \<Longrightarrow> from = length pre \<Longrightarrow>
   find_char c from (pre @ xs @ c # ys) = Some (from + length xs)"
  by (simp add: find_char_def takeWhile_append)

lemma find_char_None: "c \<notin> set xs \<Longrightarrow> from = length pre \<Longrightarrow> find_char c from (pre @ xs) = None"
proof -
  assume "c \<notin> set xs" "from = length pre"
  then have tw: "takeWhile (\<lambda>x. x \<noteq> c) xs = xs" by auto
  from \<open>from = length pre\<close> show ?thesis by (simp add: find_char_def tw)
qed

text \<open>\<open>text.substr(pos, n)\<close> with \<open>pos\<close> in range.\<close>

definition substr :: "nat \<Rightarrow> nat \<Rightarrow> string \<Rightarrow> string" where
  "substr pos n s = take n (drop pos s)"

end
