(* ===== verification/NodeId.thy ===== *)
theory NodeId
  imports ByteCodec CString
begin

text \<open>
  Node identifiers and addresses: \<open>KcpConv\<close> (\<open>myring/include/Kcp/KcpConv.hpp\<close>), endpoints
  (\<open>Endpoint.hpp\<close>, \<open>Endpoint.cpp\<close>), and the hexadecimal and \<open>host:port:public_key\<close> text
  forms of \<open>NodeIdentity.cpp\<close>.
\<close>

section \<open>KcpConv\<close>

type_synonym KcpConv = "32 barr"
type_synonym Key256 = "32 barr"
type_synonym Signature512 = "64 barr"

definition conv_zero :: KcpConv where
  "conv_zero = arr_of []"

definition from_uint32 :: "u32 \<Rightarrow> KcpConv" where
  "from_uint32 value =
     arr_of ([ucast (value AND 0xff), ucast (drop_bit 8 value AND 0xff),
              ucast (drop_bit 16 value AND 0xff), ucast (drop_bit 24 value AND 0xff)])"

definition conv_empty :: "KcpConv \<Rightarrow> bool" where
  "conv_empty conv \<longleftrightarrow> list_all (\<lambda>value. value = 0) (arr_bytes conv)"

definition KcpConvHash :: "KcpConv \<Rightarrow> u64" where
  "KcpConvHash conv =
     foldl (\<lambda>seed b. (seed XOR ucast b) * 1099511628211) 1469598103934665603 (arr_bytes conv)"

lemma conv_empty_iff: "conv_empty c \<longleftrightarrow> c = conv_zero"
proof
  assume "conv_empty c"
  then have "arr_bytes c = replicate 32 0"
    using length_arr_bytes [of c] replicate_eqI [of "arr_bytes c" 32 0]
    by (auto simp: conv_empty_def list_all_iff)
  then show "c = conv_zero"
    by (simp add: arr_eq_iff conv_zero_def arr_bytes_of)
qed (simp add: conv_empty_def conv_zero_def arr_bytes_of list_all_iff)

section \<open>Endpoints\<close>

record Ipv4Endpoint =
  ep_host :: string
  ep_port :: u16

record NodeAddress =
  node_endpoint :: Ipv4Endpoint
  node_id :: KcpConv

record NodeKeyPair =
  private_key :: Key256
  public_key :: Key256

record NodeIdentity =
  key_pair :: NodeKeyPair
  identity_id :: KcpConv
  configured :: bool

text \<open>
  \<open>sockaddr_in\<close> as the bytes the sources read back from it: port and address in network
  order. \<open>inet_pton\<close> is the operating system's; it is a parameter that yields the four
  address bytes, or \<open>None\<close> when it does not return 1.
\<close>

record sockaddr_in =
  sin_port :: bytes
  sin_addr :: "4 barr"

definition make_sockaddr :: "(string \<Rightarrow> 4 barr option) \<Rightarrow> Ipv4Endpoint \<Rightarrow> sockaddr_in option" where
  "make_sockaddr inet_pton ep =
     (if ep_host ep = [] \<or> ep_port ep = 0 then None
      else case inet_pton (c_str (ep_host ep)) of
             None \<Rightarrow> None
           | Some a \<Rightarrow> Some \<lparr>sin_port = store_u16 (ep_port ep), sin_addr = a\<rparr>)"

definition endpoint_to_string :: "Ipv4Endpoint \<Rightarrow> string" where
  "endpoint_to_string ep = ep_host ep @ '':'' @ to_string (unat (ep_port ep))"

section \<open>Hexadecimal text\<close>

definition hex_value :: "char \<Rightarrow> int" where
  "hex_value c =
     (if 48 \<le> code c \<and> code c \<le> 57 then int (code c) - 48
      else if 97 \<le> code c \<and> code c \<le> 102 then int (code c) - 97 + 10
      else if 65 \<le> code c \<and> code c \<le> 70 then int (code c) - 65 + 10
      else -1)"

definition strip_0x :: "string \<Rightarrow> string" where
  "strip_0x value =
     (if 2 \<le> length value \<and> value ! 0 = CHR ''0'' \<and>
         (value ! 1 = CHR ''x'' \<or> value ! 1 = CHR ''X'')
      then drop 2 value else value)"

fun parse_hex_pairs :: "string \<Rightarrow> bytes option" where
  "parse_hex_pairs [] = Some []"
| "parse_hex_pairs [_] = None"
| "parse_hex_pairs (a # b # rest) =
     (let hi = hex_value a; lo = hex_value b in
      if hi < 0 \<or> lo < 0 then None
      else map_option (\<lambda>bs. word_of_int (push_bit 4 hi OR lo) # bs) (parse_hex_pairs rest))"

definition parse_hex_256 :: "string \<Rightarrow> Key256 option" where
  "parse_hex_256 text =
     (let value = strip_0x text in
      if length value \<noteq> 32 * 2 then None else map_option arr_of (parse_hex_pairs value))"

definition parse_hex_512 :: "string \<Rightarrow> Signature512 option" where
  "parse_hex_512 text =
     (let value = strip_0x text in
      if length value \<noteq> 64 * 2 then None else map_option arr_of (parse_hex_pairs value))"

definition hex_digits :: string where
  "hex_digits = ''0123456789abcdef''"

definition hex_byte :: "byte \<Rightarrow> string" where
  "hex_byte b = [hex_digits ! unat (drop_bit 4 b AND 0x0f), hex_digits ! unat (b AND 0x0f)]"

definition hex_256 :: "Key256 \<Rightarrow> string" where
  "hex_256 value = concat (map hex_byte (arr_bytes value))"

definition hex_512 :: "Signature512 \<Rightarrow> string" where
  "hex_512 value = concat (map hex_byte (arr_bytes value))"

definition parse_convid_hex :: "string \<Rightarrow> KcpConv option" where
  "parse_convid_hex text =
     (case parse_hex_256 text of
        None \<Rightarrow> None
      | Some value \<Rightarrow>
          let conv = arr_of (map (\<lambda>i. arr_bytes value ! i) [0..<32])
          in if conv_empty conv then None else Some conv)"

definition convid_to_hex :: "KcpConv \<Rightarrow> string" where
  "convid_to_hex conv = hex_256 (arr_of (map (\<lambda>i. arr_bytes conv ! i) [0..<32]))"

section \<open>Keys and identifiers\<close>

definition node_id_from_public_key :: "Key256 \<Rightarrow> KcpConv" where
  "node_id_from_public_key pk = arr_of (map (\<lambda>i. arr_bytes pk ! i) [0..<32])"

definition public_key_from_node_id :: "KcpConv \<Rightarrow> Key256 option" where
  "public_key_from_node_id nid =
     (if conv_empty nid then None else Some (arr_of (map (\<lambda>i. arr_bytes nid ! i) [0..<32])))"

section \<open>The text form of a node address\<close>

definition parse_node_address :: "string \<Rightarrow> NodeAddress option" where
  "parse_node_address text =
     (case find_char (CHR '':'') 0 text of
        None \<Rightarrow> None
      | Some first \<Rightarrow>
     (case find_char (CHR '':'') (first + 1) text of
        None \<Rightarrow> None
      | Some second \<Rightarrow>
        if find_char (CHR '':'') (second + 1) text \<noteq> None then None
        else
          let host = substr 0 first text;
              port_text = substr (first + 1) (second - first - 1) text;
              id_text = drop (second + 1) text
          in if host = [] \<or> port_text = [] \<or> id_text = [] then None
             else case strtoul (c_str port_text) of
                    None \<Rightarrow> None
                  | Some (port, rest) \<Rightarrow>
                      if rest \<noteq> [] \<or> port = 0 \<or> 65535 < port then None
                      else case parse_convid_hex id_text of
                             None \<Rightarrow> None
                           | Some nid \<Rightarrow>
                               Some \<lparr>node_endpoint = \<lparr>ep_host = host, ep_port = of_nat port\<rparr>, node_id = nid\<rparr>))"

section \<open>Round trips\<close>

lemma copy_arr [simp]:
  "map (\<lambda>i. arr_bytes (a :: 32 barr) ! i) [0..<32] = arr_bytes a"
  using length_arr_bytes [of a] map_nth [of "arr_bytes a"] by simp

lemma node_id_from_public_key_eq [simp]: "node_id_from_public_key pk = pk"
  by (simp add: node_id_from_public_key_def)

lemma public_key_from_node_id_eq:
  "public_key_from_node_id nid = (if conv_empty nid then None else Some nid)"
  by (simp add: public_key_from_node_id_def)

lemma convid_to_hex_eq: "convid_to_hex conv = hex_256 conv"
  by (simp add: convid_to_hex_def)

lemma hex_value_digit: "n < 16 \<Longrightarrow> hex_value (hex_digits ! n) = int n"
proof -
  have "list_all (\<lambda>n. hex_value (hex_digits ! n) = int n) [0..<16]" by code_simp
  then show "n < 16 \<Longrightarrow> ?thesis" by (simp add: list_all_iff)
qed

lemma low_nibble: "(0x0f :: byte) = mask 4"
  by (simp add: mask_eq_exp_minus_1)

lemma unat_nibble_less: "unat ((b :: byte) AND 0x0f) < 16"
  using unat_mono [of "b AND mask 4" "2 ^ 4"] and_mask_less' [of 4 b] by (simp add: low_nibble)

lemma nibbles_join:
  "word_of_int (push_bit 4 (uint (drop_bit 4 b AND 0x0f)) OR uint (b AND 0x0f)) = (b :: byte)"
  by (rule bit_word_eqI) (auto simp: low_nibble bit_simps)

lemma parse_hex_byte:
  "parse_hex_pairs (hex_byte b @ rest) = map_option ((#) b) (parse_hex_pairs rest)"
  by (simp add: hex_byte_def hex_value_digit unat_nibble_less Let_def nibbles_join)

lemma parse_hex_bytes: "parse_hex_pairs (concat (map hex_byte bs)) = Some bs"
  by (induction bs) (simp_all add: parse_hex_byte)

lemma length_hex_bytes: "length (concat (map hex_byte bs)) = 2 * length bs"
  by (induction bs) (simp_all add: hex_byte_def)

lemma hex_digits_no_x: "n < 16 \<Longrightarrow> hex_digits ! n \<notin> {CHR ''x'', CHR ''X'', CHR '':''}"
proof -
  have "list_all (\<lambda>n. hex_digits ! n \<notin> {CHR ''x'', CHR ''X'', CHR '':''}) [0..<16]" by code_simp
  then show "n < 16 \<Longrightarrow> ?thesis" by (simp add: list_all_iff)
qed

lemma set_hex_bytes:
  "c \<in> set (concat (map hex_byte bs)) \<Longrightarrow> c \<notin> {CHR ''x'', CHR ''X'', CHR '':''}"
  using hex_digits_no_x unat_nibble_less by (fastforce simp: hex_byte_def)

lemma strip_0x_hex: "strip_0x (concat (map hex_byte bs)) = concat (map hex_byte bs)"
proof (cases "2 \<le> length (concat (map hex_byte bs))")
  case True
  then have "concat (map hex_byte bs) ! 1 \<in> set (concat (map hex_byte bs))"
    by (intro nth_mem) linarith
  from set_hex_bytes [OF this] show ?thesis by (simp add: strip_0x_def)
qed (simp add: strip_0x_def)

lemma parse_hex_256_hex [simp]: "parse_hex_256 (hex_256 k) = Some k"
  by (simp add: parse_hex_256_def hex_256_def strip_0x_hex parse_hex_bytes length_hex_bytes)

lemma parse_hex_512_hex [simp]: "parse_hex_512 (hex_512 k) = Some k"
  by (simp add: parse_hex_512_def hex_512_def strip_0x_hex parse_hex_bytes length_hex_bytes)

lemma length_hex_256: "length (hex_256 k) = 64"
  by (simp add: hex_256_def length_hex_bytes)

lemma hex_256_inject: "hex_256 a = hex_256 b \<longleftrightarrow> a = b"
  by (metis option.inject parse_hex_256_hex)

lemma parse_convid_hex_hex: "parse_convid_hex (convid_to_hex c) = (if conv_empty c then None else Some c)"
  by (simp add: parse_convid_hex_def convid_to_hex_eq)

lemma parse_convid_hex_nonempty: "parse_convid_hex s = Some c \<Longrightarrow> \<not> conv_empty c"
  by (auto simp: parse_convid_hex_def Let_def split: option.splits if_splits)

lemma no_colon_hex_256: "CHR '':'' \<notin> set (hex_256 k)"
  using set_hex_bytes by (fastforce simp: hex_256_def)

text \<open>
  An address prints as the endpoint, a colon and the identifier; parsing reads it back
  whenever the host has no colon and the port and the identifier are not zero.
\<close>

lemma no_colon_to_string: "CHR '':'' \<notin> set (to_string n)"
  by (rule not_in_to_string) (simp add: isdigit_def code_def)

lemma parse_node_address_print:
  assumes host: "ep_host (node_endpoint a) \<noteq> []" "CHR '':'' \<notin> set (ep_host (node_endpoint a))"
    and port: "ep_port (node_endpoint a) \<noteq> 0"
    and nid: "\<not> conv_empty (node_id a)"
  shows "parse_node_address
           (endpoint_to_string (node_endpoint a) @ '':'' @ convid_to_hex (node_id a)) = Some a"
proof -
  define h where "h = ep_host (node_endpoint a)"
  define p where "p = to_string (unat (ep_port (node_endpoint a)))"
  define i where "i = convid_to_hex (node_id a)"
  let ?text = "h @ CHR '':'' # p @ CHR '':'' # i"
  have nc: "CHR '':'' \<notin> set h" "CHR '':'' \<notin> set p" "CHR '':'' \<notin> set i"
    using host by (simp_all add: h_def p_def i_def no_colon_to_string convid_to_hex_eq no_colon_hex_256)
  have f1: "find_char (CHR '':'') 0 ?text = Some (length h)"
    using find_char_append [of "CHR '':''" h 0 "[]" "p @ CHR '':'' # i"] nc by simp
  have f2: "find_char (CHR '':'') (length h + 1) ?text = Some (length h + 1 + length p)"
    using find_char_append [of "CHR '':''" p "length h + 1" "h @ '':''" i] nc by simp
  have f3: "find_char (CHR '':'') (length h + 1 + length p + 1) ?text = None"
    using find_char_None [of "CHR '':''" i "length h + 1 + length p + 1" "h @ '':'' @ p @ '':''"] nc
    by simp
  have cut: "substr 0 (length h) ?text = h"
    "substr (length h + 1) (length h + 1 + length p - length h - 1) ?text = p"
    "drop (length h + 1 + length p + 1) ?text = i"
    by (simp_all add: substr_def)
  have ne: "h \<noteq> []" "p \<noteq> []" "i \<noteq> []"
    using host length_hex_256 [of "node_id a"]
    by (auto simp: h_def p_def i_def convid_to_hex_eq)
  have le: "unat (ep_port (node_endpoint a)) \<le> 65535"
    using unsigned_less [of "ep_port (node_endpoint a)", where 'a = nat] by simp
  have st: "strtoul (c_str p) = Some (unat (ep_port (node_endpoint a)), [])"
    using le by (simp add: p_def strtoul_to_string ulong_max_def)
  have pi: "parse_convid_hex i = Some (node_id a)"
    using nid by (simp add: i_def parse_convid_hex_hex)
  have "parse_node_address ?text =
      Some \<lparr>node_endpoint = \<lparr>ep_host = h, ep_port = of_nat (unat (ep_port (node_endpoint a)))\<rparr>,
            node_id = node_id a\<rparr>"
    using ne port le unfolding parse_node_address_def
    by (simp only: f1 f2 f3 cut st pi option.case Let_def prod.case) (simp add: unat_eq_0)
  then have "parse_node_address ?text = Some a" by (simp add: h_def)
  then show ?thesis by (simp add: endpoint_to_string_def h_def p_def i_def)
qed


section \<open>Sample nodes\<close>

lemma arr_bytes_from_uint32:
  "arr_bytes (from_uint32 v) = [ucast (v AND 0xff), ucast (drop_bit 8 v AND 0xff),
     ucast (drop_bit 16 v AND 0xff), ucast (drop_bit 24 v AND 0xff)] @ replicate 28 0"
  by (simp add: from_uint32_def arr_bytes_of)

lemma octet_bit: "n < 8 \<Longrightarrow> bit (ucast (drop_bit k v AND 0xff) :: byte) n = bit (v :: u32) (k + n)"
  by (simp add: mask8_eq bit_simps)

lemma from_uint32_inject [simp]: "from_uint32 v = from_uint32 w \<longleftrightarrow> v = w"
proof
  assume "from_uint32 v = from_uint32 w"
  then have oct: "ucast (drop_bit k v AND 0xff) = (ucast (drop_bit k w AND 0xff) :: byte)"
    if "k \<in> {0, 8, 16, 24}" for k
    using that by (auto simp: arr_eq_iff arr_bytes_from_uint32)
  show "v = w"
  proof (rule bit_word_eqI)
    fix n assume n: "n < LENGTH(32)"
    define k where "k = 8 * (n div 8)"
    have "k \<in> {0, 8, 16, 24}" "n = k + n mod 8" using n by (auto simp: k_def)
    then show "bit v n = bit w n"
      using octet_bit [of "n mod 8" k v] octet_bit [of "n mod 8" k w] oct [of k] by simp
  qed
qed simp

lemma from_uint32_zero: "from_uint32 0 = conv_zero"
  by (simp add: arr_eq_iff arr_bytes_from_uint32 conv_zero_def arr_bytes_of)
    (simp add: numeral_eq_Suc)

lemma conv_empty_from_uint32 [simp]: "conv_empty (from_uint32 v) \<longleftrightarrow> v = 0"
  by (metis conv_empty_iff from_uint32_inject from_uint32_zero)

definition sample_node :: "u32 \<Rightarrow> NodeAddress" where
  "sample_node n = \<lparr>node_endpoint = \<lparr>ep_host = ''10.0.0.1'', ep_port = 9000\<rparr>, node_id = from_uint32 n\<rparr>"

lemma sample_node_simps [simp]:
  "node_id (sample_node n) = from_uint32 n" "ep_host (node_endpoint (sample_node n)) = ''10.0.0.1''"
  "ep_port (node_endpoint (sample_node n)) = 9000"
  by (simp_all add: sample_node_def)

end
