(* ===== verification/TunnelFrame.thy ===== *)
theory TunnelFrame
  imports NodeId
begin

text \<open>
  The tunnel frame of \<open>iota_proxy/src/frame/TunnelFrame.cpp\<close>: a 20-byte header (magic,
  version, type, flags, stream identifier, payload length) and the payload.
\<close>

section \<open>Data\<close>

datatype TunnelFrameType = Open | Data | Close | Control | Finish | Replicate | KafkaBroadcast

record BroadcastMetadata =
  bm_valid :: bool
  bm_ttl :: u8
  bm_origin :: KcpConv
  bm_message_id :: KcpConv

record TunnelFrameView =
  fv_type :: TunnelFrameType
  fv_stream_id :: u64
  fv_payload :: bytes
  fv_broadcast :: BroadcastMetadata

definition BroadcastMetadata_init :: BroadcastMetadata where
  "BroadcastMetadata_init =
     \<lparr>bm_valid = False, bm_ttl = 0, bm_origin = conv_zero, bm_message_id = conv_zero\<rparr>"

definition TunnelFrameView_init :: TunnelFrameView where
  "TunnelFrameView_init =
     \<lparr>fv_type = Data, fv_stream_id = 0, fv_payload = [], fv_broadcast = BroadcastMetadata_init\<rparr>"

primrec frame_code :: "TunnelFrameType \<Rightarrow> u8" where
  "frame_code Open = 1"
| "frame_code Data = 2"
| "frame_code Close = 3"
| "frame_code Control = 4"
| "frame_code Finish = 5"
| "frame_code Replicate = 6"
| "frame_code KafkaBroadcast = 7"

text \<open>\<open>static_cast<TunnelFrameType>\<close> on a code the validity test has let through.\<close>

definition frame_of_code :: "u8 \<Rightarrow> TunnelFrameType" where
  "frame_of_code c =
     (if c = 1 then Open else if c = 2 then Data else if c = 3 then Close
      else if c = 4 then Control else if c = 5 then Finish else if c = 6 then Replicate
      else KafkaBroadcast)"

definition kTunnelFrameHeaderSize :: nat where
  "kTunnelFrameHeaderSize = 20"

definition tunnel_kMagic :: u32 where
  "tunnel_kMagic = 0x49505450"

definition tunnel_kVersion :: u8 where
  "tunnel_kVersion = 1"

section \<open>Operations\<close>

definition valid_type :: "u8 \<Rightarrow> bool" where
  "valid_type value \<longleftrightarrow>
     value = frame_code Open \<or> value = frame_code Data \<or> value = frame_code Close \<or>
     value = frame_code Control \<or> value = frame_code Finish \<or> value = frame_code Replicate \<or>
     value = frame_code KafkaBroadcast"

definition encode_tunnel_frame :: "TunnelFrameType \<Rightarrow> u64 \<Rightarrow> bytes \<Rightarrow> bytes" where
  "encode_tunnel_frame type stream_id payload =
     (if 2 ^ 32 - 1 < length payload then []
      else
        let packet = replicate (kTunnelFrameHeaderSize + length payload) 0;
            packet = write_at 0 (store_u32 tunnel_kMagic) packet;
            packet = write_at 4 [tunnel_kVersion] packet;
            packet = write_at 5 [frame_code type] packet;
            packet = write_at 6 (store_u16 0) packet;
            packet = write_at 8 (store_u64 stream_id) packet;
            packet = write_at 16 (store_u32 (of_nat (length payload))) packet
        in if payload \<noteq> [] then write_at kTunnelFrameHeaderSize payload packet else packet)"

definition decode_tunnel_frame :: "bytes \<Rightarrow> TunnelFrameView \<Rightarrow> TunnelFrameView option" where
  "decode_tunnel_frame packet out =
     (if length packet < kTunnelFrameHeaderSize then None
      else if load_u32 packet \<noteq> tunnel_kMagic \<or> packet ! 4 \<noteq> tunnel_kVersion \<or>
              \<not> valid_type (packet ! 5) then None
      else if load_u16 (drop 6 packet) \<noteq> 0 then None
      else
        let payload_len = load_u32 (drop 16 packet)
        in if length packet - kTunnelFrameHeaderSize \<noteq> unat payload_len then None
           else
             let out = out\<lparr>fv_type := frame_of_code (packet ! 5),
                           fv_stream_id := load_u64 (drop 8 packet),
                           fv_payload := sub_bytes kTunnelFrameHeaderSize (unat payload_len) packet\<rparr>
             in if fv_type out = Control \<or> fv_stream_id out \<noteq> 0 then Some out else None)"

definition tunnel_frame_type_name :: "TunnelFrameType \<Rightarrow> string" where
  "tunnel_frame_type_name type =
     (case type of Open \<Rightarrow> ''open'' | Data \<Rightarrow> ''data'' | Close \<Rightarrow> ''close''
      | Control \<Rightarrow> ''control'' | Finish \<Rightarrow> ''finish'' | Replicate \<Rightarrow> ''replicate''
      | KafkaBroadcast \<Rightarrow> ''kafka_broadcast'')"

section \<open>The layout of an encoded frame\<close>

lemma frame_of_code_code [simp]: "frame_of_code (frame_code t) = t"
  by (cases t) (simp_all add: frame_of_code_def)

lemma valid_type_iff: "valid_type c \<longleftrightarrow> (\<exists>t. c = frame_code t)"
proof
  assume "\<exists>t. c = frame_code t"
  then obtain t where "c = frame_code t" ..
  then show "valid_type c" by (cases t) (simp_all add: valid_type_def)
qed (unfold valid_type_def, blast)

lemma frame_code_of_code: "valid_type c \<Longrightarrow> frame_code (frame_of_code c) = c"
  by (auto simp: valid_type_iff)

lemma write_at_step:
  "off = length pre \<Longrightarrow> length bs \<le> n \<Longrightarrow>
   write_at off bs (pre @ replicate n x) = (pre @ bs) @ replicate (n - length bs) x"
  by (simp add: write_at_append_replicate)

definition tunnel_header :: "TunnelFrameType \<Rightarrow> u64 \<Rightarrow> u32 \<Rightarrow> bytes" where
  "tunnel_header type stream_id len =
     ((((store_u32 tunnel_kMagic @ [tunnel_kVersion]) @ [frame_code type]) @ store_u16 0) @
      store_u64 stream_id) @ store_u32 len"

lemma length_tunnel_header [simp]: "length (tunnel_header t s l) = 20"
  by (simp add: tunnel_header_def)

lemma encode_layout:
  assumes "length payload < 2 ^ 32"
  shows "encode_tunnel_frame t s payload = tunnel_header t s (of_nat (length payload)) @ payload"
proof -
  let ?n = "length payload"
  have hd: "write_at 16 (store_u32 l) (write_at 8 (store_u64 s) (write_at 6 (store_u16 0)
      (write_at 5 [frame_code t] (write_at 4 [tunnel_kVersion]
      (write_at 0 (store_u32 tunnel_kMagic) (replicate (20 + ?n) 0)))))) =
      tunnel_header t s l @ replicate ?n 0" for l
    by (simp add: write_at_replicate write_at_step tunnel_header_def
        del: append_assoc append_Cons append_Nil append.simps)
  have "write_at 20 payload (tunnel_header t s l @ replicate ?n 0) = tunnel_header t s l @ payload" for l
    by (subst write_at_step) simp_all
  then show ?thesis
    using assms hd [of "of_nat ?n"] hd [of 0]
    by (cases "payload = []")
      (auto simp only: encode_tunnel_frame_def kTunnelFrameHeaderSize_def Let_def, simp_all)
qed

lemma encode_too_long: "2 ^ 32 \<le> length payload \<Longrightarrow> encode_tunnel_frame t s payload = []"
  by (simp add: encode_tunnel_frame_def)


section \<open>Decoding\<close>

lemma drop_nth: "off < length bs \<Longrightarrow> drop off bs = bs ! off # drop (Suc off) bs"
  by (simp add: Cons_nth_drop_Suc)

text \<open>Every packet with a full header is a header, read field by field, and its rest.\<close>

lemma packet_fields:
  assumes "20 \<le> length p"
  shows "p = store_u32 (load_u32 p) @ [p ! 4] @ [p ! 5] @ store_u16 (load_u16 (drop 6 p)) @
             store_u64 (load_u64 (drop 8 p)) @ store_u32 (load_u32 (drop 16 p)) @ drop 20 p"
proof -
  have "p = store_u32 (load_u32 p) @ drop 4 p"
    using assms u32.drop_field [of 0 p] by simp
  also have "drop 4 p = [p ! 4] @ [p ! 5] @ drop 6 p"
    using assms drop_nth [of 4 p] drop_nth [of 5 p] by simp
  also have "drop 6 p = store_u16 (load_u16 (drop 6 p)) @ drop 8 p"
    using assms u16.drop_field [of 6 p] by simp
  also have "drop 8 p = store_u64 (load_u64 (drop 8 p)) @ drop 16 p"
    using assms u64.drop_field [of 8 p] by simp
  also have "drop 16 p = store_u32 (load_u32 (drop 16 p)) @ drop 20 p"
    using assms u32.drop_field [of 16 p] by simp
  finally show ?thesis .
qed

lemma header_reads:
  "load_u32 (tunnel_header t s l @ rest) = tunnel_kMagic"
  "(tunnel_header t s l @ rest) ! 4 = tunnel_kVersion"
  "(tunnel_header t s l @ rest) ! 5 = frame_code t"
  "load_u16 (drop 6 (tunnel_header t s l @ rest)) = 0"
  "load_u64 (drop 8 (tunnel_header t s l @ rest)) = s"
  "load_u32 (drop 16 (tunnel_header t s l @ rest)) = l"
  by (simp_all add: tunnel_header_def codec nth_append)

definition decoded :: "TunnelFrameType \<Rightarrow> u64 \<Rightarrow> bytes \<Rightarrow> TunnelFrameView \<Rightarrow> TunnelFrameView" where
  "decoded t s payload out = out\<lparr>fv_type := t, fv_stream_id := s, fv_payload := payload\<rparr>"

lemma decode_encode:
  assumes "length payload < 2 ^ 32"
  shows "decode_tunnel_frame (encode_tunnel_frame t s payload) out =
         (if t = Control \<or> s \<noteq> 0 then Some (decoded t s payload out) else None)"
proof -
  have "unat (of_nat (length payload) :: u32) = length payload"
    using assms by (intro unat_of_nat_small) simp
  moreover have "valid_type (frame_code t)" by (auto simp: valid_type_iff)
  ultimately show ?thesis
    by (simp add: encode_layout [OF assms] decode_tunnel_frame_def kTunnelFrameHeaderSize_def
        header_reads Let_def decoded_def sub_bytes_def drop_append [of 20]
        del: drop_append frame_code.simps)
qed

lemma decode_imp_encode:
  assumes dec: "decode_tunnel_frame p out = Some v"
  shows "p = encode_tunnel_frame (fv_type v) (fv_stream_id v) (fv_payload v)"
    and "length (fv_payload v) < 2 ^ 32"
    and "fv_type v = Control \<or> fv_stream_id v \<noteq> 0"
    and "v = decoded (fv_type v) (fv_stream_id v) (fv_payload v) out"
proof -
  have len: "20 \<le> length p" and magic: "load_u32 p = tunnel_kMagic" and ver: "p ! 4 = tunnel_kVersion"
    and ty: "valid_type (p ! 5)" and fl: "load_u16 (drop 6 p) = 0"
    and pl: "length p - 20 = unat (load_u32 (drop 16 p))"
    and v: "v = decoded (frame_of_code (p ! 5)) (load_u64 (drop 8 p)) (drop 20 p) out"
    and ok: "frame_of_code (p ! 5) = Control \<or> load_u64 (drop 8 p) \<noteq> 0"
    using dec
    by (auto simp: decode_tunnel_frame_def kTunnelFrameHeaderSize_def Let_def decoded_def
        sub_bytes_def split: if_splits)
  have short: "length (drop 20 p) < 2 ^ 32"
    using pl unsigned_less [of "load_u32 (drop 16 p)", where 'a = nat] by simp
  have "load_u32 (drop 16 p) = of_nat (length (drop 20 p))" using pl by simp
  then have "p = tunnel_header (frame_of_code (p ! 5)) (load_u64 (drop 8 p))
      (of_nat (length (drop 20 p))) @ drop 20 p"
    using packet_fields [OF len] magic ver fl frame_code_of_code [OF ty] by (simp add: tunnel_header_def)
  then show "p = encode_tunnel_frame (fv_type v) (fv_stream_id v) (fv_payload v)"
    using short by (simp add: v decoded_def encode_layout)
  show "length (fv_payload v) < 2 ^ 32" using short by (simp add: v decoded_def)
  show "fv_type v = Control \<or> fv_stream_id v \<noteq> 0" using ok by (simp add: v decoded_def)
  show "v = decoded (fv_type v) (fv_stream_id v) (fv_payload v) out" by (simp add: v decoded_def)
qed


section \<open>Properties\<close>

text \<open>
  Decoding what \<open>encode_tunnel_frame\<close> produced gives back the type, the stream identifier
  and the payload, and leaves the rest of the output view alone; it fails exactly for a payload
  whose size has no 32-bit representation and for a frame other than \<open>Control\<close> on stream 0.
\<close>

theorem tunnel_frame_round_trip:
  "decode_tunnel_frame (encode_tunnel_frame type stream_id payload) out =
     (if length payload < 2 ^ 32 \<and> (type = Control \<or> 0 < stream_id)
      then Some (out\<lparr>fv_type := type, fv_stream_id := stream_id, fv_payload := payload\<rparr>)
      else None)"
proof (cases "length payload < 2 ^ 32")
  case False
  then show ?thesis
    by (simp add: encode_too_long decode_tunnel_frame_def kTunnelFrameHeaderSize_def)
qed (auto simp: decode_encode decoded_def word_gt_0)

text \<open>
  C6: The frame format is canonical: a packet decodes to a view exactly when it is, byte for
  byte, the encoding of that view, so no two packets carry the same frame and trailing,
  missing or altered header bytes are always rejected.
\<close>

theorem tunnel_frame_canonical:
  "decode_tunnel_frame packet out = Some v \<longleftrightarrow>
     packet = encode_tunnel_frame (fv_type v) (fv_stream_id v) (fv_payload v) \<and>
     length (fv_payload v) < 2 ^ 32 \<and> (fv_type v = Control \<or> 0 < fv_stream_id v) \<and>
     fv_broadcast v = fv_broadcast out"
proof
  assume dec: "decode_tunnel_frame packet out = Some v"
  have "fv_broadcast v = fv_broadcast out"
    using arg_cong [OF decode_imp_encode(4) [OF dec], of fv_broadcast] by (simp add: decoded_def)
  then show "packet = encode_tunnel_frame (fv_type v) (fv_stream_id v) (fv_payload v) \<and>
     length (fv_payload v) < 2 ^ 32 \<and> (fv_type v = Control \<or> 0 < fv_stream_id v) \<and>
     fv_broadcast v = fv_broadcast out"
    using decode_imp_encode [OF dec] by (simp add: word_gt_0)
qed (auto simp: decode_encode decoded_def word_gt_0)

end
