(* ===== verification/EdgeFrame.thy ===== *)
theory EdgeFrame
  imports NodeId
begin

text \<open>
  The frame edge devices send over TCP (\<open>iota_proxy/src/frame/EdgeDataFrame.cpp\<close>): six bytes
  of MAC address, an 8-byte time stamp, a 4-byte payload length and the payload.
\<close>

definition kEdgeMacSize :: nat where "kEdgeMacSize = 6"

definition kEdgeTimestampSize :: nat where "kEdgeTimestampSize = 8"

definition kEdgePayloadLengthSize :: nat where "kEdgePayloadLengthSize = 4"

definition kEdgeDataFrameHeaderSize :: nat where
  "kEdgeDataFrameHeaderSize = kEdgeMacSize + kEdgeTimestampSize + kEdgePayloadLengthSize"

type_synonym edge_mac = "6 barr"

record EdgeDataFrameView =
  ef_mac :: edge_mac
  ef_timestamp_ms :: u64
  ef_payload :: bytes

definition edge_data_frame_payload_size :: "bytes \<Rightarrow> u32 option" where
  "edge_data_frame_payload_size header =
     (if length header < kEdgeDataFrameHeaderSize then None
      else Some (load_u32 (drop (kEdgeMacSize + kEdgeTimestampSize) header)))"

definition decode_edge_data_frame :: "bytes \<Rightarrow> EdgeDataFrameView option" where
  "decode_edge_data_frame frame =
     (if length frame < kEdgeDataFrameHeaderSize then None
      else case edge_data_frame_payload_size frame of
             None \<Rightarrow> None
           | Some payload_size \<Rightarrow>
               if length frame - kEdgeDataFrameHeaderSize \<noteq> unat payload_size then None
               else Some \<lparr>ef_mac = arr_of (take kEdgeMacSize frame),
                          ef_timestamp_ms = load_u64 (drop kEdgeMacSize frame),
                          ef_payload = sub_bytes kEdgeDataFrameHeaderSize (unat payload_size) frame\<rparr>)"

definition edge_mac_to_hex :: "edge_mac \<Rightarrow> string" where
  "edge_mac_to_hex mac = concat (map hex_byte (arr_bytes mac))"

lemmas edge_sizes =
  kEdgeMacSize_def kEdgeTimestampSize_def kEdgePayloadLengthSize_def kEdgeDataFrameHeaderSize_def

lemma header_size_18 [simp]: "kEdgeDataFrameHeaderSize = 18"
  by (simp add: edge_sizes)

section \<open>The wire image of an edge frame\<close>

text \<open>What a device sends for a view, as the format is documented: header, then payload.\<close>

definition edge_wire :: "EdgeDataFrameView \<Rightarrow> bytes" where
  "edge_wire v = arr_bytes (ef_mac v) @ store_u64 (ef_timestamp_ms v) @
                 store_u32 (of_nat (length (ef_payload v))) @ ef_payload v"

lemma length_edge_wire [simp]: "length (edge_wire v) = 18 + length (ef_payload v)"
  by (simp add: edge_wire_def)

lemma payload_size_wire:
  assumes "length (ef_payload v) < 2 ^ 32"
  shows "edge_data_frame_payload_size (edge_wire v @ rest) = Some (of_nat (length (ef_payload v)))"
  by (simp add: edge_data_frame_payload_size_def edge_wire_def edge_sizes codec)

lemma decode_edge_wire:
  assumes "length (ef_payload v) < 2 ^ 32"
  shows "decode_edge_data_frame (edge_wire v) = Some v"
proof -
  have "unat (of_nat (length (ef_payload v)) :: u32) = length (ef_payload v)"
    using assms by (intro unat_of_nat_small) simp
  then show ?thesis
    using payload_size_wire [OF assms, of "[]"]
    by (simp add: decode_edge_data_frame_def)
      (simp add: edge_wire_def edge_sizes codec sub_bytes_def)
qed

lemma decode_edge_imp_wire:
  assumes "decode_edge_data_frame frame = Some v"
  shows "frame = edge_wire v" and "length (ef_payload v) < 2 ^ 32"
proof -
  let ?l = "load_u32 (drop 14 frame)"
  have len: "18 \<le> length frame" and pl: "length frame - 18 = unat ?l"
    and v: "v = \<lparr>ef_mac = arr_of (take 6 frame), ef_timestamp_ms = load_u64 (drop 6 frame),
                 ef_payload = drop 18 frame\<rparr>"
    using assms
    by (auto simp: decode_edge_data_frame_def edge_data_frame_payload_size_def edge_sizes
        sub_bytes_def split: if_splits)
  have "frame = take 6 frame @ drop 6 frame" by simp
  also have "drop 6 frame = store_u64 (load_u64 (drop 6 frame)) @ drop 14 frame"
    using len u64.drop_field [of 6 frame] by simp
  also have "drop 14 frame = store_u32 ?l @ drop 18 frame"
    using len u32.drop_field [of 14 frame] by simp
  also have "?l = of_nat (length (drop 18 frame))" using pl by simp
  finally show "frame = edge_wire v"
    using len by (simp add: edge_wire_def v)
  show "length (ef_payload v) < 2 ^ 32"
    using pl unsigned_less [of ?l, where 'a = nat] by (simp add: v)
qed

section \<open>Properties\<close>

text \<open>
  C13: \<open>decode_edge_data_frame\<close> accepts exactly the wire images of frames: MAC address, time
  stamp and payload are read back unchanged, and a buffer with missing or surplus bytes, or a
  length field that does not match, is refused.
\<close>

theorem edge_frame_decode_iff:
  "decode_edge_data_frame frame = Some v \<longleftrightarrow>
     frame = arr_bytes (ef_mac v) @ store_u64 (ef_timestamp_ms v) @
             store_u32 (of_nat (length (ef_payload v))) @ ef_payload v \<and>
     length (ef_payload v) < 2 ^ 32"
  using decode_edge_imp_wire decode_edge_wire unfolding edge_wire_def by metis

end
