(* ===== verification/RouteTypes.thy ===== *)
theory RouteTypes
  imports NodeId
begin

text \<open>
  The data of \<open>iota_proxy/include/iota_proxy/discovery/RouteManager.hpp\<close> shared by the route
  table, admission control and discovery. A \<open>size_t\<close> that is only stored and compared is a
  natural number; counters that are incremented keep their width; time stamps are \<open>int\<close>.
\<close>

datatype RouteState = New | Tried | Bad

record NodeCapability =
  cap_present :: bool
  cap_accepting_ingress :: bool
  cap_max_kcp_links :: nat
  cap_current_kcp_links :: nat
  cap_max_ingress_streams :: nat
  cap_current_ingress_streams :: nat
  cap_max_ingress_bytes_per_second :: u64
  cap_current_ingress_bytes_per_second :: u64
  cap_updated_at_ms :: int

definition NodeCapability_init :: NodeCapability where
  "NodeCapability_init =
     \<lparr>cap_present = False, cap_accepting_ingress = True, cap_max_kcp_links = 0,
      cap_current_kcp_links = 0, cap_max_ingress_streams = 0, cap_current_ingress_streams = 0,
      cap_max_ingress_bytes_per_second = 0, cap_current_ingress_bytes_per_second = 0,
      cap_updated_at_ms = 0\<rparr>"

definition NodeAddress_init :: NodeAddress where
  "NodeAddress_init = \<lparr>node_endpoint = \<lparr>ep_host = [], ep_port = 0\<rparr>, node_id = conv_zero\<rparr>"

record RouteEntry =
  re_node :: NodeAddress
  re_source :: NodeAddress
  re_capability :: NodeCapability
  re_state :: RouteState
  re_has_source :: bool
  re_kcp_connected :: bool
  re_attempts :: u32
  re_failures :: u32
  re_hop_count :: u8
  re_last_seen_ms :: int
  re_last_try_ms :: int
  re_last_success_ms :: int

definition RouteEntry_init :: RouteEntry where
  "RouteEntry_init =
     \<lparr>re_node = NodeAddress_init, re_source = NodeAddress_init,
      re_capability = NodeCapability_init, re_state = New, re_has_source = False,
      re_kcp_connected = False, re_attempts = 0, re_failures = 0, re_hop_count = 0,
      re_last_seen_ms = 0, re_last_try_ms = 0, re_last_success_ms = 0\<rparr>"

record RouteNextHop =
  nh_target :: NodeAddress
  nh_next_hop :: NodeAddress
  nh_direct :: bool
  nh_hop_count :: u8

record RouteManagerConfig =
  max_routes :: nat
  max_kcp_links :: nat
  max_response_routes :: nat
  max_response_percent :: u8
  retry_backoff_seconds :: u32
  stale_after_seconds :: u32
  give_up_attempts :: u32
  bad_failure_threshold :: u32
  max_route_hops :: u8
  capability_stale_after_seconds :: u32

definition RouteManagerConfig_default :: RouteManagerConfig where
  "RouteManagerConfig_default =
     \<lparr>max_routes = 4096, max_kcp_links = 512, max_response_routes = 2500,
      max_response_percent = 23, retry_backoff_seconds = 60,
      stale_after_seconds = 30 * 24 * 60 * 60, give_up_attempts = 3,
      bad_failure_threshold = 10, max_route_hops = 8, capability_stale_after_seconds = 120\<rparr>"

end
