(* ===== verification/Floats.thy ===== *)
theory Floats
  imports Prelude
begin

text \<open>
  Double precision arithmetic. Every operation on \<open>double\<close> in the sources is the exact real
  operation followed by \<open>rnd64\<close>, rounding to nearest, ties to even, with 53 bits of
  precision and gradual underflow. The quantities of the program (byte rates, scores) stay
  far below the largest finite double, so rounding to infinity is not represented.
\<close>

section \<open>Rounding to an integer, ties to even\<close>

definition round_even :: "real \<Rightarrow> int" where
  "round_even y =
     (let f = \<lfloor>y\<rfloor>; d = y - of_int f in
      if d < 1 / 2 then f else if 1 / 2 < d then f + 1 else if even f then f else f + 1)"

lemma round_even_of_int [simp]: "round_even (of_int k) = k"
  by (simp add: round_even_def)

lemma round_even_err: "\<bar>of_int (round_even y) - y\<bar> \<le> 1 / 2"
proof -
  have "of_int \<lfloor>y\<rfloor> \<le> y" "y < of_int \<lfloor>y\<rfloor> + 1"
    by (rule of_int_floor_le, rule real_of_int_floor_add_one_gt)
  then show ?thesis by (auto simp: round_even_def Let_def abs_le_iff)
qed

lemma round_even_floor: "\<lfloor>y\<rfloor> \<le> round_even y \<and> round_even y \<le> \<lfloor>y\<rfloor> + 1"
  by (simp add: round_even_def Let_def)

lemma round_even_mono:
  assumes "x \<le> y"
  shows "round_even x \<le> round_even y"
proof (cases "\<lfloor>x\<rfloor> = \<lfloor>y\<rfloor>")
  case True
  then show ?thesis using assms by (auto simp: round_even_def Let_def)
next
  case False
  then have "\<lfloor>x\<rfloor> + 1 \<le> \<lfloor>y\<rfloor>" using floor_mono [OF assms] by simp
  then show ?thesis using round_even_floor [of x] round_even_floor [of y] by simp
qed

lemma round_even_minus: "round_even (- y) = - round_even y"
proof (cases "y = of_int \<lfloor>y\<rfloor>")
  case True
  then show ?thesis by (metis of_int_minus round_even_of_int)
next
  case False
  define f where "f = \<lfloor>y\<rfloor>"
  have f: "of_int f < y" "y < of_int f + 1"
    using False of_int_floor_le [of y] real_of_int_floor_add_one_gt [of y] by (auto simp: f_def less_le)
  then have "\<lfloor>- y\<rfloor> = - f - 1" by (intro floor_unique) auto
  then show ?thesis using f f_def by (auto simp: round_even_def Let_def)
qed

section \<open>Rounding to a double\<close>

text \<open>The exponent of the last place of the binade of \<open>x\<close>.\<close>

definition ulp_exp :: "real \<Rightarrow> int" where
  "ulp_exp x = max (\<lfloor>log 2 \<bar>x\<bar>\<rfloor> - 52) (- 1074)"

definition ulp :: "real \<Rightarrow> real" where
  "ulp x = 2 powr of_int (ulp_exp x)"

definition rnd64 :: "real \<Rightarrow> real" where
  "rnd64 x = (if x = 0 then 0 else of_int (round_even (x / ulp x)) * ulp x)"

lemma ulp_pos [simp]: "0 < ulp x"
  by (simp add: ulp_def)

lemma ulp_nonzero [simp]: "ulp x \<noteq> 0"
  using ulp_pos [of x] by linarith

lemma ulp_minus [simp]: "ulp (- x) = ulp x"
  by (simp add: ulp_def ulp_exp_def)

lemma rnd64_0 [simp]: "rnd64 0 = 0"
  by (simp add: rnd64_def)

lemma rnd64_minus: "rnd64 (- x) = - rnd64 x"
  by (simp add: rnd64_def round_even_minus)

lemma rnd64_grid:
  assumes "x = of_int k * ulp x"
  shows "rnd64 x = x"
proof -
  have "x / ulp x = of_int k" using assms ulp_pos [of x] by (metis less_irrefl nonzero_eq_divide_eq)
  then show ?thesis using assms by (simp add: rnd64_def)
qed

lemma rnd64_le_grid:
  assumes "x \<le> of_int k * ulp x"
  shows "rnd64 x \<le> of_int k * ulp x"
proof -
  have "x / ulp x \<le> of_int k" using assms by (simp add: divide_le_eq)
  then have "round_even (x / ulp x) \<le> k"
    using round_even_mono [of "x / ulp x" "of_int k"] by simp
  then show ?thesis using assms by (auto simp: rnd64_def)
qed

lemma rnd64_ge_grid:
  assumes "of_int k * ulp x \<le> x"
  shows "of_int k * ulp x \<le> rnd64 x"
proof -
  have "of_int k \<le> x / ulp x" using assms by (simp add: le_divide_eq)
  then have "k \<le> round_even (x / ulp x)"
    using round_even_mono [of "of_int k" "x / ulp x"] by simp
  then show ?thesis using assms by (auto simp: rnd64_def)
qed

lemma rnd64_nonneg: "0 \<le> x \<Longrightarrow> 0 \<le> rnd64 x"
  using rnd64_ge_grid [of 0 x] by simp

lemma rnd64_nonpos: "x \<le> 0 \<Longrightarrow> rnd64 x \<le> 0"
  using rnd64_le_grid [of x 0] by simp

lemma rnd64_abs: "rnd64 \<bar>x\<bar> = \<bar>rnd64 x\<bar>"
  using rnd64_nonneg [of x] rnd64_nonpos [of x] by (cases "0 \<le> x") (simp_all add: rnd64_minus)


section \<open>Binades\<close>

lemma binade:
  assumes "x \<noteq> 0"
  shows "2 powr of_int \<lfloor>log 2 \<bar>x\<bar>\<rfloor> \<le> \<bar>x\<bar>" and "\<bar>x\<bar> < 2 powr (of_int \<lfloor>log 2 \<bar>x\<bar>\<rfloor> + 1)"
proof -
  have x: "2 powr (log 2 \<bar>x\<bar>) = \<bar>x\<bar>" using assms by simp
  show "2 powr of_int \<lfloor>log 2 \<bar>x\<bar>\<rfloor> \<le> \<bar>x\<bar>"
    using powr_mono [of "of_int \<lfloor>log 2 \<bar>x\<bar>\<rfloor>" "log 2 \<bar>x\<bar>" 2] x by simp
  show "\<bar>x\<bar> < 2 powr (of_int \<lfloor>log 2 \<bar>x\<bar>\<rfloor> + 1)"
    using powr_less_mono [of "log 2 \<bar>x\<bar>" "of_int \<lfloor>log 2 \<bar>x\<bar>\<rfloor> + 1" 2] x by simp
qed

lemma ulp_exp_le:
  assumes "x \<noteq> 0" and "\<bar>x\<bar> < 2 powr (of_int j + 53)" and "- 1074 \<le> j"
  shows "ulp_exp x \<le> j"
proof -
  have "log 2 \<bar>x\<bar> < of_int j + 53"
    using assms(1,2) by (simp add: log_less_iff)
  then have "\<lfloor>log 2 \<bar>x\<bar>\<rfloor> < j + 53" by (simp add: floor_less_iff)
  then show ?thesis using assms(3) by (simp add: ulp_exp_def)
qed

lemma powr_grid:
  assumes "ulp_exp x \<le> j"
  shows "2 powr of_int j = of_int (2 ^ nat (j - ulp_exp x)) * ulp x"
proof -
  have "2 powr of_int j = 2 powr of_int (j - ulp_exp x) * (2 :: real) powr of_int (ulp_exp x)"
    by (simp flip: powr_add)
  moreover have "2 powr of_int (j - ulp_exp x) = (2 :: real) ^ nat (j - ulp_exp x)"
    using assms by (simp add: powr_real_of_int del: of_int_diff)
  ultimately show ?thesis by (simp add: ulp_def)
qed

lemma rnd64_mono_pos:
  assumes "0 < x" and "x \<le> y"
  shows "rnd64 x \<le> rnd64 y"
proof (cases "ulp_exp x = ulp_exp y")
  case True
  then have "ulp x = ulp y" by (simp add: ulp_def)
  moreover have "x / ulp y \<le> y / ulp y" using assms(2) less_imp_le [OF ulp_pos] by (rule divide_right_mono)
  ultimately show ?thesis using assms round_even_mono by (simp add: rnd64_def)
next
  case False
  define e where "e = ulp_exp y"
  have "log 2 \<bar>x\<bar> \<le> log 2 \<bar>y\<bar>" using assms by simp
  then have "\<lfloor>log 2 \<bar>x\<bar>\<rfloor> \<le> \<lfloor>log 2 \<bar>y\<bar>\<rfloor>" by (rule floor_mono)
  then have lt: "ulp_exp x < e" using False by (auto simp: ulp_exp_def e_def)
  then have e: "e = \<lfloor>log 2 \<bar>y\<bar>\<rfloor> - 52" and fx: "\<lfloor>log 2 \<bar>x\<bar>\<rfloor> + 1 \<le> e + 52"
    by (auto simp: ulp_exp_def e_def split: if_splits)
  let ?z = "2 powr of_int (e + 52) :: real"
  have "?z \<le> y" using binade(1) [of y] assms e by simp
  moreover have "?z = of_int (2 ^ nat (e + 52 - ulp_exp y)) * ulp y"
    by (rule powr_grid) (simp add: e_def)
  ultimately have "?z \<le> rnd64 y" using rnd64_ge_grid by metis
  moreover have "x \<le> ?z"
  proof -
    have "2 powr (of_int \<lfloor>log 2 \<bar>x\<bar>\<rfloor> + 1) \<le> ?z"
      using fx by (intro powr_mono) linarith+
    then have "\<bar>x\<bar> \<le> ?z" using binade(2) [of x] assms(1) by linarith
    then show ?thesis by linarith
  qed
  moreover have "?z = of_int (2 ^ nat (e + 52 - ulp_exp x)) * ulp x"
    by (rule powr_grid) (use lt in simp)
  ultimately show ?thesis using rnd64_le_grid by (metis order_trans)
qed

lemma rnd64_mono:
  assumes "x \<le> y"
  shows "rnd64 x \<le> rnd64 y"
proof (cases "0 < x")
  case True
  then show ?thesis using assms by (rule rnd64_mono_pos)
next
  case x: False
  show ?thesis
  proof (cases "0 \<le> y")
    case True
    then show ?thesis using x rnd64_nonneg [of y] rnd64_nonpos [of x] by simp
  next
    case False
    then show ?thesis using rnd64_mono_pos [of "- y" "- x"] assms by (simp add: rnd64_minus)
  qed
qed

lemma rnd64_representable:
  assumes x: "x = of_int m * 2 powr of_int j" and m: "\<bar>m\<bar> < 2 ^ 53" and j: "- 1074 \<le> j"
  shows "rnd64 x = x"
proof (cases "x = 0")
  case False
  have "\<bar>of_int m\<bar> < (2 :: real) powr 53" using m by (simp add: powr_numeral)
  then have "\<bar>x\<bar> < 2 powr (of_int j + 53)"
    by (simp add: x abs_mult powr_add)
  from ulp_exp_le [OF False this j] have "2 powr of_int j = of_int (2 ^ nat (j - ulp_exp x)) * ulp x"
    by (rule powr_grid)
  then have "x = of_int (m * 2 ^ nat (j - ulp_exp x)) * ulp x" using x by simp
  then show ?thesis by (rule rnd64_grid)
qed simp

lemma rnd64_of_int: "\<bar>k\<bar> < 2 ^ 53 \<Longrightarrow> rnd64 (of_int k) = of_int k"
  using rnd64_representable [of "of_int k" k 0] by simp

lemma rnd64_of_nat: "n < 2 ^ 53 \<Longrightarrow> rnd64 (of_nat n) = of_nat n"
  using rnd64_of_int [of "int n"] by simp


section \<open>The rounding error\<close>

lemma rnd64_err_ulp: "\<bar>rnd64 x - x\<bar> \<le> ulp x / 2"
proof (cases "x = 0")
  case False
  have "rnd64 x - x = (of_int (round_even (x / ulp x)) - x / ulp x) * ulp x"
    using False ulp_pos [of x] by (simp add: rnd64_def left_diff_distrib)
  then have "\<bar>rnd64 x - x\<bar> = \<bar>of_int (round_even (x / ulp x)) - x / ulp x\<bar> * ulp x"
    using ulp_pos [of x] by (simp add: abs_mult abs_of_pos)
  then show ?thesis
    using mult_right_mono [OF round_even_err [of "x / ulp x"], of "ulp x"] ulp_pos [of x] by simp
qed (simp add: less_imp_le)

definition rnd_eps :: real where
  "rnd_eps = 1 / 2 ^ 53"

lemma rnd_eps_pos [simp]: "0 < rnd_eps" "0 \<le> rnd_eps" "rnd_eps \<le> 1"
  by (simp_all add: rnd_eps_def)

text \<open>The relative error is \<open>2\<^sup>-\<^sup>5\<^sup>3\<close>, down to the smallest normal number.\<close>

lemma rnd64_err: "\<bar>rnd64 x - x\<bar> \<le> rnd_eps * max \<bar>x\<bar> (2 powr - 1022)"
proof (cases "x = 0")
  case False
  have "ulp x \<le> 2 powr - 52 * max \<bar>x\<bar> (2 powr - 1022)"
  proof (cases "ulp_exp x = - 1074")
    case True
    have "ulp x = 2 powr - 52 * 2 powr - 1022" by (simp add: ulp_def True flip: powr_add)
    then show ?thesis by (simp add: mult_left_mono)
  next
    case e: False
    then have "ulp_exp x = \<lfloor>log 2 \<bar>x\<bar>\<rfloor> - 52" by (auto simp: ulp_exp_def split: if_splits)
    then have "ulp x = 2 powr - 52 * 2 powr of_int \<lfloor>log 2 \<bar>x\<bar>\<rfloor>"
      by (simp add: ulp_def flip: powr_add)
    also have "\<dots> \<le> 2 powr - 52 * max \<bar>x\<bar> (2 powr - 1022)"
      using binade(1) [OF False] by (intro mult_left_mono) auto
    finally show ?thesis .
  qed
  moreover have "(2 :: real) powr - 52 = 2 * rnd_eps"
    by (simp add: rnd_eps_def powr_minus_divide powr_numeral)
  ultimately have "ulp x / 2 \<le> rnd_eps * max \<bar>x\<bar> (2 powr - 1022)" by simp
  then show ?thesis using rnd64_err_ulp [of x] by linarith
qed simp

lemma rnd64_ge_1: "1 \<le> x \<Longrightarrow> 1 \<le> rnd64 x"
  using rnd64_mono [of 1 x] rnd64_of_nat [of 1] by simp

text \<open>A rounded value is not changed by rounding again.\<close>

lemma rnd64_mantissa: "x \<noteq> 0 \<Longrightarrow> \<bar>round_even (x / ulp x)\<bar> \<le> 2 ^ 53"
proof -
  assume x: "x \<noteq> 0"
  have "\<bar>x\<bar> < 2 powr (of_int \<lfloor>log 2 \<bar>x\<bar>\<rfloor> + 1)" by (rule binade(2) [OF x])
  also have "\<dots> \<le> 2 powr (53 + of_int (ulp_exp x))"
    by (intro powr_mono) (simp_all add: ulp_exp_def)
  also have "\<dots> = 2 ^ 53 * ulp x" by (simp add: ulp_def powr_add powr_numeral)
  finally have "\<bar>x / ulp x\<bar> \<le> 2 ^ 53" by (simp add: divide_le_eq)
  then have "- (2 ^ 53) \<le> x / ulp x" "x / ulp x \<le> 2 ^ 53" by linarith+
  then have "round_even (- of_int (2 ^ 53)) \<le> round_even (x / ulp x)"
    "round_even (x / ulp x) \<le> round_even (of_int (2 ^ 53))"
    by (simp_all add: round_even_mono)
  then show ?thesis unfolding round_even_minus round_even_of_int by linarith
qed

lemma rnd64_idem [simp]: "rnd64 (rnd64 x) = rnd64 x"
proof (cases "x = 0")
  case False
  let ?m = "round_even (x / ulp x)"
  have x: "rnd64 x = of_int ?m * 2 powr of_int (ulp_exp x)"
    using False by (simp add: rnd64_def ulp_def)
  have e: "- 1074 \<le> ulp_exp x" by (simp add: ulp_exp_def)
  have "\<bar>?m\<bar> < 2 ^ 53 \<or> ?m = 2 * 2 ^ 52 \<or> ?m = - 2 * 2 ^ 52"
    using rnd64_mantissa [OF False] by (simp add: abs_le_iff abs_less_iff) linarith
  then show ?thesis
  proof (elim disjE)
    assume "\<bar>?m\<bar> < 2 ^ 53"
    then show ?thesis using rnd64_representable [OF x _ e] by simp
  next
    assume m: "?m = 2 * 2 ^ 52"
    have "rnd64 x = of_int (2 ^ 52) * 2 powr of_int (ulp_exp x + 1)"
      using x by (simp add: m powr_add)
    from rnd64_representable [OF this] e show ?thesis by simp
  next
    assume m: "?m = - 2 * 2 ^ 52"
    have "rnd64 x = of_int (- (2 ^ 52)) * 2 powr of_int (ulp_exp x + 1)"
      using x by (simp add: m powr_add)
    from rnd64_representable [OF this] e show ?thesis by simp
  qed
qed simp

section \<open>The interface the token bucket relies on\<close>

locale rounding =
  fixes rnd :: "real \<Rightarrow> real"
  assumes mono: "x \<le> y \<Longrightarrow> rnd x \<le> rnd y"
    and zero [simp]: "rnd 0 = 0"
    and idem [simp]: "rnd (rnd x) = rnd x"
    and err: "\<bar>rnd x - x\<bar> \<le> rnd_eps * max \<bar>x\<bar> (2 powr - 1022)"
begin

lemma nonneg: "0 \<le> x \<Longrightarrow> 0 \<le> rnd x"
  using mono [of 0 x] by simp

lemma le_rounded: "x \<le> rnd z \<Longrightarrow> rnd x \<le> rnd z"
  using mono [of x "rnd z"] by simp

lemma err_le:
  assumes "2 powr - 1022 \<le> c" "\<bar>x\<bar> \<le> c"
  shows "\<bar>rnd x - x\<bar> \<le> rnd_eps * c"
proof -
  have "rnd_eps * max \<bar>x\<bar> (2 powr - 1022) \<le> rnd_eps * c"
    using assms by (intro mult_left_mono) simp_all
  then show ?thesis using err [of x] by linarith
qed

lemma rel:
  assumes "2 powr - 1022 \<le> x"
  shows "rnd x \<le> (1 + rnd_eps) * x" and "(1 - rnd_eps) * x \<le> rnd x"
proof -
  have "0 < x" using assms powr_gt_zero [of 2 "- 1022"] by linarith
  then have "\<bar>rnd x - x\<bar> \<le> rnd_eps * x" using err_le [OF assms] by simp
  then show "rnd x \<le> (1 + rnd_eps) * x" "(1 - rnd_eps) * x \<le> rnd x"
    by (simp_all add: distrib_right left_diff_distrib abs_le_iff)
qed

text \<open>Adding to a bucket of capacity \<open>rnd z\<close> gains at most the amount and one rounding error.\<close>

lemma refill_le:
  assumes "0 \<le> t" "0 \<le> r" "2 powr - 1022 \<le> rnd z"
  shows "min (rnd z) (rnd (t + r)) \<le> t + r + rnd_eps * rnd z"
proof (cases "t + r \<le> rnd z")
  case True
  then show ?thesis using err_le [OF assms(3), of "t + r"] assms by auto
next
  case False
  then have "min (rnd z) (rnd (t + r)) \<le> t + r" by simp
  also have "0 \<le> rnd z" using assms(3) powr_gt_zero [of 2 "- 1022"] by linarith
  then have "t + r \<le> t + r + rnd_eps * rnd z" by simp
  finally show ?thesis .
qed

end

interpretation ieee: rounding rnd64
  by unfold_locales (simp_all add: rnd64_mono rnd64_err)

end
