(* ===== verification/Admission.thy ===== *)
theory Admission
  imports RouteTypes Floats
begin

text \<open>
  Admission control (\<open>iota_proxy/src/admission/AdmissionControl.cpp\<close>): the set of open
  ingress streams, bounded in size, and a token bucket for ingress bytes. The steady and the
  wall clock are arguments. Each operation runs under the object's mutex and is one step.
\<close>

section \<open>State and operations\<close>

record AdmissionControlConfig =
  max_ingress_streams :: nat
  max_ingress_bytes_per_second :: u64
  acc_max_kcp_links :: nat

record AdmissionControl =
  ac_config :: AdmissionControlConfig
  ingress_streams :: "u64 set"
  ingress_byte_tokens :: real
  token_refill_ms :: int
  current_second :: u64
  current_second_bytes :: u64
  last_complete_second_bytes :: u64

definition steady_second :: "int \<Rightarrow> u64" where
  "steady_second ms = (if ms \<le> 0 then 0 else of_int (ms div 1000))"

definition AdmissionControl_init :: "AdmissionControlConfig \<Rightarrow> int \<Rightarrow> AdmissionControl" where
  "AdmissionControl_init config now =
     \<lparr>ac_config = config, ingress_streams = {},
      ingress_byte_tokens = rnd64 (real (unat (max_ingress_bytes_per_second config))),
      token_refill_ms = now, current_second = steady_second now,
      current_second_bytes = 0, last_complete_second_bytes = 0\<rparr>"

definition try_accept_ingress_stream :: "u64 \<Rightarrow> AdmissionControl \<Rightarrow> bool \<times> AdmissionControl" where
  "try_accept_ingress_stream stream_id s =
     (if stream_id = 0 then (False, s)
      else if stream_id \<in> ingress_streams s then (True, s)
      else if max_ingress_streams (ac_config s) \<noteq> 0 \<and>
              card (ingress_streams s) \<ge> max_ingress_streams (ac_config s) then (False, s)
      else (True, s\<lparr>ingress_streams := insert stream_id (ingress_streams s)\<rparr>))"

definition release_ingress_stream :: "u64 \<Rightarrow> AdmissionControl \<Rightarrow> AdmissionControl" where
  "release_ingress_stream stream_id s =
     (if stream_id = 0 then s else s\<lparr>ingress_streams := ingress_streams s - {stream_id}\<rparr>)"

definition refill_tokens_locked :: "int \<Rightarrow> AdmissionControl \<Rightarrow> AdmissionControl" where
  "refill_tokens_locked now_ms s =
     (let second = steady_second now_ms;
          s = (if second \<noteq> current_second s
               then s\<lparr>last_complete_second_bytes := current_second_bytes s,
                      current_second_bytes := 0, current_second := second\<rparr>
               else s)
      in if max_ingress_bytes_per_second (ac_config s) = 0 then s
         else
           let elapsed_ms = max 0 (now_ms - token_refill_ms s)
           in if elapsed_ms = 0 then s
              else
                let capacity = rnd64 (real (unat (max_ingress_bytes_per_second (ac_config s))));
                    refill = rnd64 (rnd64 (capacity * rnd64 (real_of_int elapsed_ms)) / 1000)
                in s\<lparr>ingress_byte_tokens := min capacity (rnd64 (ingress_byte_tokens s + refill)),
                     token_refill_ms := now_ms\<rparr>)"

definition try_accept_ingress_bytes ::
  "int \<Rightarrow> u64 \<Rightarrow> AdmissionControl \<Rightarrow> bool \<times> AdmissionControl" where
  "try_accept_ingress_bytes now bytes s =
     (if bytes = 0 \<or> max_ingress_bytes_per_second (ac_config s) = 0 then (True, s)
      else
        let s = refill_tokens_locked now s;
            needed = rnd64 (real (unat bytes))
        in if ingress_byte_tokens s < needed then (False, s)
           else (True, s\<lparr>ingress_byte_tokens := rnd64 (ingress_byte_tokens s - needed),
                         current_second_bytes := current_second_bytes s + bytes\<rparr>))"

definition can_accept_kcp_link :: "nat \<Rightarrow> AdmissionControl \<Rightarrow> bool" where
  "can_accept_kcp_link current_kcp_links s \<longleftrightarrow>
     acc_max_kcp_links (ac_config s) = 0 \<or> current_kcp_links < acc_max_kcp_links (ac_config s)"

definition snapshot_capability ::
  "int \<Rightarrow> int \<Rightarrow> nat \<Rightarrow> AdmissionControl \<Rightarrow> NodeCapability \<times> AdmissionControl" where
  "snapshot_capability now wall_now current_kcp_links s =
     (let s = refill_tokens_locked now s in
      (\<lparr>cap_present = True,
        cap_accepting_ingress =
          (max_ingress_streams (ac_config s) = 0 \<or>
           card (ingress_streams s) < max_ingress_streams (ac_config s)) \<and>
          can_accept_kcp_link current_kcp_links s,
        cap_max_kcp_links = acc_max_kcp_links (ac_config s),
        cap_current_kcp_links = current_kcp_links,
        cap_max_ingress_streams = max_ingress_streams (ac_config s),
        cap_current_ingress_streams = card (ingress_streams s),
        cap_max_ingress_bytes_per_second = max_ingress_bytes_per_second (ac_config s),
        cap_current_ingress_bytes_per_second =
          max (current_second_bytes s) (last_complete_second_bytes s),
        cap_updated_at_ms = wall_now\<rparr>, s))"

section \<open>Runs\<close>

datatype ac_op =
    AcceptStream u64
  | ReleaseStream u64
  | AcceptBytes int u64
  | Snapshot int int nat

text \<open>One call: the bytes it admitted and the state after it.\<close>

primrec ac_exec :: "ac_op \<Rightarrow> AdmissionControl \<Rightarrow> nat \<times> AdmissionControl" where
  "ac_exec (AcceptStream sid) s = (0, snd (try_accept_ingress_stream sid s))"
| "ac_exec (ReleaseStream sid) s = (0, release_ingress_stream sid s)"
| "ac_exec (AcceptBytes now bytes) s =
     (let (ok, s') = try_accept_ingress_bytes now bytes s in (if ok then unat bytes else 0, s'))"
| "ac_exec (Snapshot now wall links) s = (0, snd (snapshot_capability now wall links s))"

primrec ac_run :: "ac_op list \<Rightarrow> AdmissionControl \<Rightarrow> nat \<times> AdmissionControl" where
  "ac_run [] s = (0, s)"
| "ac_run (op # ops) s =
     (let (n, s') = ac_exec op s; (m, s'') = ac_run ops s' in (n + m, s''))"

section \<open>The invariant\<close>

definition ac_capacity :: "AdmissionControl \<Rightarrow> real" where
  "ac_capacity s = rnd64 (real (unat (max_ingress_bytes_per_second (ac_config s))))"

definition ac_inv :: "AdmissionControl \<Rightarrow> bool" where
  "ac_inv s \<longleftrightarrow>
     finite (ingress_streams s) \<and> 0 \<notin> ingress_streams s \<and>
     (max_ingress_streams (ac_config s) = 0 \<or>
      card (ingress_streams s) \<le> max_ingress_streams (ac_config s)) \<and>
     0 \<le> ingress_byte_tokens s \<and> ingress_byte_tokens s \<le> ac_capacity s"


lemma ac_capacity_nonneg: "0 \<le> ac_capacity s"
  by (simp add: ac_capacity_def ieee.nonneg)

lemma ac_capacity_ge_1: "max_ingress_bytes_per_second (ac_config s) \<noteq> 0 \<Longrightarrow> 1 \<le> ac_capacity s"
proof -
  assume "max_ingress_bytes_per_second (ac_config s) \<noteq> 0"
  then have "0 < unat (max_ingress_bytes_per_second (ac_config s))" by (simp add: unat_gt_0)
  then show ?thesis unfolding ac_capacity_def by (intro rnd64_ge_1) linarith
qed

lemma tiny_le: "1 / 1000 \<le> x \<Longrightarrow> 2 powr - 1022 \<le> (x :: real)"
proof -
  have "(2 :: real) powr - 1022 \<le> 2 powr - 10" by (rule powr_mono) simp_all
  also have "\<dots> \<le> 1 / 1000" by (simp add: powr_minus_divide powr_numeral)
  finally show "1 / 1000 \<le> x \<Longrightarrow> ?thesis" by linarith
qed

text \<open>The tokens computed for \<open>elapsed\<close> milliseconds, as \<open>refill_tokens_locked\<close> rounds them.\<close>

definition refill_amount :: "real \<Rightarrow> int \<Rightarrow> real" where
  "refill_amount capacity elapsed = rnd64 (rnd64 (capacity * rnd64 (real_of_int elapsed)) / 1000)"

lemma refill_amount_nonneg: "0 \<le> c \<Longrightarrow> 0 \<le> e \<Longrightarrow> 0 \<le> refill_amount c e"
  by (simp add: refill_amount_def ieee.nonneg)

lemma refill_amount_le:
  assumes c: "1 \<le> c" and e: "1 \<le> e"
  shows "refill_amount c e \<le> (1 + rnd_eps) ^ 3 * (c * real_of_int e / 1000)"
proof -
  let ?k = "1 + rnd_eps" and ?e = "real_of_int e"
  have e1: "1 \<le> ?e" using e by simp
  have re: "1 \<le> rnd64 ?e" "rnd64 ?e \<le> ?k * ?e"
    using rnd64_ge_1 [OF e1] ieee.rel(1) [OF tiny_le, of ?e] e1 by simp_all
  have ce: "1 \<le> c * rnd64 ?e" using mult_mono [OF c re(1)] c by simp
  have m: "rnd64 (c * rnd64 ?e) \<le> ?k * (c * rnd64 ?e)" "1 \<le> rnd64 (c * rnd64 ?e)"
    using rnd64_ge_1 [OF ce] ieee.rel(1) [OF tiny_le, of "c * rnd64 ?e"] ce by simp_all
  have "refill_amount c e \<le> ?k * (rnd64 (c * rnd64 ?e) / 1000)"
    unfolding refill_amount_def using m(2) by (intro ieee.rel(1) tiny_le) simp
  also have "\<dots> \<le> ?k * (?k * (c * rnd64 ?e) / 1000)"
    using m(1) by (intro mult_left_mono divide_right_mono) (simp_all add: add_nonneg_nonneg)
  also have "\<dots> \<le> ?k * (?k * (c * (?k * ?e)) / 1000)"
    using re(2) c by (intro mult_left_mono divide_right_mono) (simp_all add: add_nonneg_nonneg)
  also have "\<dots> = ?k ^ 3 * (c * ?e / 1000)" by (simp add: power3_eq_cube)
  finally show ?thesis .
qed

section \<open>Refilling\<close>

lemma refill_frame [simp]:
  "ac_config (refill_tokens_locked now s) = ac_config s"
  "ingress_streams (refill_tokens_locked now s) = ingress_streams s"
  "ac_capacity (refill_tokens_locked now s) = ac_capacity s"
  by (simp_all add: refill_tokens_locked_def Let_def ac_capacity_def)

lemma refill_ms:
  "token_refill_ms (refill_tokens_locked now s) =
     (if max_ingress_bytes_per_second (ac_config s) = 0 then token_refill_ms s
      else max (token_refill_ms s) now)"
  by (auto simp: refill_tokens_locked_def Let_def)

lemma refill_tokens:
  "ingress_byte_tokens (refill_tokens_locked now s) =
     (if max_ingress_bytes_per_second (ac_config s) = 0 \<or> now \<le> token_refill_ms s
      then ingress_byte_tokens s
      else min (ac_capacity s)
             (rnd64 (ingress_byte_tokens s + refill_amount (ac_capacity s) (now - token_refill_ms s))))"
  by (auto simp: refill_tokens_locked_def Let_def ac_capacity_def refill_amount_def)

lemma refill_inv: "ac_inv s \<Longrightarrow> ac_inv (refill_tokens_locked now s)"
  by (auto simp: ac_inv_def refill_tokens ac_capacity_nonneg refill_amount_nonneg
      intro!: ieee.nonneg add_nonneg_nonneg)

text \<open>The tokens per millisecond a full bucket gains, with the rounding of three operations.\<close>

definition ac_rate :: "AdmissionControl \<Rightarrow> real" where
  "ac_rate s = (1 + rnd_eps) ^ 3 * (ac_capacity s / 1000)"

lemma refill_gain:
  assumes inv: "ac_inv s" and on: "max_ingress_bytes_per_second (ac_config s) \<noteq> 0"
  shows "ingress_byte_tokens (refill_tokens_locked now s) \<le>
         ingress_byte_tokens s +
         ac_rate s * real_of_int (token_refill_ms (refill_tokens_locked now s) - token_refill_ms s) +
         rnd_eps * ac_capacity s"
proof (cases "now \<le> token_refill_ms s")
  case True
  then show ?thesis using on by (simp add: refill_tokens refill_ms ac_capacity_nonneg)
next
  case False
  let ?e = "now - token_refill_ms s" and ?c = "ac_capacity s"
  have c: "1 \<le> ?c" by (rule ac_capacity_ge_1 [OF on])
  have r: "refill_amount ?c ?e \<le> ac_rate s * real_of_int ?e"
    using refill_amount_le [OF c, of ?e] False by (simp add: ac_rate_def mult_ac)
  have "min ?c (rnd64 (ingress_byte_tokens s + refill_amount ?c ?e)) \<le>
      ingress_byte_tokens s + refill_amount ?c ?e + rnd_eps * ?c"
    unfolding ac_capacity_def
  proof (rule ieee.refill_le)
    show "0 \<le> ingress_byte_tokens s" using inv by (simp add: ac_inv_def)
    show "0 \<le> refill_amount (rnd64 (real (unat (max_ingress_bytes_per_second (ac_config s))))) ?e"
      using False by (intro refill_amount_nonneg ieee.nonneg) simp_all
    show "2 powr - 1022 \<le> rnd64 (real (unat (max_ingress_bytes_per_second (ac_config s))))"
      using c by (intro tiny_le) (simp add: ac_capacity_def)
  qed
  then show ?thesis using on False r by (simp add: refill_tokens refill_ms)
qed


section \<open>One call\<close>

lemma accept_bytes_frame [simp]:
  "ac_config (snd (try_accept_ingress_bytes now b s)) = ac_config s"
  "ingress_streams (snd (try_accept_ingress_bytes now b s)) = ingress_streams s"
  "ac_capacity (snd (try_accept_ingress_bytes now b s)) = ac_capacity s"
  by (simp_all add: try_accept_ingress_bytes_def Let_def ac_capacity_def)

lemma accept_bytes_inv:
  assumes "ac_inv s"
  shows "ac_inv (snd (try_accept_ingress_bytes now b s))"
proof -
  let ?r = "refill_tokens_locked now s" and ?n = "rnd64 (real (unat b))"
  have r: "ac_inv ?r" by (rule refill_inv [OF assms])
  have "0 \<le> ?n" by (simp add: ieee.nonneg)
  then have "ingress_byte_tokens ?r - ?n \<le> ac_capacity s" using r by (simp add: ac_inv_def)
  then have "rnd64 (ingress_byte_tokens ?r - ?n) \<le> ac_capacity s"
    unfolding ac_capacity_def by (rule ieee.le_rounded)
  then show ?thesis
    using r assms by (auto simp: try_accept_ingress_bytes_def Let_def ac_inv_def ieee.nonneg
        ac_capacity_def)
qed

lemma accept_stream_inv: "ac_inv s \<Longrightarrow> ac_inv (snd (try_accept_ingress_stream sid s))"
  by (auto simp: try_accept_ingress_stream_def ac_inv_def ac_capacity_def)

lemma release_stream_inv: "ac_inv s \<Longrightarrow> ac_inv (release_ingress_stream sid s)"
proof -
  assume "ac_inv s"
  moreover have "card (ingress_streams s - {sid}) \<le> card (ingress_streams s)"
    using \<open>ac_inv s\<close> by (intro card_mono) (auto simp: ac_inv_def)
  ultimately show ?thesis
    by (auto simp: release_ingress_stream_def ac_inv_def ac_capacity_def)
qed

lemma ac_exec_inv: "ac_inv s \<Longrightarrow> ac_inv (snd (ac_exec op s))"
  by (cases op) (simp_all add: accept_stream_inv release_stream_inv accept_bytes_inv refill_inv
      snapshot_capability_def Let_def split_beta)

lemma ac_exec_frame [simp]:
  "ac_config (snd (ac_exec op s)) = ac_config s" "ac_capacity (snd (ac_exec op s)) = ac_capacity s"
  "ac_rate (snd (ac_exec op s)) = ac_rate s"
  by (cases op; simp add: try_accept_ingress_stream_def release_ingress_stream_def ac_capacity_def
      snapshot_capability_def Let_def split_beta ac_rate_def)+

lemma init_inv: "ac_inv (AdmissionControl_init config now)"
  by (simp add: ac_inv_def AdmissionControl_init_def ac_capacity_def ieee.nonneg)

lemma ac_run_inv: "ac_inv s \<Longrightarrow> ac_inv (snd (ac_run ops s))"
  by (induction ops arbitrary: s) (simp_all add: Let_def split_beta ac_exec_inv)

lemma ac_run_config [simp]: "ac_config (snd (ac_run ops s)) = ac_config s"
  by (induction ops arbitrary: s) (simp_all add: Let_def split_beta)

lemma ac_exec_ms: "token_refill_ms s \<le> token_refill_ms (snd (ac_exec op s))"
  by (cases op) (simp_all add: try_accept_ingress_stream_def release_ingress_stream_def
      try_accept_ingress_bytes_def snapshot_capability_def Let_def split_beta refill_ms)

lemma ac_run_ms: "token_refill_ms s \<le> token_refill_ms (snd (ac_run ops s))"
  by (induction ops arbitrary: s)
    (simp_all add: Let_def split_beta, meson ac_exec_ms order_trans)

section \<open>Accounting\<close>

text \<open>A byte count and its conversion to \<open>double\<close> differ by at most two rounding units.\<close>

lemma needed_close:
  assumes "b \<noteq> 0" and "rnd64 (real (unat b)) \<le> c"
  shows "real (unat (b :: u64)) \<le> rnd64 (real (unat b)) + 2 * rnd_eps * c"
proof -
  let ?b = "real (unat b)" and ?n = "rnd64 (real (unat b))"
  have "0 < unat b" using assms(1) by (simp add: unat_gt_0)
  then have b1: "1 \<le> ?b" by linarith
  have lo: "(1 - rnd_eps) * ?b \<le> ?n" using b1 by (intro ieee.rel(2) tiny_le) simp
  have half: "1 / 2 \<le> 1 - rnd_eps" by (simp add: rnd_eps_def)
  have "1 / 2 * ?b \<le> (1 - rnd_eps) * ?b" using half b1 by (intro mult_right_mono) simp_all
  then have "?b \<le> 2 * c" using lo assms(2) by linarith
  then have "rnd_eps * ?b \<le> rnd_eps * (2 * c)" by (rule mult_left_mono) simp
  moreover have "?b - rnd_eps * ?b \<le> ?n" using lo by (simp add: left_diff_distrib)
  ultimately show ?thesis by linarith
qed

lemma accept_bytes_gain:
  assumes inv: "ac_inv s" and on: "max_ingress_bytes_per_second (ac_config s) \<noteq> 0"
  shows "real (fst (ac_exec (AcceptBytes now b) s)) +
           ingress_byte_tokens (snd (ac_exec (AcceptBytes now b) s)) \<le>
         ingress_byte_tokens s +
           ac_rate s * real_of_int (token_refill_ms (snd (ac_exec (AcceptBytes now b) s)) - token_refill_ms s) +
           4 * rnd_eps * ac_capacity s"
proof (cases "b = 0")
  case True
  then show ?thesis by (simp add: try_accept_ingress_bytes_def ac_capacity_nonneg)
next
  case b: False
  let ?r = "refill_tokens_locked now s" and ?n = "rnd64 (real (unat b))" and ?c = "ac_capacity s"
  have c: "1 \<le> ?c" by (rule ac_capacity_ge_1 [OF on])
  note gain = refill_gain [OF inv on, of now]
  have r: "ingress_byte_tokens ?r \<le> ?c" "0 \<le> ingress_byte_tokens ?r"
    using refill_inv [OF inv, of now] by (simp_all add: ac_inv_def)
  show ?thesis
  proof (cases "ingress_byte_tokens ?r < ?n")
    case True
    have "0 \<le> rnd_eps * ?c" using c by simp
    then show ?thesis using True b on gain by (simp add: try_accept_ingress_bytes_def Let_def)
  next
    case False
    have "0 \<le> ?n" by (simp add: ieee.nonneg)
    then have "\<bar>rnd64 (ingress_byte_tokens ?r - ?n) - (ingress_byte_tokens ?r - ?n)\<bar> \<le> rnd_eps * ?c"
      using r False c by (intro ieee.err_le tiny_le) auto
    moreover have "real (unat b) \<le> ?n + 2 * rnd_eps * ?c"
      using needed_close [OF b, of ?c] False r by simp
    ultimately show ?thesis
      using False b on gain by (simp add: try_accept_ingress_bytes_def Let_def)
  qed
qed

lemma ac_exec_gain:
  assumes inv: "ac_inv s" and on: "max_ingress_bytes_per_second (ac_config s) \<noteq> 0"
  shows "real (fst (ac_exec op s)) + ingress_byte_tokens (snd (ac_exec op s)) \<le>
         ingress_byte_tokens s +
           ac_rate s * real_of_int (token_refill_ms (snd (ac_exec op s)) - token_refill_ms s) +
           4 * rnd_eps * ac_capacity s"
proof (cases op)
  case (AcceptBytes now b)
  then show ?thesis using accept_bytes_gain [OF assms] by simp
next
  case (Snapshot now wall links)
  then show ?thesis
    using refill_gain [OF assms, of now] mult_nonneg_nonneg [OF rnd_eps_pos(2) ac_capacity_nonneg, of s]
    by (simp add: snapshot_capability_def Let_def)
qed (use ac_capacity_nonneg [of s] in
    \<open>simp_all add: try_accept_ingress_stream_def release_ingress_stream_def\<close>)

lemma ac_run_gain:
  assumes "ac_inv s" and "max_ingress_bytes_per_second (ac_config s) \<noteq> 0"
  shows "real (fst (ac_run ops s)) + ingress_byte_tokens (snd (ac_run ops s)) \<le>
         ingress_byte_tokens s +
           ac_rate s * real_of_int (token_refill_ms (snd (ac_run ops s)) - token_refill_ms s) +
           real (length ops) * (4 * rnd_eps * ac_capacity s)"
  using assms
proof (induction ops arbitrary: s)
  case (Cons op ops)
  note step = ac_exec_gain [OF Cons.prems, of op]
  have rest: "real (fst (ac_run ops s')) + ingress_byte_tokens (snd (ac_run ops s')) \<le>
      ingress_byte_tokens s' +
        ac_rate s * real_of_int (token_refill_ms (snd (ac_run ops s')) - token_refill_ms s') +
        real (length ops) * (4 * rnd_eps * ac_capacity s)" if "s' = snd (ac_exec op s)" for s'
    using Cons.IH [of s'] ac_exec_inv [OF Cons.prems(1), of op] Cons.prems(2) that by simp
  show ?case using step rest [OF refl] by (simp add: Let_def split_beta algebra_simps)
qed simp

lemma rate_constant: "(1 + rnd_eps) ^ 3 \<le> 1 + 1 / 2 ^ 51"
  by (simp add: rnd_eps_def power3_eq_cube field_simps)

section \<open>Properties\<close>

text \<open>
  After any sequence of calls the set of admitted streams is finite, never holds the
  reserved identifier 0 and never exceeds \<open>max_ingress_streams\<close> (unless that is 0, for no
  limit), and the byte tokens stay between 0 and the configured rate, in double arithmetic.
\<close>

theorem admission_invariant:
  "case ac_run ops (AdmissionControl_init config now) of (_, s) \<Rightarrow>
     finite (ingress_streams s) \<and> 0 \<notin> ingress_streams s \<and>
     (max_ingress_streams config = 0 \<or> card (ingress_streams s) \<le> max_ingress_streams config) \<and>
     0 \<le> ingress_byte_tokens s \<and>
     ingress_byte_tokens s \<le> rnd64 (real (unat (max_ingress_bytes_per_second config)))"
  using ac_run_inv [OF init_inv, of ops config now]
    ac_run_config [of ops "AdmissionControl_init config now"]
  unfolding ac_inv_def ac_capacity_def
  by (simp add: split_beta) (simp add: AdmissionControl_init_def)

text \<open>
  C8: The byte limiter is a token bucket. With a rate \<open>C\<close> configured, the bytes admitted in any
  window of calls are at most \<open>C\<close> (one full bucket) plus \<open>C\<close> per second of steady-clock time
  accounted for in the window, up to the rounding of double arithmetic, which adds a relative
  \<open>2\<^sup>-\<^sup>5\<^sup>1\<close> to the rate and to the bucket for each call.
\<close>

theorem admission_rate_bound:
  assumes on: "max_ingress_bytes_per_second config \<noteq> 0"
  shows "case ac_run pre (AdmissionControl_init config now) of (_, s) \<Rightarrow>
         case ac_run window s of (admitted, s') \<Rightarrow>
           real admitted \<le> rnd64 (real (unat (max_ingress_bytes_per_second config))) *
             (1 + (1 + 1 / 2 ^ 51) * (real_of_int (token_refill_ms s' - token_refill_ms s) / 1000) +
              real (length window) / 2 ^ 51)"
proof -
  define s where "s = snd (ac_run pre (AdmissionControl_init config now))"
  define d where "d = real_of_int (token_refill_ms (snd (ac_run window s)) - token_refill_ms s)"
  define k :: real where "k = 1 / 2 ^ 51"
  let ?C = "ac_capacity s" and ?n = "real (length window)"
  have inv: "ac_inv s" unfolding s_def by (rule ac_run_inv [OF init_inv])
  have cfg: "ac_config s = config" by (simp add: s_def) (simp add: AdmissionControl_init_def)
  have d: "0 \<le> d" using ac_run_ms [of s window] by (simp add: d_def)
  have k: "4 * rnd_eps = k" by (simp add: rnd_eps_def k_def)
  have "real (fst (ac_run window s)) \<le> ?C + ac_rate s * d + ?n * (k * ?C)"
    using ac_run_gain [OF inv, of window] on inv ac_run_inv [OF inv, of window]
    by (simp add: cfg ac_inv_def d_def k)
  also have "ac_rate s * d \<le> (1 + k) * (?C / 1000) * d"
    unfolding ac_rate_def k_def using d ac_capacity_nonneg [of s]
    by (intro mult_right_mono rate_constant) simp_all
  also have "?C + (1 + k) * (?C / 1000) * d + ?n * (k * ?C) = ?C * (1 + (1 + k) * (d / 1000) + ?n * k)"
    by (simp add: algebra_simps)
  finally show ?thesis
    by (simp add: s_def [symmetric] split_beta ac_capacity_def cfg d_def k_def)
qed

theorem admission_rate_bound_witness:
  "case ac_run [] (AdmissionControl_init \<lparr>max_ingress_streams = 1,
       max_ingress_bytes_per_second = 1000, acc_max_kcp_links = 1\<rparr> 0) of (_, s) \<Rightarrow>
   case ac_run [AcceptBytes 0 900, AcceptBytes 10 900] s of (admitted, s') \<Rightarrow>
     admitted = 900 \<and>
     real admitted \<le> rnd64 (real (unat (1000 :: u64))) *
       (1 + (1 + 1 / 2 ^ 51) * (real_of_int (token_refill_ms s' - token_refill_ms s) / 1000) +
        real (length [AcceptBytes 0 900, AcceptBytes 10 900]) / 2 ^ 51)"
proof -
  have r: "rnd64 1000 = 1000" "rnd64 900 = 900" "rnd64 100 = 100" "rnd64 10 = 10"
    "rnd64 10000 = 10000" "rnd64 110 = 110"
    using rnd64_of_nat [of 1000] rnd64_of_nat [of 900] rnd64_of_nat [of 100] rnd64_of_nat [of 10]
      rnd64_of_nat [of 10000] rnd64_of_nat [of 110] by simp_all
  show ?thesis
    using admission_rate_bound [of "\<lparr>max_ingress_streams = 1,
        max_ingress_bytes_per_second = 1000, acc_max_kcp_links = 1\<rparr>"
        "[AcceptBytes 0 900, AcceptBytes 10 900]" "[]" 0]
    by (simp add: AdmissionControl_init_def try_accept_ingress_bytes_def refill_tokens_locked_def
        steady_second_def Let_def r)
qed

text \<open>
  In every reachable state a stream that asks for admission is in the set afterwards exactly
  when the call says so, no other stream is affected, and a refusal of a stream other than 0
  happens only when the limit is reached; releasing removes exactly the named stream.
\<close>

theorem admission_stream_functional:
  "case ac_run ops (AdmissionControl_init config now) of (_, s) \<Rightarrow>
   case try_accept_ingress_stream sid s of (ok, s') \<Rightarrow>
     ingress_streams s' = (if ok then insert sid (ingress_streams s) else ingress_streams s) \<and>
     (sid \<in> ingress_streams s' \<longleftrightarrow> ok) \<and>
     (ok \<longleftrightarrow> sid \<noteq> 0 \<and> (sid \<in> ingress_streams s \<or> max_ingress_streams config = 0 \<or>
                        card (ingress_streams s) < max_ingress_streams config)) \<and>
     ingress_streams (release_ingress_stream sid s') = ingress_streams s - {sid}"
proof -
  define s where "s = snd (ac_run ops (AdmissionControl_init config now))"
  have inv: "ac_inv s" unfolding s_def by (rule ac_run_inv [OF init_inv])
  have cfg: "ac_config s = config" by (simp add: s_def) (simp add: AdmissionControl_init_def)
  show ?thesis
    using inv by (auto simp: s_def [symmetric] split_beta cfg try_accept_ingress_stream_def
        release_ingress_stream_def ac_inv_def)
qed

end
