(* ===== verification/HashMap.thy ===== *)
theory HashMap
  imports Prelude
begin

text \<open>
  \<open>std::unordered_map\<close> as the sources use it: the list of its entries in iteration order.
  Updating a mapped value and erasing keep the order of the other entries; an insertion may
  rehash and leaves the order open, so it takes a layout, which permutes the entries. The
  standard's \<open>std::sort\<close> and the choice of an extreme entry while iterating are here as well.
\<close>

section \<open>Operations\<close>

definition um_find :: "'k \<Rightarrow> ('k \<times> 'v) list \<Rightarrow> 'v option" where
  "um_find k m = map_of m k"

definition um_update :: "'k \<Rightarrow> ('v \<Rightarrow> 'v) \<Rightarrow> ('k \<times> 'v) list \<Rightarrow> ('k \<times> 'v) list" where
  "um_update k f m = map (\<lambda>(k', v). (k', if k' = k then f v else v)) m"

definition um_emplace ::
  "(('k \<times> 'v) list \<Rightarrow> ('k \<times> 'v) list) \<Rightarrow> 'k \<Rightarrow> 'v \<Rightarrow> ('k \<times> 'v) list \<Rightarrow> ('k \<times> 'v) list" where
  "um_emplace lay k v m = (case um_find k m of None \<Rightarrow> lay ((k, v) # m) | Some _ \<Rightarrow> m)"

text \<open>\<open>m[k] = v\<close>\<close>

definition um_assign ::
  "(('k \<times> 'v) list \<Rightarrow> ('k \<times> 'v) list) \<Rightarrow> 'k \<Rightarrow> 'v \<Rightarrow> ('k \<times> 'v) list \<Rightarrow> ('k \<times> 'v) list" where
  "um_assign lay k v m =
     (case um_find k m of None \<Rightarrow> lay ((k, v) # m) | Some _ \<Rightarrow> um_update k (\<lambda>_. v) m)"

definition um_erase :: "'k \<Rightarrow> ('k \<times> 'v) list \<Rightarrow> ('k \<times> 'v) list" where
  "um_erase k m = filter (\<lambda>(k', _). k' \<noteq> k) m"

definition um_ok :: "('k \<times> 'v) list \<Rightarrow> bool" where
  "um_ok m \<longleftrightarrow> distinct (map fst m)"

definition is_layout :: "('a list \<Rightarrow> 'a list) \<Rightarrow> bool" where
  "is_layout lay \<longleftrightarrow> (\<forall>xs. mset (lay xs) = mset xs)"

section \<open>Laws\<close>

lemma is_layoutD:
  assumes "is_layout lay"
  shows "mset (lay xs) = mset xs" "set (lay xs) = set xs" "length (lay xs) = length xs"
proof -
  show m: "mset (lay xs) = mset xs" using assms by (simp add: is_layout_def)
  show "set (lay xs) = set xs" by (rule mset_eq_setD [OF m])
  show "length (lay xs) = length xs" by (rule mset_eq_length [OF m])
qed

lemma is_layout_keys: "is_layout lay \<Longrightarrow> distinct (map fst (lay m)) = distinct (map fst m)"
  by (metis is_layoutD(1) mset_eq_imp_distinct_iff mset_map)

lemma is_layout_id [simp]: "is_layout (\<lambda>xs. xs)"
  by (simp add: is_layout_def)

lemma um_find_Some_iff: "um_ok m \<Longrightarrow> um_find k m = Some v \<longleftrightarrow> (k, v) \<in> set m"
  by (simp add: um_find_def um_ok_def)

lemma um_unique: "um_ok m \<Longrightarrow> (k, v) \<in> set m \<Longrightarrow> (k, w) \<in> set m \<Longrightarrow> v = w"
  by (metis option.inject um_find_Some_iff)

lemma um_find_SomeD: "um_find k m = Some v \<Longrightarrow> (k, v) \<in> set m"
  by (simp add: um_find_def map_of_SomeD)

lemma um_find_None_iff: "um_find k m = None \<longleftrightarrow> k \<notin> fst ` set m"
  by (simp add: um_find_def map_of_eq_None_iff)

lemma map_fst_um_update [simp]: "map fst (um_update k f m) = map fst m"
  by (simp add: um_update_def split_beta)

lemma length_um_update [simp]: "length (um_update k f m) = length m"
  by (simp add: um_update_def)

lemma um_ok_update [simp]: "um_ok (um_update k f m) = um_ok m"
  by (simp add: um_ok_def)

lemma um_find_update:
  "um_find k' (um_update k f m) = (if k' = k then map_option f (um_find k m) else um_find k' m)"
  by (induction m) (auto simp: um_find_def um_update_def)

lemma set_um_update:
  "(k', v) \<in> set (um_update k f m) \<longleftrightarrow>
     (k' \<noteq> k \<and> (k', v) \<in> set m) \<or> (k' = k \<and> (\<exists>w. (k, w) \<in> set m \<and> v = f w))"
proof -
  have "(k', v) \<in> set (um_update k f m) \<longleftrightarrow>
      (\<exists>w. (k', w) \<in> set m \<and> v = (if k' = k then f w else w))"
    unfolding um_update_def by force
  then show ?thesis by auto
qed

lemma um_ok_emplace: "is_layout lay \<Longrightarrow> um_ok m \<Longrightarrow> um_ok (um_emplace lay k v m)"
  by (auto simp: um_emplace_def um_ok_def is_layout_keys um_find_def map_of_eq_None_iff
      split: option.splits)

lemma mset_um_emplace:
  "is_layout lay \<Longrightarrow> um_find k m = None \<Longrightarrow> mset (um_emplace lay k v m) = add_mset (k, v) (mset m)"
  by (simp add: um_emplace_def is_layoutD)

lemma um_find_emplace:
  assumes "is_layout lay" "um_ok m" "um_find k m = None"
  shows "um_find k' (um_emplace lay k v m) = (if k' = k then Some v else um_find k' m)"
proof -
  have ok: "um_ok (um_emplace lay k v m)" by (rule um_ok_emplace [OF assms(1,2)])
  have "set (um_emplace lay k v m) = set ((k, v) # m)"
    using mset_um_emplace [OF assms(1,3), of v] by (metis mset.simps(2) mset_eq_setD)
  moreover have "um_ok ((k, v) # m)"
    using assms by (simp add: um_ok_def um_find_None_iff)
  ultimately have "um_find k' (um_emplace lay k v m) = um_find k' ((k, v) # m)"
    using ok map_of_inject_set unfolding um_find_def um_ok_def by metis
  then show ?thesis by (simp add: um_find_def)
qed

lemma um_ok_erase [simp]: "um_ok m \<Longrightarrow> um_ok (um_erase k m)"
  by (simp add: um_ok_def um_erase_def distinct_map_filter)

lemma um_ok_filter [simp]: "um_ok m \<Longrightarrow> um_ok (filter P m)"
  by (simp add: um_ok_def distinct_map_filter)

lemma set_um_erase: "x \<in> set (um_erase k m) \<longleftrightarrow> x \<in> set m \<and> fst x \<noteq> k"
  by (auto simp: um_erase_def)

lemma um_find_erase: "um_find k' (um_erase k m) = (if k' = k then None else um_find k' m)"
  by (induction m) (auto simp: um_find_def um_erase_def)

lemma length_um_erase: "um_ok m \<Longrightarrow> (k, v) \<in> set m \<Longrightarrow> Suc (length (um_erase k m)) = length m"
proof (induction m)
  case (Cons x m)
  show ?case
  proof (cases "fst x = k")
    case True
    then have "k \<notin> fst ` set m" using Cons.prems by (simp add: um_ok_def)
    then have "filter (\<lambda>(k', _). k' \<noteq> k) m = m" by (force simp: filter_id_conv)
    then show ?thesis using True by (simp add: um_erase_def split_beta)
  next
    case False
    then show ?thesis using Cons by (auto simp: um_erase_def um_ok_def split_beta)
  qed
qed simp

section \<open>Counting entries\<close>

definition um_count :: "('v \<Rightarrow> bool) \<Rightarrow> ('k \<times> 'v) list \<Rightarrow> nat" where
  "um_count P m = length (filter (\<lambda>(_, v). P v) m)"

lemma um_count_mset: "mset m = mset m' \<Longrightarrow> um_count P m = um_count P m'"
  unfolding um_count_def by (metis mset_filter size_mset)

lemma um_count_emplace:
  "is_layout lay \<Longrightarrow> um_find k m = None \<Longrightarrow>
   um_count P (um_emplace lay k v m) = um_count P m + (if P v then 1 else 0)"
  using um_count_mset [of "um_emplace lay k v m" "(k, v) # m" P]
  by (simp add: mset_um_emplace) (simp add: um_count_def)

lemma um_update_other: "k \<notin> fst ` set m \<Longrightarrow> um_update k f m = m"
  by (induction m) (auto simp: um_update_def)

lemma um_count_update:
  "um_ok m \<Longrightarrow> um_find k m = Some v \<Longrightarrow>
   um_count P (um_update k f m) + (if P v then 1 else 0) =
   um_count P m + (if P (f v) then 1 else 0)"
proof (induction m)
  case (Cons x m)
  show ?case
  proof (cases "fst x = k")
    case True
    then have "k \<notin> fst ` set m" using Cons.prems by (simp add: um_ok_def)
    then have "um_update k f (x # m) = (k, f (snd x)) # m"
      using True um_update_other [of k m f] by (auto simp: um_update_def split_beta)
    then show ?thesis using True Cons.prems
      by (cases x) (simp add: um_count_def um_find_def)
  next
    case False
    then have "um_update k f (x # m) = x # um_update k f m"
      by (auto simp: um_update_def split_beta)
    then show ?thesis using False Cons
      by (cases x) (auto simp: um_count_def um_find_def um_ok_def)
  qed
qed (simp add: um_find_def)

lemma um_count_filter:
  "(\<And>k v. (k, v) \<in> set m \<Longrightarrow> P v \<Longrightarrow> Q (k, v)) \<Longrightarrow> um_count P (filter Q m) = um_count P m"
proof -
  assume a: "\<And>k v. (k, v) \<in> set m \<Longrightarrow> P v \<Longrightarrow> Q (k, v)"
  have "filter (\<lambda>(_, v). P v) (filter Q m) = filter (\<lambda>(_, v). P v) m"
    unfolding filter_filter by (rule filter_cong) (auto intro: a)
  then show ?thesis by (simp add: um_count_def)
qed

section \<open>Sorting and extremes\<close>

text \<open>
  \<open>std::sort\<close> with a comparator \<open>lt\<close>: insertion into place. The standard leaves the order of
  equivalent elements open.
\<close>

fun sort_insert :: "('a \<Rightarrow> 'a \<Rightarrow> bool) \<Rightarrow> 'a \<Rightarrow> 'a list \<Rightarrow> 'a list" where
  "sort_insert lt x [] = [x]"
| "sort_insert lt x (y # ys) = (if lt y x then y # sort_insert lt x ys else x # y # ys)"

definition std_sort :: "('a \<Rightarrow> 'a \<Rightarrow> bool) \<Rightarrow> 'a list \<Rightarrow> 'a list" where
  "std_sort lt xs = foldr (sort_insert lt) xs []"

lemma mset_sort_insert [simp]: "mset (sort_insert lt x ys) = add_mset x (mset ys)"
  by (induction ys) auto

lemma mset_std_sort [simp]: "mset (std_sort lt xs) = mset xs"
  by (induction xs) (simp_all add: std_sort_def)

lemma set_std_sort [simp]: "set (std_sort lt xs) = set xs"
  by (rule mset_eq_setD) simp

lemma length_std_sort [simp]: "length (std_sort lt xs) = length xs"
  by (rule mset_eq_length) simp

text \<open>With a strict weak order nothing stands before the front of the sorted list.\<close>

lemma std_sort_front:
  assumes "xs \<noteq> []" and irr: "\<And>x. \<not> lt x x"
    and neg_trans: "\<And>x y z. \<not> lt x y \<Longrightarrow> \<not> lt y z \<Longrightarrow> \<not> lt x z"
    and asym: "\<And>x y. lt x y \<Longrightarrow> \<not> lt y x"
  shows "x \<in> set xs \<Longrightarrow> \<not> lt x (hd (std_sort lt xs))"
  using assms(1)
proof (induction xs arbitrary: x)
  case (Cons y ys)
  show ?case
  proof (cases "ys = []")
    case True
    then show ?thesis using Cons.prems irr by (simp add: std_sort_def)
  next
    case False
    define s where "s = std_sort lt ys"
    have ne: "s \<noteq> []" using False by (metis length_0_conv length_std_sort s_def)
    then obtain h t where s: "s = h # t" by (cases s) auto
    have "std_sort lt (y # ys) = sort_insert lt y s" by (simp add: s_def std_sort_def)
    then have hd: "hd (std_sort lt (y # ys)) = (if lt h y then h else y)" by (simp add: s)
    have ih: "z \<in> set ys \<Longrightarrow> \<not> lt z h" for z using Cons.IH False s by (simp add: s_def)
    show ?thesis using Cons.prems hd ih irr neg_trans asym by (metis set_ConsD)
  qed
qed simp


text \<open>Scanning for the first eligible element of greatest score.\<close>

fun pick_max :: "('a \<Rightarrow> bool) \<Rightarrow> ('a \<Rightarrow> real) \<Rightarrow> 'a option \<Rightarrow> 'a list \<Rightarrow> 'a option" where
  "pick_max el sc best [] = best"
| "pick_max el sc best (x # xs) =
     (if el x \<and> (case best of None \<Rightarrow> True | Some b \<Rightarrow> sc b < sc x)
      then pick_max el sc (Some x) xs else pick_max el sc best xs)"

lemma pick_max_None: "pick_max el sc best xs = None \<longleftrightarrow> best = None \<and> (\<forall>x \<in> set xs. \<not> el x)"
  by (induction xs arbitrary: best) auto

lemma pick_max_Some:
  "pick_max el sc best xs = Some m \<Longrightarrow>
   (best = Some m \<or> m \<in> set xs \<and> el m) \<and> (\<forall>x \<in> set xs. el x \<longrightarrow> sc x \<le> sc m) \<and>
   (\<forall>b. best = Some b \<longrightarrow> sc b \<le> sc m)"
proof (induction xs arbitrary: best)
  case (Cons x xs)
  show ?case
  proof (cases "el x \<and> (case best of None \<Rightarrow> True | Some b \<Rightarrow> sc b < sc x)")
    case True
    then have "pick_max el sc (Some x) xs = Some m" using Cons.prems by simp
    from Cons.IH [OF this] True show ?thesis by (auto split: option.splits)
  next
    case False
    then have "pick_max el sc best xs = Some m" using Cons.prems by auto
    from Cons.IH [OF this] False show ?thesis by (fastforce split: option.splits)
  qed
qed simp

lemma assign_length:
  "is_layout lay \<Longrightarrow> length (um_assign lay k v m) = (if um_find k m = None then Suc (length m) else length m)"
  by (auto simp: um_assign_def is_layoutD split: option.splits)

lemma assign_ok: "is_layout lay \<Longrightarrow> um_ok m \<Longrightarrow> um_ok (um_assign lay k v m)"
  using um_ok_emplace [of lay m k v] by (auto simp: um_assign_def um_emplace_def split: option.splits)

lemma assign_set:
  "is_layout lay \<Longrightarrow> x \<in> set (um_assign lay k v m) \<Longrightarrow> x = (k, v) \<or> x \<in> set m"
  by (cases x) (auto simp: um_assign_def is_layoutD set_um_update split: option.splits)

end
