(* ===== verification/RouteManager.thy ===== *)
theory RouteManager
  imports RouteTypes Floats HashMap
begin

text \<open>
  The route table (\<open>iota_proxy/src/discovery/RouteManager.cpp\<close>): known nodes with their state,
  the relay each was learnt from, its hop count and load, the count of live KCP links, and the
  choices made on it. Each operation runs under the table's mutex and is one step. The wall
  clock, the random engine and \<open>std::pow\<close> are arguments; time differences are computed in
  \<open>int\<close> (signed overflow is undefined in the source).
\<close>

section \<open>State\<close>

type_synonym route_map = "(KcpConv \<times> RouteEntry) list"
type_synonym layout = "route_map \<Rightarrow> route_map"
type_synonym pow_fun = "real \<Rightarrow> real \<Rightarrow> real"

record RouteManager =
  rm_config :: RouteManagerConfig
  routes :: route_map
  kcp_link_count :: nat

definition RouteManager_init :: "RouteManagerConfig \<Rightarrow> RouteManager" where
  "RouteManager_init config = \<lparr>rm_config = config, routes = [], kcp_link_count = 0\<rparr>"

definition kSecondsToMs :: int where
  "kSecondsToMs = 1000"

definition kFutureSkewMs :: int where
  "kFutureSkewMs = 10 * 60 * kSecondsToMs"

definition kRecentTryPenaltyMs :: int where
  "kRecentTryPenaltyMs = 10 * 60 * kSecondsToMs"

definition kMinFailMs :: int where
  "kMinFailMs = 7 * 24 * 60 * 60 * kSecondsToMs"

section \<open>Helpers\<close>

definition valid_route_node :: "NodeAddress \<Rightarrow> bool" where
  "valid_route_node node \<longleftrightarrow>
     ep_host (node_endpoint node) \<noteq> [] \<and> ep_port (node_endpoint node) \<noteq> 0 \<and>
     \<not> conv_empty (node_id node)"

definition valid_source :: "NodeAddress option \<Rightarrow> bool" where
  "valid_source source \<longleftrightarrow> (case source of None \<Rightarrow> False | Some src \<Rightarrow> valid_route_node src)"

definition local_hop_count :: "NodeAddress option \<Rightarrow> bool \<Rightarrow> u8 \<Rightarrow> u8" where
  "local_hop_count source kcp_connected advertised_hop_count =
     (if kcp_connected then 1
      else if valid_source source then
        (if advertised_hop_count = 255 then advertised_hop_count else advertised_hop_count + 1)
      else advertised_hop_count)"

definition route_state_to_string :: "RouteState \<Rightarrow> string" where
  "route_state_to_string st = (case st of New \<Rightarrow> ''new'' | Tried \<Rightarrow> ''tried'' | Bad \<Rightarrow> ''bad'')"

definition route_state_from_string :: "string \<Rightarrow> RouteState" where
  "route_state_from_string text =
     (if text = ''tried'' then Tried else if text = ''bad'' then Bad else New)"

section \<open>Scores\<close>

definition is_terrible :: "RouteManagerConfig \<Rightarrow> RouteEntry \<Rightarrow> int \<Rightarrow> bool" where
  "is_terrible config entry now_ms =
     (if re_last_try_ms entry \<noteq> 0 \<and>
         re_last_try_ms entry \<ge> now_ms - uint (retry_backoff_seconds config) * kSecondsToMs
      then False
      else if re_last_seen_ms entry > now_ms + kFutureSkewMs then True
      else if re_last_seen_ms entry = 0 \<or>
              re_last_seen_ms entry < now_ms - uint (stale_after_seconds config) * kSecondsToMs
      then True
      else if re_last_success_ms entry = 0 \<and> re_attempts entry \<ge> give_up_attempts config then True
      else if re_last_success_ms entry \<noteq> 0 \<and> re_last_success_ms entry < now_ms - kMinFailMs \<and>
              re_failures entry \<ge> bad_failure_threshold config
      then True
      else False)"

definition in_retry_backoff :: "RouteManagerConfig \<Rightarrow> RouteEntry \<Rightarrow> int \<Rightarrow> bool" where
  "in_retry_backoff config entry now_ms =
     (if re_last_try_ms entry = 0 then False
      else
        let backoff_ms = uint (retry_backoff_seconds config) * kSecondsToMs
        in re_last_try_ms entry > now_ms - backoff_ms)"

definition route_chance :: "pow_fun \<Rightarrow> RouteEntry \<Rightarrow> int \<Rightarrow> real" where
  "route_chance pow entry now_ms =
     (let chance = 1;
          chance = (if re_last_try_ms entry \<noteq> 0 \<and>
                       re_last_try_ms entry > now_ms - kRecentTryPenaltyMs
                    then rnd64 (chance * rnd64 (1 / 100)) else chance);
          attempts = min (re_attempts entry) 8;
          chance = rnd64 (chance * pow (rnd64 (66 / 100)) (rnd64 (real (unat attempts))))
      in if re_state entry = Tried then rnd64 (chance * rnd64 (125 / 100))
         else if re_state entry = Bad then rnd64 (chance * rnd64 (5 / 100))
         else chance)"

text \<open>The ratio of a load and its limit, after the conversions to \<open>double\<close>.\<close>

definition load_ratio :: "nat \<Rightarrow> nat \<Rightarrow> real" where
  "load_ratio current limit = rnd64 (rnd64 (real current) / rnd64 (real limit))"

definition capability_score :: "RouteManagerConfig \<Rightarrow> RouteEntry \<Rightarrow> int \<Rightarrow> real" where
  "capability_score config entry now_ms =
     (let cap = re_capability entry in
      if \<not> cap_present cap then 1
      else if \<not> cap_accepting_ingress cap then 0
      else if cap_updated_at_ms cap \<noteq> 0 \<and>
              cap_updated_at_ms cap <
                now_ms - uint (capability_stale_after_seconds config) * kSecondsToMs
      then rnd64 (1 / 2)
      else if cap_max_kcp_links cap \<noteq> 0 \<and>
              cap_current_kcp_links cap \<ge> cap_max_kcp_links cap then 0
      else
        let load = 0;
            load = (if cap_max_kcp_links cap \<noteq> 0
                    then max load (load_ratio (cap_current_kcp_links cap) (cap_max_kcp_links cap))
                    else load)
        in if cap_max_ingress_streams cap \<noteq> 0 \<and>
              cap_current_ingress_streams cap \<ge> cap_max_ingress_streams cap then 0
           else
             let load = (if cap_max_ingress_streams cap \<noteq> 0
                         then max load (load_ratio (cap_current_ingress_streams cap)
                                                   (cap_max_ingress_streams cap))
                         else load)
             in if cap_max_ingress_bytes_per_second cap \<noteq> 0 \<and>
                   cap_current_ingress_bytes_per_second cap \<ge> cap_max_ingress_bytes_per_second cap
                then 0
                else
                  let load = (if cap_max_ingress_bytes_per_second cap \<noteq> 0
                              then max load (load_ratio
                                     (unat (cap_current_ingress_bytes_per_second cap))
                                     (unat (cap_max_ingress_bytes_per_second cap)))
                              else load);
                      load = max 0 (min 1 load)
                  in rnd64 (rnd64 (1 / 10) + rnd64 (rnd64 (9 / 10) * rnd64 (1 - load))))"

definition route_score :: "pow_fun \<Rightarrow> RouteManagerConfig \<Rightarrow> RouteEntry \<Rightarrow> int \<Rightarrow> real" where
  "route_score pow config entry now_ms =
     (let score = rnd64 (route_chance pow entry now_ms * capability_score config entry now_ms)
      in if 1 < re_hop_count entry then rnd64 (score / rnd64 (real (unat (re_hop_count entry))))
         else score)"

section \<open>Trimming\<close>

text \<open>\<open>std::numeric_limits<double>::max()\<close>\<close>

definition double_max :: real where
  "double_max = (2 ^ 53 - 1) * 2 ^ 971"

definition victim_score :: "pow_fun \<Rightarrow> RouteManagerConfig \<Rightarrow> int \<Rightarrow> RouteEntry \<Rightarrow> real" where
  "victim_score pow config now_ms entry =
     (let score = route_score pow config entry now_ms
      in if re_state entry = Bad then rnd64 (score * rnd64 (1 / 100)) else score)"

fun find_victim ::
  "pow_fun \<Rightarrow> RouteManagerConfig \<Rightarrow> int \<Rightarrow> KcpConv option \<times> real \<Rightarrow> route_map \<Rightarrow> KcpConv option" where
  "find_victim pow config now_ms (victim, vscore) [] = victim"
| "find_victim pow config now_ms (victim, vscore) ((k, entry) # rest) =
     (if re_kcp_connected entry then find_victim pow config now_ms (victim, vscore) rest
      else
        let score = victim_score pow config now_ms entry
        in if score < vscore then find_victim pow config now_ms (Some k, score) rest
           else find_victim pow config now_ms (victim, vscore) rest)"

definition trim_if_needed :: "pow_fun \<Rightarrow> int \<Rightarrow> RouteManager \<Rightarrow> RouteManager" where
  "trim_if_needed pow now_ms s =
     (if length (routes s) < max_routes (rm_config s) then s
      else
        let s = s\<lparr>routes := filter (\<lambda>(_, entry). \<not> (\<not> re_kcp_connected entry \<and>
                                         is_terrible (rm_config s) entry now_ms)) (routes s)\<rparr>
        in if length (routes s) < max_routes (rm_config s) then s
           else case find_victim pow (rm_config s) now_ms (None, double_max) (routes s) of
                  None \<Rightarrow> s
                | Some victim \<Rightarrow> s\<lparr>routes := um_erase victim (routes s)\<rparr>)"

section \<open>Operations that change the table\<close>

definition set_capability :: "NodeCapability option \<Rightarrow> RouteEntry \<Rightarrow> RouteEntry" where
  "set_capability capability entry =
     (case capability of None \<Rightarrow> entry
      | Some cap \<Rightarrow> if cap_present cap then entry\<lparr>re_capability := cap\<rparr> else entry)"

text \<open>The branch of \<open>add_route\<close> for a node already in the table, on its entry.\<close>

definition refresh_entry ::
  "int \<Rightarrow> NodeAddress \<Rightarrow> NodeAddress option \<Rightarrow> bool \<Rightarrow> u8 \<Rightarrow> NodeCapability option \<Rightarrow>
   RouteEntry \<Rightarrow> RouteEntry" where
  "refresh_entry now_ms node source kcp_connected hops capability entry =
     (let entry = entry\<lparr>re_node := node, re_last_seen_ms := now_ms\<rparr>;
          entry = set_capability capability entry;
          entry = (if valid_source source then
                     let shorter_path = (re_hop_count entry = 0 \<or> hops < re_hop_count entry)
                     in if \<not> re_kcp_connected entry \<and> shorter_path
                        then entry\<lparr>re_source := the source, re_has_source := True,
                                   re_hop_count := hops\<rparr>
                        else entry
                   else entry);
          entry = (if re_state entry = Bad then entry\<lparr>re_state := New\<rparr> else entry);
          entry = (if kcp_connected \<and> \<not> re_kcp_connected entry
                   then entry\<lparr>re_kcp_connected := True\<rparr> else entry)
      in if kcp_connected
         then entry\<lparr>re_state := Tried, re_last_success_ms := now_ms, re_failures := 0,
                    re_hop_count := 1, re_has_source := False\<rparr>
         else entry)"

text \<open>The entry \<open>add_route\<close> builds for a node that is not in the table.\<close>

definition new_entry ::
  "int \<Rightarrow> NodeAddress \<Rightarrow> NodeAddress option \<Rightarrow> bool \<Rightarrow> u8 \<Rightarrow> NodeCapability option \<Rightarrow> RouteEntry" where
  "new_entry now_ms node source kcp_connected hops capability =
     (let entry = RouteEntry_init\<lparr>re_node := node\<rparr>;
          entry = set_capability capability entry;
          entry = entry\<lparr>re_last_seen_ms := now_ms, re_kcp_connected := kcp_connected,
                        re_hop_count := hops\<rparr>;
          entry = (if kcp_connected
                   then entry\<lparr>re_state := Tried, re_last_success_ms := now_ms\<rparr> else entry)
      in if valid_source source
         then entry\<lparr>re_source := the source, re_has_source := True\<rparr> else entry)"

definition add_route ::
  "pow_fun \<Rightarrow> layout \<Rightarrow> int \<Rightarrow> NodeAddress \<Rightarrow> NodeAddress option \<Rightarrow> bool \<Rightarrow> u8 \<Rightarrow>
   NodeCapability option \<Rightarrow> RouteManager \<Rightarrow> bool \<times> RouteManager" where
  "add_route pow lay now_ms node source kcp_connected advertised_hop_count capability s =
     (if \<not> valid_route_node node then (False, s)
      else
        let hops = local_hop_count source kcp_connected advertised_hop_count
        in if hops > max_route_hops (rm_config s) then (False, s)
           else case um_find (node_id node) (routes s) of
             Some entry \<Rightarrow>
               (False, s\<lparr>routes := um_update (node_id node)
                           (refresh_entry now_ms node source kcp_connected hops capability)
                           (routes s),
                         kcp_link_count := (if kcp_connected \<and> \<not> re_kcp_connected entry
                                            then kcp_link_count s + 1 else kcp_link_count s)\<rparr>)
           | None \<Rightarrow>
               let s = trim_if_needed pow now_ms s;
                   s = (if length (routes s) \<ge> max_routes (rm_config s)
                        then trim_if_needed pow now_ms s else s)
               in if length (routes s) \<ge> max_routes (rm_config s) then (False, s)
                  else
                    (True, s\<lparr>routes := um_emplace lay (node_id node)
                               (new_entry now_ms node source kcp_connected hops capability)
                               (routes s),
                             kcp_link_count := (if kcp_connected then kcp_link_count s + 1
                                                else kcp_link_count s)\<rparr>))"

definition attempt_entry :: "int \<Rightarrow> RouteEntry \<Rightarrow> RouteEntry" where
  "attempt_entry now_ms entry =
     entry\<lparr>re_last_try_ms := now_ms,
           re_attempts := (if re_attempts entry < 0xffffffff then re_attempts entry + 1
                           else re_attempts entry)\<rparr>"

definition mark_attempt :: "int \<Rightarrow> KcpConv \<Rightarrow> RouteManager \<Rightarrow> bool \<times> RouteManager" where
  "mark_attempt now_ms nid s =
     (case um_find nid (routes s) of
        None \<Rightarrow> (False, s)
      | Some _ \<Rightarrow> (True, s\<lparr>routes := um_update nid (attempt_entry now_ms) (routes s)\<rparr>))"

definition success_entry :: "int \<Rightarrow> bool \<Rightarrow> RouteEntry \<Rightarrow> RouteEntry" where
  "success_entry now_ms kcp_connected entry =
     (let entry = entry\<lparr>re_state := Tried, re_failures := 0, re_attempts := 0,
                        re_last_seen_ms := now_ms, re_last_try_ms := now_ms,
                        re_last_success_ms := now_ms\<rparr>;
          entry = (if kcp_connected \<and> \<not> re_kcp_connected entry
                   then entry\<lparr>re_kcp_connected := True\<rparr> else entry)
      in if kcp_connected then entry\<lparr>re_hop_count := 1, re_has_source := False\<rparr> else entry)"

definition mark_success :: "int \<Rightarrow> KcpConv \<Rightarrow> bool \<Rightarrow> RouteManager \<Rightarrow> bool \<times> RouteManager" where
  "mark_success now_ms nid kcp_connected s =
     (case um_find nid (routes s) of
        None \<Rightarrow> (False, s)
      | Some entry \<Rightarrow>
          (True, s\<lparr>routes := um_update nid (success_entry now_ms kcp_connected) (routes s),
                   kcp_link_count := (if kcp_connected \<and> \<not> re_kcp_connected entry
                                      then kcp_link_count s + 1 else kcp_link_count s)\<rparr>))"

definition failure_entry :: "RouteManagerConfig \<Rightarrow> int \<Rightarrow> RouteEntry \<Rightarrow> RouteEntry" where
  "failure_entry config now_ms entry =
     (let entry = entry\<lparr>re_last_try_ms := now_ms,
                        re_failures := (if re_failures entry < 0xffffffff then re_failures entry + 1
                                        else re_failures entry),
                        re_kcp_connected := False\<rparr>
      in if is_terrible config entry now_ms \<or> re_failures entry \<ge> bad_failure_threshold config
         then entry\<lparr>re_state := Bad\<rparr>
         else if re_last_success_ms entry = 0 then entry\<lparr>re_state := New\<rparr>
         else entry)"

text \<open>The link counter after the entry lost its link; the source guards the decrement.\<close>

definition drop_link :: "RouteEntry \<Rightarrow> nat \<Rightarrow> nat" where
  "drop_link entry links = (if re_kcp_connected entry \<and> links > 0 then links - 1 else links)"

definition mark_failure :: "int \<Rightarrow> KcpConv \<Rightarrow> RouteManager \<Rightarrow> bool \<times> RouteManager" where
  "mark_failure now_ms nid s =
     (case um_find nid (routes s) of
        None \<Rightarrow> (False, s)
      | Some entry \<Rightarrow>
          (True, s\<lparr>routes := um_update nid (failure_entry (rm_config s) now_ms) (routes s),
                   kcp_link_count := drop_link entry (kcp_link_count s)\<rparr>))"

definition mark_kcp_disconnected :: "KcpConv \<Rightarrow> RouteManager \<Rightarrow> bool \<times> RouteManager" where
  "mark_kcp_disconnected nid s =
     (case um_find nid (routes s) of
        None \<Rightarrow> (False, s)
      | Some entry \<Rightarrow>
          (True, s\<lparr>routes := um_update nid (\<lambda>e. e\<lparr>re_kcp_connected := False\<rparr>) (routes s),
                   kcp_link_count := drop_link entry (kcp_link_count s)\<rparr>))"

section \<open>Queries\<close>

definition can_add_kcp_link :: "RouteManager \<Rightarrow> bool" where
  "can_add_kcp_link s \<longleftrightarrow> kcp_link_count s < max_kcp_links (rm_config s)"

definition route_count :: "RouteManager \<Rightarrow> nat" where
  "route_count s = length (routes s)"

definition route_snapshot :: "RouteManager \<Rightarrow> RouteEntry list" where
  "route_snapshot s = map snd (routes s)"

definition select_routes_for_response ::
  "(RouteEntry list \<Rightarrow> RouteEntry list) \<Rightarrow> int \<Rightarrow> RouteManager \<Rightarrow> RouteEntry list" where
  "select_routes_for_response shuffle now_ms s =
     (let candidates = filter (\<lambda>entry. \<not> is_terrible (rm_config s) entry now_ms \<and>
                                       re_state entry \<noteq> Bad) (map snd (routes s))
      in if candidates = [] then []
         else
           let candidates = shuffle candidates;
               pct_limit = (length candidates * unat (max_response_percent (rm_config s)) + 99) div 100;
               limit = max 1 (min (max_response_routes (rm_config s)) pct_limit)
           in if length candidates > limit then take limit candidates else candidates)"

record ScoredRoute =
  sr_entry :: RouteEntry
  sr_score :: real
  sr_tie_breaker :: u64

definition scored_less :: "ScoredRoute \<Rightarrow> ScoredRoute \<Rightarrow> bool" where
  "scored_less lhs rhs =
     (if sr_score lhs \<noteq> sr_score rhs then sr_score lhs > sr_score rhs
      else sr_tie_breaker lhs < sr_tie_breaker rhs)"

definition feeler_eligible :: "pow_fun \<Rightarrow> RouteManagerConfig \<Rightarrow> int \<Rightarrow> RouteEntry \<Rightarrow> bool" where
  "feeler_eligible pow config now_ms entry \<longleftrightarrow>
     \<not> (re_kcp_connected entry \<or> re_state entry = Bad \<or> is_terrible config entry now_ms \<or>
        in_retry_backoff config entry now_ms) \<and>
     \<not> route_score pow config entry now_ms \<le> 0"

text \<open>\<open>rng n\<close> is the \<open>n\<close>-th number drawn for a tie.\<close>

definition select_for_feeler ::
  "pow_fun \<Rightarrow> (nat \<Rightarrow> u64) \<Rightarrow> int \<Rightarrow> RouteManager \<Rightarrow> RouteEntry option" where
  "select_for_feeler pow rng now_ms s =
     (let eligible = filter (feeler_eligible pow (rm_config s) now_ms) (map snd (routes s));
          candidates = map (\<lambda>(i, entry). \<lparr>sr_entry = entry,
                              sr_score = route_score pow (rm_config s) entry now_ms,
                              sr_tie_breaker = rng i\<rparr>) (enumerate 0 eligible)
      in if candidates = [] then None
         else Some (sr_entry (hd (std_sort scored_less candidates))))"

definition select_next_hop :: "KcpConv \<Rightarrow> RouteManager \<Rightarrow> RouteNextHop option" where
  "select_next_hop target_id s =
     (case um_find target_id (routes s) of
        None \<Rightarrow> None
      | Some target \<Rightarrow>
          if re_state target = Bad then None
          else if re_kcp_connected target
          then Some \<lparr>nh_target = re_node target, nh_next_hop = re_node target,
                     nh_direct = True, nh_hop_count = 1\<rparr>
          else if \<not> re_has_source target then None
          else case um_find (node_id (re_source target)) (routes s) of
                 None \<Rightarrow> None
               | Some source \<Rightarrow>
                   if \<not> re_kcp_connected source \<or> re_state source = Bad then None
                   else Some \<lparr>nh_target = re_node target, nh_next_hop = re_node source,
                              nh_direct = False, nh_hop_count = re_hop_count target\<rparr>)"

fun default_hop_loop ::
  "pow_fun \<Rightarrow> RouteManagerConfig \<Rightarrow> int \<Rightarrow> RouteNextHop option \<times> real \<Rightarrow> RouteEntry list \<Rightarrow>
   RouteNextHop option" where
  "default_hop_loop pow config now_ms (best, best_score) [] = best"
| "default_hop_loop pow config now_ms (best, best_score) (entry # rest) =
     (if \<not> re_kcp_connected entry \<or> re_state entry = Bad
      then default_hop_loop pow config now_ms (best, best_score) rest
      else
        let score = route_score pow config entry now_ms
        in if score \<le> 0 then default_hop_loop pow config now_ms (best, best_score) rest
           else if best = None \<or> score > best_score
           then default_hop_loop pow config now_ms
                  (Some \<lparr>nh_target = re_node entry, nh_next_hop = re_node entry,
                         nh_direct = True, nh_hop_count = 1\<rparr>, score) rest
           else default_hop_loop pow config now_ms (best, best_score) rest)"

definition select_default_next_hop :: "pow_fun \<Rightarrow> int \<Rightarrow> RouteManager \<Rightarrow> RouteNextHop option" where
  "select_default_next_hop pow now_ms s =
     default_hop_loop pow (rm_config s) now_ms (None, -1) (map snd (routes s))"

definition find_route :: "KcpConv \<Rightarrow> RouteManager \<Rightarrow> RouteEntry option" where
  "find_route nid s = um_find nid (routes s)"

end
