(* ===== verification/RouteInvariant.thy ===== *)
theory RouteInvariant
  imports RouteManager
begin

text \<open>
  The invariant of the route table and the reachable states: the operations of
  \<open>RouteManager.cpp\<close> as a step relation from an empty table.
\<close>

section \<open>Steps\<close>

inductive rm_step :: "pow_fun \<Rightarrow> RouteManager \<Rightarrow> RouteManager \<Rightarrow> bool" for pow where
  add: "is_layout lay \<Longrightarrow>
    rm_step pow s (snd (add_route pow lay now node source kcp hops capability s))"
| attempt: "rm_step pow s (snd (mark_attempt now nid s))"
| success: "rm_step pow s (snd (mark_success now nid kcp s))"
| failure: "rm_step pow s (snd (mark_failure now nid s))"
| disconnected: "rm_step pow s (snd (mark_kcp_disconnected nid s))"

definition rm_reachable :: "pow_fun \<Rightarrow> RouteManagerConfig \<Rightarrow> RouteManager \<Rightarrow> bool" where
  "rm_reachable pow config s \<longleftrightarrow> (rm_step pow)\<^sup>*\<^sup>* (RouteManager_init config) s"

section \<open>The invariant\<close>

definition hop_limit :: "RouteManagerConfig \<Rightarrow> u8" where
  "hop_limit config = max 1 (max_route_hops config)"

definition entry_ok :: "RouteManagerConfig \<Rightarrow> KcpConv \<Rightarrow> RouteEntry \<Rightarrow> bool" where
  "entry_ok config k e \<longleftrightarrow>
     node_id (re_node e) = k \<and> \<not> conv_empty k \<and> re_hop_count e \<le> hop_limit config \<and>
     (re_kcp_connected e \<longrightarrow> re_state e = Tried \<and> re_hop_count e = 1)"

definition rm_inv :: "RouteManager \<Rightarrow> bool" where
  "rm_inv s \<longleftrightarrow>
     um_ok (routes s) \<and> (\<forall>(k, e) \<in> set (routes s). entry_ok (rm_config s) k e) \<and>
     kcp_link_count s = um_count re_kcp_connected (routes s) \<and>
     length (routes s) \<le> max_routes (rm_config s)"

lemma rm_invD:
  assumes "rm_inv s"
  shows "um_ok (routes s)" "(k, e) \<in> set (routes s) \<Longrightarrow> entry_ok (rm_config s) k e"
    "um_find k (routes s) = Some e \<Longrightarrow> entry_ok (rm_config s) k e"
    "kcp_link_count s = um_count re_kcp_connected (routes s)"
    "length (routes s) \<le> max_routes (rm_config s)"
  using assms um_find_SomeD by (fastforce simp: rm_inv_def)+

lemma init_rm_inv: "rm_inv (RouteManager_init config)"
  by (simp add: rm_inv_def RouteManager_init_def um_ok_def um_count_def)

section \<open>Updates of one entry\<close>

lemma update_rm_inv:
  assumes inv: "rm_inv s" and find: "um_find k (routes s) = Some e"
    and ok: "entry_ok (rm_config s) k (f e)"
    and links: "links + (if re_kcp_connected e then 1 else 0) =
                kcp_link_count s + (if re_kcp_connected (f e) then 1 else 0)"
  shows "rm_inv (s\<lparr>routes := um_update k f (routes s), kcp_link_count := links\<rparr>)"
proof -
  have "um_ok (routes s)" using inv by (rule rm_invD)
  moreover have "e' = e" if "(k, e') \<in> set (routes s)" for e'
    using um_unique [OF \<open>um_ok (routes s)\<close> that um_find_SomeD [OF find]] .
  moreover have "links = um_count re_kcp_connected (um_update k f (routes s))"
    using um_count_update [OF \<open>um_ok (routes s)\<close> find, of re_kcp_connected f] links rm_invD(4) [OF inv]
    by (auto split: if_splits)
  ultimately show ?thesis
    using inv ok by (auto simp: rm_inv_def set_um_update)
qed

lemma count_pos:
  assumes "rm_inv s" "um_find k (routes s) = Some e" "re_kcp_connected e"
  shows "0 < kcp_link_count s"
  using um_find_SomeD [OF assms(2)] assms(3) rm_invD(4) [OF assms(1)]
  by (auto simp: um_count_def filter_empty_conv)

lemma drop_link_eq:
  assumes "rm_inv s" "um_find k (routes s) = Some e"
  shows "drop_link e (kcp_link_count s) + (if re_kcp_connected e then 1 else 0) = kcp_link_count s"
  using count_pos [OF assms] by (auto simp: drop_link_def)

section \<open>Trimming\<close>

lemma find_victim_sound:
  "find_victim pow config now (v, sc) m = Some k \<Longrightarrow>
   v = Some k \<or> (\<exists>e. (k, e) \<in> set m \<and> \<not> re_kcp_connected e)"
proof (induction m arbitrary: v sc)
  case (Cons x m)
  obtain k' e' where x: "x = (k', e')" by force
  show ?case
    using Cons.prems Cons.IH by (auto simp: x Let_def split: if_splits; fastforce)
qed simp

lemma find_victim_some:
  "(k, e) \<in> set m \<Longrightarrow> \<not> re_kcp_connected e \<Longrightarrow> victim_score pow config now e < sc \<Longrightarrow>
   find_victim pow config now (v, sc) m \<noteq> None"
proof (induction m arbitrary: v sc)
  case (Cons x m)
  have keep: "find_victim pow config now (Some a, b) m' \<noteq> None" for a b m'
  proof (induction m' arbitrary: a b)
    case (Cons y m')
    then show ?case by (cases y) (simp add: Let_def)
  qed simp
  obtain k' e' where x: "x = (k', e')" by force
  show ?case
    using Cons.prems Cons.IH keep by (auto simp: x Let_def split: if_splits)
qed simp

lemma erase_unconnected_count:
  assumes "um_ok m" "(k, e) \<in> set m" "\<not> re_kcp_connected e"
  shows "um_count re_kcp_connected (um_erase k m) = um_count re_kcp_connected m"
  unfolding um_erase_def
proof (rule um_count_filter)
  fix k' v assume "(k', v) \<in> set m" "re_kcp_connected v"
  then show "case (k', v) of (k', _) \<Rightarrow> k' \<noteq> k"
    using assms(2,3) um_unique [OF assms(1), of k' v e] by auto
qed

definition alive :: "RouteManager \<Rightarrow> int \<Rightarrow> KcpConv \<times> RouteEntry \<Rightarrow> bool" where
  "alive s now x \<longleftrightarrow> re_kcp_connected (snd x) \<or> \<not> is_terrible (rm_config s) (snd x) now"

lemma trim_cases:
  obtains (small) "trim_if_needed pow now s = s" "length (routes s) < max_routes (rm_config s)"
  | (swept) "max_routes (rm_config s) \<le> length (routes s)"
      "trim_if_needed pow now s = s\<lparr>routes := filter (alive s now) (routes s)\<rparr>"
      "length (filter (alive s now) (routes s)) < max_routes (rm_config s) \<or>
       find_victim pow (rm_config s) now (None, double_max) (filter (alive s now) (routes s)) = None"
  | (evicted) k e where "max_routes (rm_config s) \<le> length (routes s)"
      "(k, e) \<in> set (filter (alive s now) (routes s))" "\<not> re_kcp_connected e"
      "trim_if_needed pow now s = s\<lparr>routes := um_erase k (filter (alive s now) (routes s))\<rparr>"
proof -
  let ?r = "filter (alive s now) (routes s)"
  have r: "filter (\<lambda>(_, entry). \<not> (\<not> re_kcp_connected entry \<and> is_terrible (rm_config s) entry now))
      (routes s) = ?r"
    by (rule filter_cong) (auto simp: alive_def)
  show ?thesis
  proof (cases "length (routes s) < max_routes (rm_config s)")
    case True
    then show ?thesis by (intro small) (simp_all add: trim_if_needed_def)
  next
    case big: False
    show ?thesis
    proof (cases "length ?r < max_routes (rm_config s) \<or>
        find_victim pow (rm_config s) now (None, double_max) ?r = None")
      case True
      then show ?thesis using big r by (intro swept) (auto simp: trim_if_needed_def Let_def)
    next
      case False
      then obtain k where k: "find_victim pow (rm_config s) now (None, double_max) ?r = Some k" by auto
      from find_victim_sound [OF k] obtain e where "(k, e) \<in> set ?r" "\<not> re_kcp_connected e" by auto
      then show ?thesis using big False r k by (intro evicted) (auto simp: trim_if_needed_def Let_def)
    qed
  qed
qed

lemma trim_config [simp]: "rm_config (trim_if_needed pow now s) = rm_config s"
  by (auto simp: trim_if_needed_def Let_def split: option.splits)

lemma trim_links [simp]: "kcp_link_count (trim_if_needed pow now s) = kcp_link_count s"
  by (auto simp: trim_if_needed_def Let_def split: option.splits)

lemma trim_subset: "set (routes (trim_if_needed pow now s)) \<subseteq> set (routes s)"
  by (rule trim_cases [of pow now s]) (auto simp: set_um_erase)

lemma trim_rm_inv:
  assumes "rm_inv s"
  shows "rm_inv (trim_if_needed pow now s)"
proof -
  let ?r = "filter (alive s now) (routes s)"
  have count: "um_count re_kcp_connected ?r = um_count re_kcp_connected (routes s)"
    by (rule um_count_filter) (auto simp: alive_def)
  have len: "length ?r \<le> max_routes (rm_config s)"
    using length_filter_le rm_invD(5) [OF assms] by (rule order_trans)
  have ok: "um_ok ?r" using rm_invD(1) [OF assms] by simp
  show ?thesis
  proof (rule trim_cases [of pow now s])
    fix k e assume ke: "(k, e) \<in> set ?r" "\<not> re_kcp_connected e"
      and t: "trim_if_needed pow now s = s\<lparr>routes := um_erase k ?r\<rparr>"
    have "length (um_erase k ?r) \<le> max_routes (rm_config s)"
      unfolding um_erase_def using length_filter_le len by (rule order_trans)
    then show ?thesis
      using assms t count len ok erase_unconnected_count [OF ok ke]
      by (auto simp: rm_inv_def set_um_erase)
  qed (use assms count len ok in \<open>auto simp: rm_inv_def\<close>)
qed


section \<open>Adding a route\<close>

lemma set_capability_simps [simp]:
  "re_node (set_capability c e) = re_node e" "re_source (set_capability c e) = re_source e"
  "re_state (set_capability c e) = re_state e" "re_has_source (set_capability c e) = re_has_source e"
  "re_kcp_connected (set_capability c e) = re_kcp_connected e"
  "re_hop_count (set_capability c e) = re_hop_count e"
  "re_last_success_ms (set_capability c e) = re_last_success_ms e"
  "re_failures (set_capability c e) = re_failures e"
  by (simp_all add: set_capability_def split: option.splits)

lemma refresh_simps:
  "re_node (refresh_entry now node src kcp hops cap e) = node"
  "re_kcp_connected (refresh_entry now node src kcp hops cap e) \<longleftrightarrow> kcp \<or> re_kcp_connected e"
  "re_hop_count (refresh_entry now node src kcp hops cap e) =
     (if kcp then 1
      else if valid_source src \<and> \<not> re_kcp_connected e \<and> (re_hop_count e = 0 \<or> hops < re_hop_count e)
      then hops else re_hop_count e)"
  "re_has_source (refresh_entry now node src kcp hops cap e) \<longleftrightarrow>
     \<not> kcp \<and> (valid_source src \<and> \<not> re_kcp_connected e \<and> (re_hop_count e = 0 \<or> hops < re_hop_count e)
             \<or> re_has_source e)"
  "re_state (refresh_entry now node src kcp hops cap e) =
     (if kcp then Tried else if re_state e = Bad then New else re_state e)"
  by (simp_all add: refresh_entry_def Let_def)

lemma new_entry_simps:
  "re_node (new_entry now node src kcp hops cap) = node"
  "re_kcp_connected (new_entry now node src kcp hops cap) = kcp"
  "re_hop_count (new_entry now node src kcp hops cap) = hops"
  "re_state (new_entry now node src kcp hops cap) = (if kcp then Tried else New)"
  by (simp_all add: new_entry_def Let_def RouteEntry_init_def)

lemma refresh_ok:
  assumes "entry_ok config (node_id node) e" and "hops \<le> max_route_hops config" and "kcp \<longrightarrow> hops = 1"
  shows "entry_ok config (node_id node) (refresh_entry now node src kcp hops cap e)"
  using assms by (auto simp: entry_ok_def refresh_simps hop_limit_def le_max_iff_disj)

lemma new_entry_ok:
  assumes "\<not> conv_empty (node_id node)" and "hops \<le> max_route_hops config" and "kcp \<longrightarrow> hops = 1"
  shows "entry_ok config (node_id node) (new_entry now node src kcp hops cap)"
  using assms by (auto simp: entry_ok_def new_entry_simps hop_limit_def le_max_iff_disj)

text \<open>The table after both trims of \<open>add_route\<close>.\<close>

definition trimmed :: "pow_fun \<Rightarrow> int \<Rightarrow> RouteManager \<Rightarrow> RouteManager" where
  "trimmed pow now s =
     (let s = trim_if_needed pow now s
      in if length (routes s) \<ge> max_routes (rm_config s) then trim_if_needed pow now s else s)"

lemma trimmed_facts:
  "rm_config (trimmed pow now s) = rm_config s"
  "kcp_link_count (trimmed pow now s) = kcp_link_count s"
  "set (routes (trimmed pow now s)) \<subseteq> set (routes s)"
  "rm_inv s \<Longrightarrow> rm_inv (trimmed pow now s)"
  using trim_subset trim_rm_inv by (auto simp: trimmed_def Let_def subset_iff; blast)+

lemma add_route_cases:
  obtains (refused) "add_route pow lay now node src kcp adv cap s = (False, s)"
      "\<not> valid_route_node node \<or> max_route_hops (rm_config s) < local_hop_count src kcp adv"
  | (known) e where "valid_route_node node" "local_hop_count src kcp adv \<le> max_route_hops (rm_config s)"
      "um_find (node_id node) (routes s) = Some e"
      "add_route pow lay now node src kcp adv cap s =
        (False, s\<lparr>routes := um_update (node_id node)
                    (refresh_entry now node src kcp (local_hop_count src kcp adv) cap) (routes s),
                  kcp_link_count := (if kcp \<and> \<not> re_kcp_connected e then kcp_link_count s + 1
                                     else kcp_link_count s)\<rparr>)"
  | (full) "valid_route_node node" "local_hop_count src kcp adv \<le> max_route_hops (rm_config s)"
      "um_find (node_id node) (routes s) = None"
      "max_routes (rm_config s) \<le> length (routes (trimmed pow now s))"
      "add_route pow lay now node src kcp adv cap s = (False, trimmed pow now s)"
  | (fresh) "valid_route_node node" "local_hop_count src kcp adv \<le> max_route_hops (rm_config s)"
      "um_find (node_id node) (routes s) = None"
      "length (routes (trimmed pow now s)) < max_routes (rm_config s)"
      "add_route pow lay now node src kcp adv cap s =
        (True, (trimmed pow now s)\<lparr>routes := um_emplace lay (node_id node)
                  (new_entry now node src kcp (local_hop_count src kcp adv) cap)
                  (routes (trimmed pow now s)),
                kcp_link_count := (if kcp then kcp_link_count s + 1 else kcp_link_count s)\<rparr>)"
proof (cases "\<not> valid_route_node node \<or> max_route_hops (rm_config s) < local_hop_count src kcp adv")
  case True
  then show ?thesis by (intro refused) (auto simp: add_route_def Let_def)
next
  case ok: False
  show ?thesis
  proof (cases "um_find (node_id node) (routes s)")
    case (Some e)
    then show ?thesis using ok by (intro known [of e]) (auto simp: add_route_def Let_def)
  next
    case None
    have t: "add_route pow lay now node src kcp adv cap s =
      (let s = trimmed pow now s in
       if length (routes s) \<ge> max_routes (rm_config s) then (False, s)
       else (True, s\<lparr>routes := um_emplace lay (node_id node)
                       (new_entry now node src kcp (local_hop_count src kcp adv) cap) (routes s),
                     kcp_link_count := (if kcp then kcp_link_count s + 1 else kcp_link_count s)\<rparr>))"
      using ok None unfolding add_route_def trimmed_def by (simp add: Let_def)
    show ?thesis
    proof (cases "max_routes (rm_config s) \<le> length (routes (trimmed pow now s))")
      case True
      then show ?thesis using ok None t by (intro full) (auto simp: Let_def trimmed_facts)
    next
      case False
      then show ?thesis using ok None t by (intro fresh) (auto simp: Let_def trimmed_facts)
    qed
  qed
qed

lemma trimmed_find_None:
  "um_find k (routes s) = None \<Longrightarrow> um_find k (routes (trimmed pow now s)) = None"
  using trimmed_facts(3) [of pow now s] by (auto simp: um_find_None_iff)

lemma hops_kcp: "kcp \<longrightarrow> local_hop_count src kcp adv = 1"
  by (simp add: local_hop_count_def)


lemma emplace_rm_inv:
  assumes inv: "rm_inv s" and lay: "is_layout lay" and none: "um_find k (routes s) = None"
    and ok: "entry_ok (rm_config s) k e" and room: "length (routes s) < max_routes (rm_config s)"
  shows "rm_inv (s\<lparr>routes := um_emplace lay k e (routes s),
                   kcp_link_count := (if re_kcp_connected e then kcp_link_count s + 1
                                      else kcp_link_count s)\<rparr>)"
proof -
  have m: "mset (um_emplace lay k e (routes s)) = mset ((k, e) # routes s)"
    using mset_um_emplace [OF lay none] by simp
  have "set (um_emplace lay k e (routes s)) = insert (k, e) (set (routes s))"
    "length (um_emplace lay k e (routes s)) = Suc (length (routes s))"
    using mset_eq_setD [OF m] mset_eq_length [OF m] by simp_all
  then show ?thesis
    using inv ok room um_ok_emplace [OF lay] um_count_emplace [OF lay none, of re_kcp_connected]
    by (auto simp: rm_inv_def)
qed

lemma add_route_rm_inv:
  assumes inv: "rm_inv s" and lay: "is_layout lay"
  shows "rm_inv (snd (add_route pow lay now node src kcp adv cap s))"
proof (rule add_route_cases [of pow lay now node src kcp adv cap s])
  fix e assume k: "valid_route_node node" "local_hop_count src kcp adv \<le> max_route_hops (rm_config s)"
    "um_find (node_id node) (routes s) = Some e"
    "add_route pow lay now node src kcp adv cap s =
        (False, s\<lparr>routes := um_update (node_id node)
                    (refresh_entry now node src kcp (local_hop_count src kcp adv) cap) (routes s),
                  kcp_link_count := (if kcp \<and> \<not> re_kcp_connected e then kcp_link_count s + 1
                                     else kcp_link_count s)\<rparr>)"
  show ?thesis
    unfolding k(4) snd_conv
    by (rule update_rm_inv [OF inv k(3)])
      (use rm_invD(3) [OF inv k(3)] k(2) hops_kcp in \<open>auto intro!: refresh_ok simp: refresh_simps\<close>)
next
  assume k: "valid_route_node node" "local_hop_count src kcp adv \<le> max_route_hops (rm_config s)"
    "um_find (node_id node) (routes s) = None"
    "length (routes (trimmed pow now s)) < max_routes (rm_config s)"
    "add_route pow lay now node src kcp adv cap s =
        (True, (trimmed pow now s)\<lparr>routes := um_emplace lay (node_id node)
                  (new_entry now node src kcp (local_hop_count src kcp adv) cap)
                  (routes (trimmed pow now s)),
                kcp_link_count := (if kcp then kcp_link_count s + 1 else kcp_link_count s)\<rparr>)"
  have "entry_ok (rm_config s) (node_id node) (new_entry now node src kcp (local_hop_count src kcp adv) cap)"
    using k hops_kcp by (intro new_entry_ok) (auto simp: valid_route_node_def)
  then show ?thesis
    unfolding k(5)
    using emplace_rm_inv [OF trimmed_facts(4) [OF inv, of pow now] lay trimmed_find_None [OF k(3)],
        of "new_entry now node src kcp (local_hop_count src kcp adv) cap"] k(4)
    by (cases kcp) (simp_all add: trimmed_facts new_entry_simps)
qed (use inv trimmed_facts(4) in auto)

section \<open>The marking operations\<close>

lemma mark_attempt_rm_inv: "rm_inv s \<Longrightarrow> rm_inv (snd (mark_attempt now nid s))"
  using update_rm_inv [of s nid _ "attempt_entry now" "kcp_link_count s"] rm_invD(3) [of s nid]
  by (auto simp: mark_attempt_def attempt_entry_def entry_ok_def split: option.splits)

lemma success_simps:
  "re_node (success_entry now kcp e) = re_node e"
  "re_kcp_connected (success_entry now kcp e) \<longleftrightarrow> kcp \<or> re_kcp_connected e"
  "re_hop_count (success_entry now kcp e) = (if kcp then 1 else re_hop_count e)"
  "re_state (success_entry now kcp e) = Tried"
  by (simp_all add: success_entry_def Let_def)

lemma mark_success_rm_inv:
  assumes "rm_inv s"
  shows "rm_inv (snd (mark_success now nid kcp s))"
proof (cases "um_find nid (routes s)")
  case (Some e)
  have "entry_ok (rm_config s) nid (success_entry now kcp e)"
    using rm_invD(3) [OF assms Some] by (auto simp: entry_ok_def success_simps hop_limit_def)
  with update_rm_inv [OF assms Some, of "success_entry now kcp"] show ?thesis
    using Some by (simp add: mark_success_def success_simps)
qed (simp add: assms mark_success_def)

lemma failure_simps:
  "re_node (failure_entry config now e) = re_node e"
  "re_kcp_connected (failure_entry config now e) = False"
  "re_hop_count (failure_entry config now e) = re_hop_count e"
  by (simp_all add: failure_entry_def Let_def)

lemma mark_failure_rm_inv:
  assumes "rm_inv s"
  shows "rm_inv (snd (mark_failure now nid s))"
proof (cases "um_find nid (routes s)")
  case (Some e)
  have "entry_ok (rm_config s) nid (failure_entry (rm_config s) now e)"
    using rm_invD(3) [OF assms Some] by (auto simp: entry_ok_def failure_simps)
  with update_rm_inv [OF assms Some, of "failure_entry (rm_config s) now"] show ?thesis
    using Some drop_link_eq [OF assms Some] by (simp add: mark_failure_def failure_simps)
qed (simp add: assms mark_failure_def)

lemma mark_kcp_disconnected_rm_inv:
  assumes "rm_inv s"
  shows "rm_inv (snd (mark_kcp_disconnected nid s))"
proof (cases "um_find nid (routes s)")
  case (Some e)
  have "entry_ok (rm_config s) nid (e\<lparr>re_kcp_connected := False\<rparr>)"
    using rm_invD(3) [OF assms Some] by (auto simp: entry_ok_def)
  with update_rm_inv [OF assms Some, of "\<lambda>e. e\<lparr>re_kcp_connected := False\<rparr>"] show ?thesis
    using Some drop_link_eq [OF assms Some] by (simp add: mark_kcp_disconnected_def)
qed (simp add: assms mark_kcp_disconnected_def)

section \<open>Reachable tables\<close>

lemma rm_step_inv: "rm_step pow s s' \<Longrightarrow> rm_inv s \<Longrightarrow> rm_inv s'"
  by (induction rule: rm_step.induct)
    (simp_all add: add_route_rm_inv mark_attempt_rm_inv mark_success_rm_inv mark_failure_rm_inv
      mark_kcp_disconnected_rm_inv)

lemma add_route_config [simp]:
  "rm_config (snd (add_route pow lay now node src kcp adv cap s)) = rm_config s"
  by (rule add_route_cases [of pow lay now node src kcp adv cap s]) (simp_all add: trimmed_facts)

lemma rm_step_config: "rm_step pow s s' \<Longrightarrow> rm_config s' = rm_config s"
  by (induction rule: rm_step.induct)
    (simp_all add: mark_attempt_def mark_success_def mark_failure_def mark_kcp_disconnected_def
      split: option.splits)

lemma reachable_inv:
  assumes "rm_reachable pow config s"
  shows "rm_inv s" and "rm_config s = config"
proof -
  have "rm_inv s \<and> rm_config s = config"
    using assms unfolding rm_reachable_def
  proof (induction rule: rtranclp_induct)
    case base
    show ?case by (simp add: init_rm_inv) (simp add: RouteManager_init_def)
  qed (auto dest: rm_step_inv rm_step_config)
  then show "rm_inv s" "rm_config s = config" by simp_all
qed

lemma reachable_init: "rm_reachable pow config (RouteManager_init config)"
  by (simp add: rm_reachable_def)

lemma reachable_step: "rm_reachable pow config s \<Longrightarrow> rm_step pow s s' \<Longrightarrow> rm_reachable pow config s'"
  by (simp add: rm_reachable_def)

end
