(* ===== verification/RouteProps.thy ===== *)
theory RouteProps
  imports RouteInvariant
begin

text \<open>
  What the route table promises its clients: the choice of next hops, of nodes to probe and of
  routes to advertise, the capacity of the table, and what happens to a route whose link fails.
\<close>

section \<open>Scores are bounded\<close>

lemma rnd64_le_int: "x \<le> real_of_int k \<Longrightarrow> \<bar>k\<bar> < 2 ^ 53 \<Longrightarrow> rnd64 x \<le> real_of_int k"
  using rnd64_mono [of x "real_of_int k"] rnd64_of_int [of k] by simp

lemma rnd64_le_1: "x \<le> 1 \<Longrightarrow> rnd64 x \<le> 1"
  using rnd64_le_int [of x 1] by simp

lemma rnd64_le_2: "x \<le> 2 \<Longrightarrow> rnd64 x \<le> 2"
  using rnd64_le_int [of x 2] by simp

lemma rnd64_le_4: "x \<le> 4 \<Longrightarrow> rnd64 x \<le> 4"
  using rnd64_le_int [of x 4] by simp

definition pow_ok :: "pow_fun \<Rightarrow> bool" where
  "pow_ok pow \<longleftrightarrow> (\<forall>x y. 0 \<le> x \<longrightarrow> x \<le> 1 \<longrightarrow> 0 \<le> y \<longrightarrow> 0 \<le> pow x y \<and> pow x y \<le> 1)"

lemma unit_mult: "0 \<le> a \<Longrightarrow> a \<le> 1 \<Longrightarrow> 0 \<le> b \<Longrightarrow> b \<le> c \<Longrightarrow> a * b \<le> (c :: real)"
  using mult_mono [of a 1 b c] by simp

lemma route_chance_bounds:
  assumes "pow_ok pow"
  shows "0 \<le> route_chance pow e now" "route_chance pow e now \<le> 2"
proof -
  have p: "0 \<le> pow (rnd64 (66 / 100)) (rnd64 (real n))" "pow (rnd64 (66 / 100)) (rnd64 (real n)) \<le> 1" for n
    using assms rnd64_le_1 [of "66 / 100"] ieee.nonneg [of "66 / 100"] ieee.nonneg [of "real n"]
    by (simp_all add: pow_ok_def)
  define c where "c = (if re_last_try_ms e \<noteq> 0 \<and> re_last_try_ms e > now - kRecentTryPenaltyMs
      then rnd64 (1 * rnd64 (1 / 100)) else 1)"
  have c: "0 \<le> c" "c \<le> 1" by (simp_all add: c_def ieee.nonneg rnd64_le_1)
  define n where "n = unat (min (re_attempts e) 8)"
  define d where "d = rnd64 (c * pow (rnd64 (66 / 100)) (rnd64 (real n)))"
  have "c * pow (rnd64 (66 / 100)) (rnd64 (real n)) \<le> 1" for n
    using c p unit_mult by simp
  then have d: "0 \<le> d" "d \<le> 1" unfolding d_def using c p by (auto intro!: ieee.nonneg rnd64_le_1)
  have k: "0 \<le> rnd64 (125 / 100)" "rnd64 (125 / 100) \<le> 2" "0 \<le> rnd64 (5 / 100)" "rnd64 (5 / 100) \<le> 2"
    by (simp_all add: ieee.nonneg rnd64_le_2)
  have r: "route_chance pow e now =
      (if re_state e = Tried then rnd64 (d * rnd64 (125 / 100))
       else if re_state e = Bad then rnd64 (d * rnd64 (5 / 100)) else d)"
    unfolding route_chance_def Let_def d_def c_def n_def by simp
  show "0 \<le> route_chance pow e now" using d k by (auto simp: r intro!: ieee.nonneg)
  show "route_chance pow e now \<le> 2"
    using d k unit_mult [of d "rnd64 (125 / 100)" 2] unit_mult [of d "rnd64 (5 / 100)" 2]
    by (auto simp: r intro!: rnd64_le_2)
qed

lemma capability_top:
  fixes load :: real
  defines "l \<equiv> max 0 (min 1 load)"
  shows "0 \<le> rnd64 (rnd64 (1 / 10) + rnd64 (rnd64 (9 / 10) * rnd64 (1 - l)))"
    "rnd64 (rnd64 (1 / 10) + rnd64 (rnd64 (9 / 10) * rnd64 (1 - l))) \<le> 2"
proof -
  have l: "0 \<le> rnd64 (1 - l)" "rnd64 (1 - l) \<le> 1"
    unfolding l_def by (simp_all add: ieee.nonneg rnd64_le_1)
  have k: "0 \<le> rnd64 (1 / 10)" "rnd64 (1 / 10) \<le> 1" "0 \<le> rnd64 (9 / 10)" "rnd64 (9 / 10) \<le> 1"
    by (simp_all add: ieee.nonneg rnd64_le_1)
  have "rnd64 (9 / 10) * rnd64 (1 - l) \<le> 1" using k l unit_mult by simp
  then have m: "0 \<le> rnd64 (rnd64 (9 / 10) * rnd64 (1 - l))" "rnd64 (rnd64 (9 / 10) * rnd64 (1 - l)) \<le> 1"
    using k l by (simp_all add: ieee.nonneg rnd64_le_1)
  show "0 \<le> rnd64 (rnd64 (1 / 10) + rnd64 (rnd64 (9 / 10) * rnd64 (1 - l)))"
    "rnd64 (rnd64 (1 / 10) + rnd64 (rnd64 (9 / 10) * rnd64 (1 - l))) \<le> 2"
    using k m by (simp_all add: ieee.nonneg rnd64_le_2)
qed

lemma capability_score_bounds:
  "0 \<le> capability_score config e now" "capability_score config e now \<le> 2"
proof -
  define small where "small x \<longleftrightarrow> 0 \<le> x \<and> x \<le> 2" for x :: real
  have split: "small a \<Longrightarrow> small b \<Longrightarrow> small (if c then a else b)" for a b c by simp
  have base: "small 0" "small 1" "small (rnd64 (1 / 2))"
    by (simp_all add: small_def ieee.nonneg rnd64_le_2)
  have top: "small (rnd64 (rnd64 (1 / 10) + rnd64 (rnd64 (9 / 10) * rnd64 (1 - max 0 (min 1 l)))))" for l
    unfolding small_def using capability_top by blast
  have "small (capability_score config e now)"
    unfolding capability_score_def Let_def by (intro split base top)
  then show "0 \<le> capability_score config e now" "capability_score config e now \<le> 2"
    by (simp_all add: small_def)
qed

lemma route_score_bounds:
  assumes "pow_ok pow"
  shows "0 \<le> route_score pow config e now" "route_score pow config e now \<le> 4"
proof -
  let ?s = "rnd64 (route_chance pow e now * capability_score config e now)"
  have "route_chance pow e now * capability_score config e now \<le> 2 * 2"
    using route_chance_bounds [OF assms] capability_score_bounds by (intro mult_mono) auto
  then have s: "0 \<le> ?s" "?s \<le> 4"
    using route_chance_bounds [OF assms] capability_score_bounds
    by (auto intro!: ieee.nonneg rnd64_le_4)
  have "?s / rnd64 (real n) \<le> ?s" if "1 \<le> n" for n
  proof -
    have "1 \<le> rnd64 (real n)" using that by (intro rnd64_ge_1) simp
    then show ?thesis using s(1) by (simp add: divide_le_eq mult_le_cancel_left1)
  qed
  moreover have "1 \<le> unat (re_hop_count e)" if "1 < re_hop_count e"
    using that by (simp add: word_less_nat_alt)
  ultimately have "1 < re_hop_count e \<Longrightarrow> ?s / rnd64 (real (unat (re_hop_count e))) \<le> 4"
    using s(2) by (meson order_trans)
  then show "0 \<le> route_score pow config e now" "route_score pow config e now \<le> 4"
    using s by (auto simp: route_score_def Let_def intro!: ieee.nonneg rnd64_le_4 divide_nonneg_nonneg)
qed

lemma victim_score_small:
  assumes "pow_ok pow"
  shows "victim_score pow config now e < double_max"
proof -
  have k: "0 \<le> rnd64 (1 / 100)" "rnd64 (1 / 100) \<le> 1" by (simp_all add: ieee.nonneg rnd64_le_1)
  have "rnd64 (1 / 100) * route_score pow config e now \<le> 4"
    using unit_mult [OF k route_score_bounds [OF assms]] .
  then have "victim_score pow config now e \<le> 4"
    using route_score_bounds [OF assms]
    by (simp add: victim_score_def Let_def rnd64_le_4 mult.commute)
  also have "4 < double_max" by (simp add: double_max_def)
  finally show ?thesis .
qed


section \<open>Trimming makes room unless every route is a live link\<close>

lemma trim_room:
  assumes inv: "rm_inv s" and pow: "pow_ok pow"
    and ke: "(k, e) \<in> set (routes s)" "\<not> re_kcp_connected e"
  shows "length (routes (trim_if_needed pow now s)) < max_routes (rm_config s)"
proof -
  let ?r = "filter (alive s now) (routes s)"
  have le: "length ?r \<le> max_routes (rm_config s)"
    using length_filter_le rm_invD(5) [OF inv] by (rule order_trans)
  have ok: "um_ok ?r" using rm_invD(1) [OF inv] by simp
  show ?thesis
  proof (rule trim_cases [of pow now s])
    assume t: "trim_if_needed pow now s = s\<lparr>routes := ?r\<rparr>"
      and c: "length ?r < max_routes (rm_config s) \<or>
              find_victim pow (rm_config s) now (None, double_max) ?r = None"
    have "(k, e) \<notin> set ?r" if "find_victim pow (rm_config s) now (None, double_max) ?r = None"
      using find_victim_some [OF _ ke(2) victim_score_small [OF pow]] that by blast
    with c have "length ?r < max_routes (rm_config s) \<or> (k, e) \<notin> set ?r" by argo
    moreover have "length ?r < length (routes s)" if "(k, e) \<notin> set ?r"
      using that ke(1) length_filter_less [of "(k, e)" "routes s" "alive s now"] by simp
    ultimately show ?thesis using t rm_invD(5) [OF inv] by auto
  next
    fix k' e' assume "(k', e') \<in> set ?r"
      and t: "trim_if_needed pow now s = s\<lparr>routes := um_erase k' ?r\<rparr>"
    then have "Suc (length (um_erase k' ?r)) = length ?r" using length_um_erase [OF ok] by blast
    then show ?thesis using t le by simp
  qed simp
qed

lemma trim_all_connected:
  assumes "\<And>k e. (k, e) \<in> set (routes s) \<Longrightarrow> re_kcp_connected e"
  shows "trim_if_needed pow now s = s"
proof -
  have r: "filter (alive s now) (routes s) = routes s"
    using assms by (auto simp: filter_id_conv alive_def)
  show ?thesis
  proof (rule trim_cases [of pow now s])
    assume "trim_if_needed pow now s = s\<lparr>routes := filter (alive s now) (routes s)\<rparr>"
    then show ?thesis unfolding r by simp
  next
    fix k e assume "(k, e) \<in> set (filter (alive s now) (routes s))" "\<not> re_kcp_connected e"
    then show ?thesis using assms [of k e] by simp
  qed
qed

lemma trim_keeps_connected:
  assumes inv: "rm_inv s" and "(k, e) \<in> set (routes s)" "re_kcp_connected e"
  shows "(k, e) \<in> set (routes (trim_if_needed pow now s))"
proof -
  have ne: "k' \<noteq> k" if "(k', e') \<in> set (routes s)" "\<not> re_kcp_connected e'" for k' e'
    using um_unique [OF rm_invD(1) [OF inv] that(1), of e] that assms by auto
  show ?thesis
    by (rule trim_cases [of pow now s]) (use ne assms(2,3) in \<open>auto simp: set_um_erase alive_def\<close>)
qed

lemma trimmed_keeps_connected:
  "rm_inv s \<Longrightarrow> (k, e) \<in> set (routes s) \<Longrightarrow> re_kcp_connected e \<Longrightarrow>
   (k, e) \<in> set (routes (trimmed pow now s))"
  by (simp add: trimmed_def Let_def trim_keeps_connected trim_rm_inv)

lemma trimmed_room_iff:
  assumes inv: "rm_inv s" and pow: "pow_ok pow"
  shows "length (routes (trimmed pow now s)) < max_routes (rm_config s) \<longleftrightarrow>
         length (routes s) < max_routes (rm_config s) \<or>
         (\<exists>(k, e) \<in> set (routes s). \<not> re_kcp_connected e)"
proof (cases "\<exists>(k, e) \<in> set (routes s). \<not> re_kcp_connected e")
  case True
  then obtain k e where "(k, e) \<in> set (routes s)" "\<not> re_kcp_connected e" by auto
  from trim_room [OF inv pow this, of now] have "trimmed pow now s = trim_if_needed pow now s"
    by (simp add: trimmed_def Let_def)
  then show ?thesis
    using trim_room [OF inv pow \<open>(k, e) \<in> set (routes s)\<close> \<open>\<not> re_kcp_connected e\<close>, of now] True by simp
next
  case False
  then have "trim_if_needed pow now s = s" by (intro trim_all_connected) auto
  then have "trimmed pow now s = s" by (simp add: trimmed_def)
  with False show ?thesis by simp
qed

section \<open>The default hop\<close>

definition default_eligible :: "pow_fun \<Rightarrow> RouteManagerConfig \<Rightarrow> int \<Rightarrow> RouteEntry \<Rightarrow> bool" where
  "default_eligible pow config now e \<longleftrightarrow>
     re_kcp_connected e \<and> re_state e \<noteq> Bad \<and> 0 < route_score pow config e now"

definition direct_hop :: "RouteEntry \<Rightarrow> RouteNextHop" where
  "direct_hop e = \<lparr>nh_target = re_node e, nh_next_hop = re_node e, nh_direct = True, nh_hop_count = 1\<rparr>"

lemma default_hop_loop_pick:
  "(\<And>b. best = Some b \<Longrightarrow> bs = route_score pow config b now) \<Longrightarrow>
   default_hop_loop pow config now (map_option direct_hop best, bs) es =
   map_option direct_hop
     (pick_max (default_eligible pow config now) (\<lambda>e. route_score pow config e now) best es)"
proof (induction es arbitrary: best bs)
  case (Cons e es)
  let ?sc = "\<lambda>e. route_score pow config e now" and ?el = "default_eligible pow config now"
  have hop: "Some \<lparr>nh_target = re_node e, nh_next_hop = re_node e, nh_direct = True, nh_hop_count = 1\<rparr> =
      map_option direct_hop (Some e)" by (simp add: direct_hop_def)
  show ?case
  proof (cases "?el e \<and> (case best of None \<Rightarrow> True | Some b \<Rightarrow> ?sc b < ?sc e)")
    case True
    then have eq: "default_hop_loop pow config now (map_option direct_hop best, bs) (e # es) =
        default_hop_loop pow config now (map_option direct_hop (Some e), ?sc e) es"
      using Cons.prems unfolding default_hop_loop.simps hop
      by (auto simp: Let_def default_eligible_def split: option.splits)
    have "pick_max ?el ?sc best (e # es) = pick_max ?el ?sc (Some e) es"
      using True by (simp only: pick_max.simps if_True simp_thms)
    then show ?thesis unfolding eq by (simp only:) (rule Cons.IH, simp)
  next
    case False
    then have eq: "default_hop_loop pow config now (map_option direct_hop best, bs) (e # es) =
        default_hop_loop pow config now (map_option direct_hop best, bs) es"
      using Cons.prems by (auto simp: Let_def default_eligible_def split: option.splits)
    have "pick_max ?el ?sc best (e # es) = pick_max ?el ?sc best es"
      using False by (simp only: pick_max.simps if_False)
    then show ?thesis unfolding eq by (simp only:) (rule Cons.IH [OF Cons.prems])
  qed
qed simp

lemma select_default_pick:
  "select_default_next_hop pow now s =
   map_option direct_hop (pick_max (default_eligible pow (rm_config s) now)
     (\<lambda>e. route_score pow (rm_config s) e now) None (map snd (routes s)))"
  using default_hop_loop_pick [of None] by (simp add: select_default_next_hop_def)


section \<open>Nodes the witnesses use\<close>

lemma sample_simps [simp]:
  "node_id (sample_node n) = from_uint32 n"
  "valid_route_node (sample_node 1)" "valid_route_node (sample_node 2)"
  by (simp_all add: valid_route_node_def)

definition sample_config :: RouteManagerConfig where
  "sample_config = RouteManagerConfig_default\<lparr>max_routes := 1\<rparr>"

text \<open>A table of capacity 1 that holds node 1: not connected, or connected.\<close>

definition sample_table :: "bool \<Rightarrow> RouteManager" where
  "sample_table kcp = snd (add_route (\<lambda>x y. 1) (\<lambda>m. m) 1000 (sample_node 1) None kcp 0 None
     (RouteManager_init sample_config))"

lemma sample_reachable: "rm_reachable (\<lambda>x y. 1) sample_config (sample_table kcp)"
  unfolding sample_table_def
  by (intro reachable_step [OF reachable_init] rm_step.add is_layout_id)

lemma sample_pow: "pow_ok (\<lambda>x y. 1)"
  by (simp add: pow_ok_def)

lemma sample_table_simps:
  "rm_config (sample_table kcp) = sample_config"
  "routes (sample_table kcp) = [(from_uint32 1, new_entry 1000 (sample_node 1) None kcp (if kcp then 1 else 0) None)]"
  "kcp_link_count (sample_table kcp) = (if kcp then 1 else 0)"
  by (simp_all add: sample_table_def add_route_def RouteManager_init_def sample_config_def
      RouteManagerConfig_default_def local_hop_count_def valid_source_def trim_if_needed_def Let_def
      um_emplace_def um_find_def)

end
