(* ===== verification/RouteClaims.thy ===== *)
theory RouteClaims
  imports RouteProps
begin

text \<open>The properties of the route table, over every table the operations can produce.\<close>

section \<open>The table\<close>





section \<open>Choosing hops\<close>

text \<open>
  C9: A next hop is always usable. If \<open>select_next_hop\<close> answers for a target, the target is in the
  table and not bad, and the node to send to is in the table under its own identifier with a live
  KCP link; the answer is marked direct exactly when that node is the target itself; a relayed
  answer names the node the target was learnt from; and the hop count respects the limit.
\<close>

theorem next_hop_sound:
  assumes reach: "rm_reachable pow config s" and hop: "select_next_hop target s = Some h"
  shows "\<exists>t r. find_route target s = Some t \<and> re_state t \<noteq> Bad \<and> nh_target h = re_node t \<and>
    node_id (nh_target h) = target \<and>
    find_route (node_id (nh_next_hop h)) s = Some r \<and> re_kcp_connected r \<and> nh_next_hop h = re_node r \<and>
    (nh_direct h \<longleftrightarrow> node_id (nh_next_hop h) = target) \<and>
    (nh_direct h \<or> node_id (nh_next_hop h) = node_id (re_source t)) \<and>
    nh_hop_count h \<le> max 1 (max_route_hops config)"
proof -
  note inv = reachable_inv(1) [OF reach] and cfg = reachable_inv(2) [OF reach]
  obtain t where t: "um_find target (routes s) = Some t" "re_state t \<noteq> Bad"
    using hop by (auto simp: select_next_hop_def split: option.splits if_splits)
  have tid: "node_id (re_node t) = target" "re_hop_count t \<le> max 1 (max_route_hops config)"
    using rm_invD(3) [OF inv t(1)] cfg by (simp_all add: entry_ok_def hop_limit_def)
  show ?thesis
  proof (cases "re_kcp_connected t")
    case True
    then show ?thesis using hop t tid by (auto simp: select_next_hop_def find_route_def)
  next
    case False
    then obtain r where r: "um_find (node_id (re_source t)) (routes s) = Some r" "re_kcp_connected r"
      and h: "h = \<lparr>nh_target = re_node t, nh_next_hop = re_node r, nh_direct = False,
                   nh_hop_count = re_hop_count t\<rparr>"
      using hop t by (auto simp: select_next_hop_def split: option.splits if_splits)
    have rid: "node_id (re_node r) = node_id (re_source t)"
      using rm_invD(3) [OF inv r(1)] by (simp add: entry_ok_def)
    have "node_id (re_source t) \<noteq> target" using r t False by auto
    then show ?thesis using h r t tid rid by (auto simp: find_route_def)
  qed
qed

theorem next_hop_sound_witness:
  "\<exists>h. select_next_hop (from_uint32 1) (sample_table True) = Some h \<and>
       node_id (nh_target h) = from_uint32 1 \<and> nh_direct h"
proof -
  obtain h where h: "select_next_hop (from_uint32 1) (sample_table True) = Some h"
    by (simp add: select_next_hop_def sample_table_simps um_find_def new_entry_simps)
  have "find_route k (sample_table True) = Some r \<Longrightarrow> k = from_uint32 1" for k r
    by (simp add: find_route_def sample_table_simps um_find_def split: if_splits)
  with next_hop_sound [OF sample_reachable h] h show ?thesis by metis
qed

text \<open>
  C12: The default next hop is a best live link: the answer is the direct hop to a connected node
  whose positive score no other connected node exceeds, and there is no answer exactly when no
  connected node has a positive score.
\<close>

theorem default_hop_optimal:
  assumes reach: "rm_reachable pow config s"
  shows "case select_default_next_hop pow now s of
    None \<Rightarrow> \<forall>(k, e) \<in> set (routes s). re_kcp_connected e \<longrightarrow> route_score pow config e now \<le> 0
  | Some h \<Rightarrow> \<exists>(k, e) \<in> set (routes s). re_kcp_connected e \<and> 0 < route_score pow config e now \<and>
      nh_next_hop h = re_node e \<and> nh_target h = re_node e \<and> nh_direct h \<and>
      (\<forall>(k', e') \<in> set (routes s). re_kcp_connected e' \<longrightarrow>
         route_score pow config e' now \<le> route_score pow config e now)"
proof -
  note inv = reachable_inv(1) [OF reach] and cfg = reachable_inv(2) [OF reach]
  let ?el = "default_eligible pow config now" and ?sc = "\<lambda>e. route_score pow config e now"
  have el: "?el e \<longleftrightarrow> re_kcp_connected e \<and> 0 < ?sc e" if "(k, e) \<in> set (routes s)" for k e
    using rm_invD(2) [OF inv that] by (auto simp: default_eligible_def entry_ok_def)
  show ?thesis
  proof (cases "pick_max ?el ?sc None (map snd (routes s))")
    case None
    then have sel: "select_default_next_hop pow now s = None" by (simp add: select_default_pick cfg)
    have "\<not> ?el e" if "(k, e) \<in> set (routes s)" for k e using None that by (force simp: pick_max_None)
    then show ?thesis using el by (auto simp: sel not_less)
  next
    case (Some m)
    from pick_max_Some [OF Some] obtain k where m: "(k, m) \<in> set (routes s)" "?el m" by auto
    have max: "?sc e' \<le> ?sc m" if "(k', e') \<in> set (routes s)" "?el e'" for k' e'
      using pick_max_Some [OF Some] that by force
    have "?sc e' \<le> ?sc m" if "(k', e') \<in> set (routes s)" "re_kcp_connected e'" for k' e'
      using max [OF that(1)] el [OF that(1)] el [OF m(1)] m(2) that(2) by (cases "0 < ?sc e'") auto
    moreover have "select_default_next_hop pow now s = Some (direct_hop m)"
      using Some by (simp add: select_default_pick cfg)
    ultimately show ?thesis
      using m el [OF m(1)] by (auto simp: direct_hop_def intro!: bexI [OF _ m(1)])
  qed
qed

lemma sample_score: "route_score (\<lambda>x y. 1) sample_config (new_entry 1000 (sample_node 1) None True 1 None) 5000 = 5 / 4"
proof -
  have "rnd64 (5 / 4) = 5 / 4" by (rule rnd64_representable [of _ 5 "- 2"]) (simp_all add: powr_minus_divide)
  moreover have "rnd64 1 = 1" using rnd64_of_nat [of 1] by simp
  ultimately show ?thesis
    by (simp add: route_score_def route_chance_def capability_score_def new_entry_def RouteEntry_init_def
        set_capability_def NodeCapability_init_def valid_source_def Let_def)
qed

theorem default_hop_optimal_witness:
  "\<exists>h. select_default_next_hop (\<lambda>x y. 1) 5000 (sample_table True) = Some h \<and> nh_next_hop h = sample_node 1"
  using default_hop_optimal [OF sample_reachable [of True], of 5000] sample_score
  by (auto simp: sample_table_simps new_entry_simps split: option.splits)


text \<open>
  The node chosen for a probe is eligible (in the table, without a live link, not bad, not
  terrible, out of its retry back-off, with a positive score) and no eligible node scores higher;
  there is no choice exactly when no node is eligible. This holds for every sequence of random
  tie breakers.
\<close>

theorem feeler_best:
  "case select_for_feeler pow rng now s of
     None \<Rightarrow> \<forall>e \<in> snd ` set (routes s). \<not> feeler_eligible pow (rm_config s) now e
   | Some e \<Rightarrow> e \<in> snd ` set (routes s) \<and> \<not> re_kcp_connected e \<and> re_state e \<noteq> Bad \<and>
       \<not> is_terrible (rm_config s) e now \<and> \<not> in_retry_backoff (rm_config s) e now \<and>
       0 < route_score pow (rm_config s) e now \<and>
       (\<forall>e' \<in> snd ` set (routes s). feeler_eligible pow (rm_config s) now e' \<longrightarrow>
          route_score pow (rm_config s) e' now \<le> route_score pow (rm_config s) e now)"
proof -
  define es where "es = filter (feeler_eligible pow (rm_config s) now) (map snd (routes s))"
  let ?score = "\<lambda>e. route_score pow (rm_config s) e now"
  let ?f = "\<lambda>(i, entry). \<lparr>sr_entry = entry, sr_score = ?score entry, sr_tie_breaker = rng i\<rparr>"
  define cs where "cs = map ?f (enumerate 0 es)"
  have sel: "select_for_feeler pow rng now s =
      (if cs = [] then None else Some (sr_entry (hd (std_sort scored_less cs))))"
    by (simp add: select_for_feeler_def es_def cs_def Let_def)
  have map_cs: "map sr_entry cs = es" by (simp add: cs_def comp_def split_beta)
  have cs_es: "sr_entry ` set cs = set es" "cs = [] \<longleftrightarrow> es = []"
    using map_cs by (auto simp flip: set_map)
  have sc: "sr_score c = ?score (sr_entry c)" if "c \<in> set cs" for c
    using that by (auto simp: cs_def)
  have mem: "set es = {e \<in> snd ` set (routes s). feeler_eligible pow (rm_config s) now e}"
    by (auto simp: es_def)
  show ?thesis
  proof (cases "cs = []")
    case True
    then have "es = []" using cs_es by simp
    then have "set es = {}" by simp
    then show ?thesis using True unfolding sel mem by auto
  next
    case False
    define c where "c = hd (std_sort scored_less cs)"
    have "std_sort scored_less cs \<noteq> []" using False by (metis length_0_conv length_std_sort)
    then have c: "c \<in> set cs" unfolding c_def by (metis hd_in_set set_std_sort)
    have front: "\<not> scored_less x c" if "x \<in> set cs" for x
      unfolding c_def by (rule std_sort_front [OF False _ _ _ that]) (auto simp: scored_less_def split: if_splits)
    have "?score e' \<le> ?score (sr_entry c)" if e': "e' \<in> set es" for e'
    proof -
      obtain x where x: "x \<in> set cs" "sr_entry x = e'" using e' cs_es(1) by (metis imageE)
      then show ?thesis
        using front [OF x(1)] sc [OF x(1)] sc [OF c] by (auto simp: scored_less_def split: if_splits)
    qed
    moreover have "sr_entry c \<in> set es" using c cs_es by blast
    ultimately show ?thesis
      using False unfolding sel mem by (auto simp: c_def [symmetric] feeler_eligible_def)
  qed
qed

lemma sample_feeler_score:
  "route_score (\<lambda>x y. 1) sample_config (new_entry 1000 (sample_node 1) None False 0 None) 5000 = 1"
proof -
  have "rnd64 1 = 1" using rnd64_of_nat [of 1] by simp
  then show ?thesis
    by (simp add: route_score_def route_chance_def capability_score_def new_entry_def RouteEntry_init_def
        set_capability_def NodeCapability_init_def valid_source_def Let_def)
qed

theorem feeler_best_witness:
  "select_for_feeler (\<lambda>x y. 1) (\<lambda>n. 0) 5000 (sample_table False) =
   Some (new_entry 1000 (sample_node 1) None False 0 None)"
proof -
  have "feeler_eligible (\<lambda>x y. 1) sample_config 5000 (new_entry 1000 (sample_node 1) None False 0 None)"
    using sample_feeler_score
    by (simp add: feeler_eligible_def is_terrible_def in_retry_backoff_def new_entry_def RouteEntry_init_def
        set_capability_def valid_source_def Let_def sample_config_def RouteManagerConfig_default_def
        kFutureSkewMs_def kSecondsToMs_def)
  then show ?thesis
    using feeler_best [where pow = "\<lambda>x y. 1" and rng = "\<lambda>n. 0" and now = 5000 and s = "sample_table False"]
    by (simp add: sample_table_simps split: option.splits)
qed

text \<open>
  C14: The routes advertised in a response are entries of the table that are neither terrible nor
  bad, without repetition beyond the table's, and their number is at most \<open>max_response_routes\<close>
  and at most \<open>max_response_percent\<close> of the candidates, rounded up, but at least one whenever
  there is a candidate. This holds for every shuffle.
\<close>

theorem response_bounded:
  assumes shuffle: "is_layout shuffle"
  shows "let cs = filter (\<lambda>e. \<not> is_terrible (rm_config s) e now \<and> re_state e \<noteq> Bad) (map snd (routes s));
             rs = select_routes_for_response shuffle now s
         in mset rs \<subseteq># mset cs \<and>
            length rs = min (length cs)
              (max 1 (min (max_response_routes (rm_config s))
                 ((length cs * unat (max_response_percent (rm_config s)) + 99) div 100)))"
proof -
  define cs where "cs = filter (\<lambda>e. \<not> is_terrible (rm_config s) e now \<and> re_state e \<noteq> Bad) (map snd (routes s))"
  have "mset (take n (shuffle cs)) \<subseteq># mset cs" for n
    using mset_subset_eq_add_left [of "mset (take n (shuffle cs))" "mset (drop n (shuffle cs))"]
      is_layoutD(1) [OF shuffle, of cs] by (metis append_take_drop_id mset_append)
  then show ?thesis
    unfolding select_routes_for_response_def Let_def cs_def [symmetric]
    by (auto simp: is_layoutD(3) [OF shuffle] is_layoutD(1) [OF shuffle])
qed

theorem response_bounded_witness:
  "length (select_routes_for_response (\<lambda>xs. xs) 5000 (sample_table True)) = 1"
  using response_bounded [OF is_layout_id, where s = "sample_table True" and now = 5000]
  by (simp add: Let_def sample_table_simps is_terrible_def new_entry_def RouteEntry_init_def
      set_capability_def valid_source_def sample_config_def RouteManagerConfig_default_def
      kFutureSkewMs_def kSecondsToMs_def)


section \<open>Losing a link\<close>

text \<open>
  \<open>mark_failure\<close> takes the node off its link and counts the failure without wrapping; the
  node becomes bad exactly when its failures reach \<open>bad_failure_threshold\<close>: since the call has
  just stamped the time of the last try, its test for terrible routes never adds anything. The
  link counter drops by one exactly if the node had a link, and no other entry changes.
\<close>

theorem mark_failure_threshold:
  assumes reach: "rm_reachable pow config s" and known: "find_route nid s = Some e" and now: "now \<noteq> 0"
  shows "case mark_failure now nid s of (ok, s') \<Rightarrow> ok \<and>
    (\<exists>e'. find_route nid s' = Some e' \<and> \<not> re_kcp_connected e' \<and> re_last_try_ms e' = now \<and>
       unat (re_failures e') = min (unat (re_failures e) + 1) (2 ^ 32 - 1) \<and>
       re_state e' = (if bad_failure_threshold config \<le> re_failures e' then Bad
                      else if re_last_success_ms e = 0 then New else re_state e)) \<and>
    kcp_link_count s = kcp_link_count s' + (if re_kcp_connected e then 1 else 0) \<and>
    (\<forall>k. k \<noteq> nid \<longrightarrow> find_route k s' = find_route k s)"
proof -
  note inv = reachable_inv(1) [OF reach] and cfg = reachable_inv(2) [OF reach]
  have f: "um_find nid (routes s) = Some e" using known by (simp add: find_route_def)
  define e' where "e' = failure_entry config now e"
  have live: "is_terrible config x now = False" if "re_last_try_ms x = now" for x :: RouteEntry
    using now that by (simp add: is_terrible_def kSecondsToMs_def)
  have "re_failures e < 0xffffffff \<or> re_failures e = 0xffffffff"
    using unsigned_less [of "re_failures e", where 'a = nat]
    by (auto simp: word_less_nat_alt word_unat_eq_iff)
  then have inc: "unat (re_failures e') = min (unat (re_failures e) + 1) (2 ^ 32 - 1)"
  proof
    assume lt: "re_failures e < 0xffffffff"
    then have "unat (re_failures e + 1) = unat (re_failures e) + 1"
      by (simp add: word_less_nat_alt unat_word_ariths)
    with lt show ?thesis by (simp add: e'_def failure_entry_def Let_def word_less_nat_alt)
  qed (simp add: e'_def failure_entry_def Let_def)
  have e': "\<not> re_kcp_connected e'" "re_last_try_ms e' = now"
    "re_state e' = (if bad_failure_threshold config \<le> re_failures e' then Bad
                    else if re_last_success_ms e = 0 then New else re_state e)"
    by (simp_all add: e'_def failure_entry_def Let_def live)
  show ?thesis
    using inc e' drop_link_eq [OF inv f] f cfg
    by (auto simp: mark_failure_def find_route_def um_find_update e'_def [symmetric] split: if_splits)
qed

theorem mark_failure_threshold_witness:
  "case mark_failure 5000 (from_uint32 1) (sample_table True) of (ok, s') \<Rightarrow>
     ok \<and> kcp_link_count s' = 0 \<and> (\<exists>e'. find_route (from_uint32 1) s' = Some e' \<and> re_state e' = Tried)"
proof -
  let ?e = "new_entry 1000 (sample_node 1) None True 1 None"
  have k: "find_route (from_uint32 1) (sample_table True) = Some ?e"
    by (simp add: find_route_def sample_table_simps um_find_def)
  have "re_failures ?e = 0" "re_last_success_ms ?e = 1000" "re_state ?e = Tried" "re_kcp_connected ?e"
    by (simp_all add: new_entry_def RouteEntry_init_def set_capability_def Let_def valid_source_def)
  moreover have "\<not> bad_failure_threshold sample_config \<le> x" if "unat x = 1" for x
    using that by (simp add: sample_config_def RouteManagerConfig_default_def word_le_nat_alt)
  ultimately show ?thesis
    using mark_failure_threshold [OF sample_reachable k, of 5000]
    by (auto simp: split_beta sample_table_simps split: if_splits)
qed

text \<open>One advertisement of a node: the layout, the time, the node, its source, hops and load.\<close>

type_synonym advert = "layout \<times> int \<times> NodeAddress \<times> NodeAddress option \<times> u8 \<times> NodeCapability option"

fun advertise :: "pow_fun \<Rightarrow> RouteManager \<Rightarrow> advert \<Rightarrow> RouteManager" where
  "advertise pow s (lay, now, node, source, hops, capability) =
     snd (add_route pow lay now node source False hops capability s)"

definition adv_node :: "advert \<Rightarrow> NodeAddress" where
  "adv_node a = fst (snd (snd a))"

text \<open>A known node without link and relay, filed at one hop.\<close>

definition stranded :: "KcpConv \<Rightarrow> RouteManager \<Rightarrow> bool" where
  "stranded k s \<longleftrightarrow> (\<exists>e. um_find k (routes s) = Some e \<and> \<not> re_kcp_connected e \<and> \<not> re_has_source e \<and>
                      re_hop_count e = 1)"

lemma advertised_hops: "valid_source src \<Longrightarrow> \<not> local_hop_count src False adv < 1"
proof -
  have "adv = 255" if "adv + 1 = 0" for adv :: u8
  proof -
    have "adv = - 1" using that by (simp add: eq_neg_iff_add_eq_0)
    then show ?thesis by simp
  qed
  then show "valid_source src \<Longrightarrow> ?thesis" by (auto simp: local_hop_count_def)
qed

lemma advertise_stranded:
  assumes "stranded k s" and "node_id (adv_node a) = k"
  shows "stranded k (advertise pow s a)"
proof -
  obtain lay now node source hops cap where a: "a = (lay, now, node, source, hops, cap)" by (cases a) auto
  obtain e where e: "um_find k (routes s) = Some e" "\<not> re_kcp_connected e" "\<not> re_has_source e"
    "re_hop_count e = 1" using assms(1) by (auto simp: stranded_def)
  have k: "node_id node = k" using assms(2) by (simp add: a adv_node_def)
  show ?thesis
    by (rule add_route_cases [of pow lay now node source False hops cap s])
      (use e k advertised_hops in \<open>auto simp: a stranded_def um_find_update refresh_simps\<close>)
qed

lemma stranded_no_hop: "stranded k s \<Longrightarrow> select_next_hop k s = None"
  by (auto simp: stranded_def select_next_hop_def)

text \<open>
  C15: A node that loses its direct link stays unreachable however often other nodes advertise a
  path to it. The entry keeps the hop count 1 of the lost link, an advertised path has at least
  one hop more than the advertiser's, and \<open>add_route\<close> only accepts a shorter one; so no relay is
  ever recorded and \<open>select_next_hop\<close> has no answer until the node is connected directly again.
\<close>

theorem lost_link_strands_node:
  assumes reach: "rm_reachable pow config s" and known: "find_route k s = Some e"
    and link: "re_kcp_connected e" and no_relay: "\<not> re_has_source e"
    and lost: "s1 = snd (mark_kcp_disconnected k s) \<or> s1 = snd (mark_failure now k s)"
    and ads: "\<forall>a \<in> set adverts. node_id (adv_node a) = k"
  shows "select_next_hop k (foldl (advertise pow) s1 adverts) = None"
proof -
  have f: "um_find k (routes s) = Some e" using known by (simp add: find_route_def)
  have "re_hop_count e = 1"
    using rm_invD(3) [OF reachable_inv(1) [OF reach] f] link by (simp add: entry_ok_def)
  then have "stranded k s1"
    using lost f no_relay
    by (auto simp: stranded_def mark_kcp_disconnected_def mark_failure_def um_find_update
        failure_entry_def Let_def)
  then have "stranded k (foldl (advertise pow) s1 adverts)"
    using ads by (induction adverts arbitrary: s1) (auto simp: advertise_stranded)
  then show ?thesis by (rule stranded_no_hop)
qed

theorem lost_link_strands_node_witness:
  "select_next_hop (from_uint32 1) (sample_table True) \<noteq> None \<and>
   select_next_hop (from_uint32 1)
     (foldl (advertise (\<lambda>x y. 1)) (snd (mark_kcp_disconnected (from_uint32 1) (sample_table True)))
        [(\<lambda>m. m, 6000, sample_node 1, Some (sample_node 2), 1, None)]) = None"
proof -
  let ?e = "new_entry 1000 (sample_node 1) None True 1 None"
  have k: "find_route (from_uint32 1) (sample_table True) = Some ?e"
    by (simp add: find_route_def sample_table_simps um_find_def)
  have "re_kcp_connected ?e" "\<not> re_has_source ?e"
    by (simp_all add: new_entry_def RouteEntry_init_def set_capability_def Let_def valid_source_def)
  from lost_link_strands_node [OF sample_reachable k this disjI1 [OF refl],
      of "[(\<lambda>m. m, 6000, sample_node 1, Some (sample_node 2), 1, None)]"]
  show ?thesis
    by (simp add: adv_node_def)
      (simp add: select_next_hop_def sample_table_simps um_find_def new_entry_simps)
qed

end
