(* ===== verification/KcpTunnel.thy ===== *)
theory KcpTunnel
  imports TunnelFrame HashMap
begin

text \<open>
  The KCP tunnel (\<open>iota_proxy/src/kcp/KcpTunnel.cpp\<close>): peer links, the envelope that makes a
  frame a broadcast, suppression of copies already seen, relaying with a decreasing time to live,
  and delivery to the control and frame callbacks. What an operation hands to the KCP manager and
  to the callbacks is a list of actions; the answers of the manager (\<open>send\<close>, \<open>bind\<close>), of
  \<open>RAND_bytes\<close> and of the steady clock are arguments.
\<close>

section \<open>Data\<close>

record KcpTunnelConfig =
  kt_local :: Ipv4Endpoint
  kt_identity :: NodeIdentity
  kt_peer :: NodeAddress
  max_peer_links :: nat
  broadcast_ttl :: u8
  max_broadcast_fanout :: nat
  max_seen_broadcasts :: nat
  seen_broadcast_seconds :: u32

record PeerLink =
  pl_peer :: NodeAddress
  pl_conv :: KcpConv
  pl_addr :: sockaddr_in

type_synonym peer_map = "(KcpConv \<times> PeerLink) list"
type_synonym seen_map = "(bytes \<times> int) list"

record KcpTunnel =
  kt_config :: KcpTunnelConfig
  peer_addr :: sockaddr_in
  frame_callback :: bool
  control_callback :: bool
  peer_links :: peer_map
  seen_broadcasts :: seen_map
  kt_running :: bool

record KcpSessionKey =
  sk_addr_be :: u32
  sk_port_be :: u16
  sk_reserved :: u16
  sk_conv :: KcpConv

datatype kt_action =
    Send sockaddr_in KcpConv bytes
  | ControlUp KcpSessionKey bytes
  | FrameUp TunnelFrameView
  | ManagerStart
  | ManagerStop

type_synonym send_fun = "sockaddr_in \<Rightarrow> KcpConv \<Rightarrow> bytes \<Rightarrow> bool"

definition sockaddr_zero :: sockaddr_in where
  "sockaddr_zero = \<lparr>sin_port = [0, 0], sin_addr = arr_of []\<rparr>"

definition KcpTunnel_init :: "KcpTunnelConfig \<Rightarrow> KcpTunnel" where
  "KcpTunnel_init config =
     \<lparr>kt_config = config, peer_addr = sockaddr_zero, frame_callback = False, control_callback = False,
      peer_links = [], seen_broadcasts = [], kt_running = False\<rparr>"

definition set_frame_callback :: "KcpTunnel \<Rightarrow> KcpTunnel" where
  "set_frame_callback s = s\<lparr>frame_callback := True\<rparr>"

definition set_control_callback :: "KcpTunnel \<Rightarrow> KcpTunnel" where
  "set_control_callback s = s\<lparr>control_callback := True\<rparr>"

section \<open>The broadcast envelope\<close>

definition kBroadcastMagic :: u32 where "kBroadcastMagic = 0x49504742"

definition kBroadcastVersion :: u8 where "kBroadcastVersion = 1"

definition kBroadcastHeaderSize :: nat where "kBroadcastHeaderSize = 76"

definition kBroadcastOriginOffset :: nat where "kBroadcastOriginOffset = 8"

definition kBroadcastIdOffset :: nat where "kBroadcastIdOffset = 40"

definition kBroadcastPayloadLenOffset :: nat where "kBroadcastPayloadLenOffset = 72"

lemmas broadcast_consts = kBroadcastMagic_def kBroadcastVersion_def kBroadcastHeaderSize_def
  kBroadcastOriginOffset_def kBroadcastIdOffset_def kBroadcastPayloadLenOffset_def

record BroadcastEnvelopeView =
  env_origin :: KcpConv
  env_message_id :: KcpConv
  env_ttl :: u8
  env_payload :: bytes

datatype BroadcastDecode = Plain | Invalid | Envelope BroadcastEnvelopeView

definition is_relayed_type :: "TunnelFrameType \<Rightarrow> bool" where
  "is_relayed_type type \<longleftrightarrow> type = Control \<or> type = Replicate \<or> type = KafkaBroadcast"

definition auto_relay_type :: "TunnelFrameType \<Rightarrow> bool" where
  "auto_relay_type type \<longleftrightarrow> type = Control \<or> type = Replicate"

definition make_seen_key :: "TunnelFrameType \<Rightarrow> u64 \<Rightarrow> KcpConv \<Rightarrow> KcpConv \<Rightarrow> bytes" where
  "make_seen_key type stream_id origin message_id =
     [frame_code type] @ store_u64 stream_id @ arr_bytes origin @ arr_bytes message_id"

text \<open>\<open>rand\<close> is what \<open>RAND_bytes\<close> wrote, \<open>None\<close> when it failed.\<close>

definition make_random_message_id :: "KcpConv option \<Rightarrow> KcpConv option" where
  "make_random_message_id rand =
     (case rand of None \<Rightarrow> None
      | Some out \<Rightarrow> Some (if conv_empty out then arr_of ((arr_bytes out)[31 := 1]) else out))"

definition encode_broadcast_envelope :: "KcpConv \<Rightarrow> KcpConv \<Rightarrow> u8 \<Rightarrow> bytes \<Rightarrow> bytes" where
  "encode_broadcast_envelope origin message_id ttl payload =
     (if conv_empty origin \<or> conv_empty message_id \<or> 2 ^ 32 - 1 < length payload then []
      else
        let out = replicate (kBroadcastHeaderSize + length payload) 0;
            out = write_at 0 (store_u32 kBroadcastMagic) out;
            out = write_at 4 [kBroadcastVersion] out;
            out = write_at 5 [ttl] out;
            out = write_at 6 [0] out;
            out = write_at 7 [0] out;
            out = write_at kBroadcastOriginOffset (arr_bytes origin) out;
            out = write_at kBroadcastIdOffset (arr_bytes message_id) out;
            out = write_at kBroadcastPayloadLenOffset (store_u32 (of_nat (length payload))) out
        in if payload \<noteq> [] then write_at kBroadcastHeaderSize payload out else out)"

definition decode_broadcast_envelope :: "bytes \<Rightarrow> BroadcastDecode" where
  "decode_broadcast_envelope payload =
     (if length payload < 4 then Plain
      else if load_u32 payload \<noteq> kBroadcastMagic then Plain
      else if length payload < kBroadcastHeaderSize \<or> payload ! 4 \<noteq> kBroadcastVersion \<or>
              payload ! 6 \<noteq> 0 \<or> payload ! 7 \<noteq> 0 then Invalid
      else
        let payload_len = load_u32 (drop kBroadcastPayloadLenOffset payload)
        in if length payload - kBroadcastHeaderSize \<noteq> unat payload_len then Invalid
           else
             let origin = arr_of (sub_bytes kBroadcastOriginOffset 32 payload);
                 message_id = arr_of (sub_bytes kBroadcastIdOffset 32 payload)
             in if conv_empty origin \<or> conv_empty message_id then Invalid
                else Envelope \<lparr>env_origin = origin, env_message_id = message_id,
                               env_ttl = payload ! 5,
                               env_payload = sub_bytes kBroadcastHeaderSize (unat payload_len) payload\<rparr>)"

section \<open>Links and the set of broadcasts seen\<close>

definition add_peer_link ::
  "(string \<Rightarrow> 4 barr option) \<Rightarrow> (peer_map \<Rightarrow> peer_map) \<Rightarrow> NodeAddress \<Rightarrow> KcpConv \<Rightarrow> KcpTunnel \<Rightarrow>
   bool \<times> KcpTunnel" where
  "add_peer_link pton lay peer conv s =
     (if ep_host (node_endpoint peer) = [] \<or> ep_port (node_endpoint peer) = 0 \<or>
         conv_empty (node_id peer) \<or> conv_empty conv then (False, s)
      else case make_sockaddr pton (node_endpoint peer) of
             None \<Rightarrow> (False, s)
           | Some addr \<Rightarrow>
               if um_find (node_id peer) (peer_links s) = None \<and>
                  length (peer_links s) \<ge> max_peer_links (kt_config s) then (False, s)
               else (True, s\<lparr>peer_links := um_assign lay (node_id peer)
                               \<lparr>pl_peer = peer, pl_conv = conv, pl_addr = addr\<rparr> (peer_links s)\<rparr>))"

definition peer_link_count :: "KcpTunnel \<Rightarrow> nat" where
  "peer_link_count s = length (peer_links s)"

text \<open>The loop that erases from the front until there is room for one more entry.\<close>

fun evict_seen :: "nat \<Rightarrow> seen_map \<Rightarrow> seen_map" where
  "evict_seen limit [] = []"
| "evict_seen limit (x # xs) = (if length (x # xs) \<ge> limit then evict_seen limit xs else x # xs)"

definition mark_broadcast_seen ::
  "(seen_map \<Rightarrow> seen_map) \<Rightarrow> int \<Rightarrow> bytes \<Rightarrow> KcpTunnel \<Rightarrow> bool \<times> KcpTunnel" where
  "mark_broadcast_seen lay now key s =
     (if key = [] \<or> max_seen_broadcasts (kt_config s) = 0 then (True, s)
      else
        let ttl_ms = uint (seen_broadcast_seconds (kt_config s)) * 1000;
            expires_at = (if ttl_ms \<le> 0 then 2 ^ 63 - 1 else now + ttl_ms);
            seen = filter (\<lambda>(_, t). \<not> t \<le> now) (seen_broadcasts s)
        in case um_find key seen of
             Some _ \<Rightarrow> (False, s\<lparr>seen_broadcasts := um_update key (\<lambda>_. expires_at) seen\<rparr>)
           | None \<Rightarrow> (True, s\<lparr>seen_broadcasts := um_emplace lay key expires_at
                               (evict_seen (max_seen_broadcasts (kt_config s)) seen)\<rparr>))"

section \<open>Sending\<close>

definition mix_bytes :: "bytes \<Rightarrow> u64 \<Rightarrow> u64" where
  "mix_bytes bs hash = foldl (\<lambda>h b. (h XOR ucast b) * 1099511628211) hash bs"

definition link_score :: "KcpConv \<Rightarrow> PeerLink \<Rightarrow> u64" where
  "link_score message_id link =
     mix_bytes (sin_port (pl_addr link))
       (mix_bytes (arr_bytes (sin_addr (pl_addr link)))
         (mix_bytes (arr_bytes (pl_conv link))
           (mix_bytes (arr_bytes (node_id (pl_peer link)))
             (mix_bytes (arr_bytes message_id) 1469598103934665603))))"

definition broadcast_targets :: "KcpConv option \<Rightarrow> KcpTunnel \<Rightarrow> PeerLink list" where
  "broadcast_targets message_id s =
     (let peers = map snd (peer_links s) in
      case message_id of
        None \<Rightarrow> peers
      | Some mid \<Rightarrow>
          if max_broadcast_fanout (kt_config s) \<noteq> 0 \<and>
             length peers > max_broadcast_fanout (kt_config s)
          then take (max_broadcast_fanout (kt_config s))
                 (std_sort (\<lambda>lhs rhs. link_score mid lhs < link_score mid rhs) peers)
          else peers)"

definition broadcast_packet ::
  "send_fun \<Rightarrow> bytes \<Rightarrow> KcpConv option \<Rightarrow> KcpTunnel \<Rightarrow> nat \<times> kt_action list" where
  "broadcast_packet send_ok packet message_id s =
     (if \<not> kt_running s \<or> packet = [] then (0, [])
      else
        let peers = broadcast_targets message_id s
        in (length (filter (\<lambda>link. send_ok (pl_addr link) (pl_conv link) packet) peers),
            map (\<lambda>link. Send (pl_addr link) (pl_conv link) packet) peers))"

definition send_frame ::
  "send_fun \<Rightarrow> TunnelFrameType \<Rightarrow> u64 \<Rightarrow> bytes \<Rightarrow> KcpTunnel \<Rightarrow> bool \<times> kt_action list" where
  "send_frame send_ok type stream_id payload s =
     (if \<not> kt_running s \<or> stream_id = 0 then (False, [])
      else
        let packet = encode_tunnel_frame type stream_id payload
        in if packet = [] then (False, [])
           else (send_ok (peer_addr s) (node_id (kt_peer (kt_config s))) packet,
                 [Send (peer_addr s) (node_id (kt_peer (kt_config s))) packet]))"

definition send_frame_to ::
  "send_fun \<Rightarrow> KcpConv \<Rightarrow> TunnelFrameType \<Rightarrow> u64 \<Rightarrow> bytes \<Rightarrow> KcpTunnel \<Rightarrow> bool \<times> kt_action list" where
  "send_frame_to send_ok next_hop_id type stream_id payload s =
     (if \<not> kt_running s \<or> conv_empty next_hop_id \<or> stream_id = 0 then (False, [])
      else case um_find next_hop_id (peer_links s) of
             None \<Rightarrow> (False, [])
           | Some link \<Rightarrow>
               let packet = encode_tunnel_frame type stream_id payload
               in if packet = [] then (False, [])
                  else (send_ok (pl_addr link) (pl_conv link) packet,
                        [Send (pl_addr link) (pl_conv link) packet]))"

definition send_control_to ::
  "(string \<Rightarrow> 4 barr option) \<Rightarrow> send_fun \<Rightarrow> NodeAddress \<Rightarrow> KcpConv \<Rightarrow> bytes \<Rightarrow> KcpTunnel \<Rightarrow>
   bool \<times> kt_action list" where
  "send_control_to pton send_ok peer conv payload s =
     (if \<not> kt_running s \<or> payload = [] then (False, [])
      else case make_sockaddr pton (node_endpoint peer) of
             None \<Rightarrow> (False, [])
           | Some addr \<Rightarrow>
               let packet = encode_tunnel_frame Control 0 payload
               in if packet = [] then (False, [])
                  else (send_ok addr conv packet, [Send addr conv packet]))"

section \<open>Broadcasting\<close>

definition broadcast_control ::
  "send_fun \<Rightarrow> (seen_map \<Rightarrow> seen_map) \<Rightarrow> KcpConv option \<Rightarrow> int \<Rightarrow> bytes \<Rightarrow> KcpTunnel \<Rightarrow>
   nat \<times> kt_action list \<times> KcpTunnel" where
  "broadcast_control send_ok lay rand now payload s =
     (if \<not> kt_running s \<or> payload = [] then (0, [], s)
      else
        let self = identity_id (kt_identity (kt_config s));
            finish = (\<lambda>wire_payload message_id s.
              let packet = encode_tunnel_frame Control 0 wire_payload
              in if packet = [] then (0, [], s)
                 else
                   let (n, acts) = broadcast_packet send_ok packet
                         (if conv_empty message_id then None else Some message_id) s
                   in (n, acts, s))
        in if conv_empty self then finish payload conv_zero s
           else case make_random_message_id rand of
                  None \<Rightarrow> (0, [], s)
                | Some message_id \<Rightarrow>
                    let envelope = encode_broadcast_envelope self message_id
                                     (broadcast_ttl (kt_config s)) payload
                    in if envelope = [] then (0, [], s)
                       else finish envelope message_id
                              (snd (mark_broadcast_seen lay now
                                 (make_seen_key Control 0 self message_id) s)))"

text \<open>
  The origin, message identifier and time to live of a frame about to be broadcast, or \<open>None\<close>
  when the broadcast stops here: no random bytes, or a time to live that has run out.
\<close>

definition broadcast_header ::
  "KcpConv option \<Rightarrow> BroadcastMetadata option \<Rightarrow> KcpTunnel \<Rightarrow> (KcpConv \<times> KcpConv \<times> u8) option" where
  "broadcast_header rand metadata s =
     (let self = identity_id (kt_identity (kt_config s)); ttl = broadcast_ttl (kt_config s) in
      case metadata of
        Some m \<Rightarrow>
          if bm_valid m \<and> \<not> conv_empty (bm_origin m) \<and> \<not> conv_empty (bm_message_id m)
          then (if bm_ttl m \<noteq> 0
                then (if bm_ttl m \<le> 1 then None
                      else Some (bm_origin m, bm_message_id m, bm_ttl m - 1))
                else Some (bm_origin m, bm_message_id m, ttl))
          else map_option (\<lambda>mid. (self, mid, ttl)) (make_random_message_id rand)
      | None \<Rightarrow> map_option (\<lambda>mid. (self, mid, ttl)) (make_random_message_id rand))"

definition broadcast_frame ::
  "send_fun \<Rightarrow> (seen_map \<Rightarrow> seen_map) \<Rightarrow> KcpConv option \<Rightarrow> int \<Rightarrow> TunnelFrameType \<Rightarrow> u64 \<Rightarrow> bytes \<Rightarrow>
   BroadcastMetadata option \<Rightarrow> KcpTunnel \<Rightarrow> nat \<times> kt_action list \<times> KcpTunnel" where
  "broadcast_frame send_ok lay rand now type stream_id payload metadata s =
     (if \<not> kt_running s \<or> stream_id = 0 then (0, [], s)
      else
        let self = identity_id (kt_identity (kt_config s));
            finish = (\<lambda>wire_payload message_id s.
              let packet = encode_tunnel_frame type stream_id wire_payload
              in if packet = [] then (0, [], s)
                 else
                   let (n, acts) = broadcast_packet send_ok packet
                         (if conv_empty message_id then None else Some message_id) s
                   in (n, acts, s))
        in if \<not> (is_relayed_type type \<and> \<not> conv_empty self) then finish payload conv_zero s
           else case broadcast_header rand metadata s of
                  None \<Rightarrow> (0, [], s)
                | Some (origin, message_id, ttl) \<Rightarrow>
                    let envelope = encode_broadcast_envelope origin message_id ttl payload
                    in if envelope = [] then (0, [], s)
                       else finish envelope message_id
                              (snd (mark_broadcast_seen lay now
                                 (make_seen_key type stream_id origin message_id) s)))"

section \<open>Receiving\<close>

text \<open>
  The result of \<open>prepare_inbound_broadcast\<close>: \<open>None\<close> to drop the frame, otherwise the decoded
  payload (if any) and the metadata left in the frame, with the relayed packets and the state.
\<close>

definition prepare_inbound_broadcast ::
  "send_fun \<Rightarrow> (seen_map \<Rightarrow> seen_map) \<Rightarrow> int \<Rightarrow> TunnelFrameType \<Rightarrow> u64 \<Rightarrow> bytes \<Rightarrow>
   BroadcastMetadata \<Rightarrow> KcpTunnel \<Rightarrow>
   (bytes option \<times> BroadcastMetadata) option \<times> kt_action list \<times> KcpTunnel" where
  "prepare_inbound_broadcast send_ok lay now type stream_id payload metadata s =
     (if \<not> is_relayed_type type then (Some (None, metadata), [], s)
      else case decode_broadcast_envelope payload of
             Plain \<Rightarrow> (Some (None, BroadcastMetadata_init), [], s)
           | Invalid \<Rightarrow> (None, [], s)
           | Envelope envelope \<Rightarrow>
               if env_origin envelope = identity_id (kt_identity (kt_config s)) then (None, [], s)
               else
                 let (fresh, s) = mark_broadcast_seen lay now
                       (make_seen_key type stream_id (env_origin envelope) (env_message_id envelope)) s
                 in if \<not> fresh then (None, [], s)
                    else
                      let relay_payload = encode_broadcast_envelope (env_origin envelope)
                            (env_message_id envelope) (env_ttl envelope - 1) (env_payload envelope);
                          packet = encode_tunnel_frame type stream_id relay_payload;
                          acts = (if auto_relay_type type \<and> env_ttl envelope > 1 \<and>
                                     relay_payload \<noteq> [] \<and> packet \<noteq> []
                                  then snd (broadcast_packet send_ok packet
                                              (Some (env_message_id envelope)) s)
                                  else [])
                      in (Some (Some (env_payload envelope),
                                \<lparr>bm_valid = True, bm_ttl = env_ttl envelope,
                                 bm_origin = env_origin envelope,
                                 bm_message_id = env_message_id envelope\<rparr>), acts, s))"

definition handle_kcp_message ::
  "send_fun \<Rightarrow> (seen_map \<Rightarrow> seen_map) \<Rightarrow> int \<Rightarrow> KcpSessionKey \<Rightarrow> bytes \<Rightarrow> KcpTunnel \<Rightarrow>
   kt_action list \<times> KcpTunnel" where
  "handle_kcp_message send_ok lay now key data s =
     (case decode_tunnel_frame data TunnelFrameView_init of
        None \<Rightarrow> ([], s)
      | Some frame \<Rightarrow>
          case prepare_inbound_broadcast send_ok lay now (fv_type frame) (fv_stream_id frame)
                 (fv_payload frame) (fv_broadcast frame) s of
            (None, acts, s) \<Rightarrow> (acts, s)
          | (Some (opened, metadata), acts, s) \<Rightarrow>
              let frame = frame\<lparr>fv_broadcast := metadata\<rparr>;
                  frame = (case opened of None \<Rightarrow> frame | Some p \<Rightarrow> frame\<lparr>fv_payload := p\<rparr>)
              in if fv_type frame = Control
                 then (acts @ (if control_callback s then [ControlUp key (fv_payload frame)] else []), s)
                 else (acts @ (if frame_callback s then [FrameUp frame] else []), s))"

section \<open>Starting and stopping\<close>

definition kt_start ::
  "(string \<Rightarrow> 4 barr option) \<Rightarrow> (string \<Rightarrow> u16 \<Rightarrow> bool) \<Rightarrow> (peer_map \<Rightarrow> peer_map) \<Rightarrow> KcpTunnel \<Rightarrow>
   bool \<times> kt_action list \<times> KcpTunnel" where
  "kt_start pton bind_ok lay s =
     (if kt_running s then (True, [], s)
      else
        let s = s\<lparr>kt_running := True\<rparr>;
            ep = node_endpoint (kt_peer (kt_config s));
            finish = (\<lambda>s. if \<not> bind_ok (ep_host (kt_local (kt_config s))) (ep_port (kt_local (kt_config s)))
                          then (False, [], s\<lparr>kt_running := False\<rparr>)
                          else (True, [ManagerStart], s))
        in if ep_host ep \<noteq> [] \<and> ep_port ep \<noteq> 0
           then (case make_sockaddr pton ep of
                   None \<Rightarrow> (False, [], s\<lparr>kt_running := False\<rparr>)
                 | Some addr \<Rightarrow>
                     finish (snd (add_peer_link pton lay (kt_peer (kt_config s))
                                    (node_id (kt_peer (kt_config s))) (s\<lparr>peer_addr := addr\<rparr>))))
           else finish s)"

definition kt_stop :: "KcpTunnel \<Rightarrow> kt_action list \<times> KcpTunnel" where
  "kt_stop s = (if \<not> kt_running s then ([], s) else ([ManagerStop], s\<lparr>kt_running := False\<rparr>))"

end
