(* ===== verification/KcpTunnelProps.thy ===== *)
theory KcpTunnelProps
  imports KcpTunnel
begin

text \<open>
  The broadcast protocol of the KCP tunnel: the envelope is canonical, copies are suppressed,
  relayed copies lose time to live, and what one node broadcasts another delivers.
\<close>

section \<open>The envelope\<close>

definition env_header :: "KcpConv \<Rightarrow> KcpConv \<Rightarrow> u8 \<Rightarrow> u32 \<Rightarrow> bytes" where
  "env_header origin mid ttl len =
     ((((((store_u32 kBroadcastMagic @ [kBroadcastVersion]) @ [ttl]) @ [0]) @ [0]) @ arr_bytes origin) @
      arr_bytes mid) @ store_u32 len"

lemma length_env_header [simp]: "length (env_header origin mid ttl len) = 76"
  by (simp add: env_header_def)

lemma envelope_layout:
  assumes "\<not> conv_empty origin" "\<not> conv_empty mid" "length payload < 2 ^ 32"
  shows "encode_broadcast_envelope origin mid ttl payload =
         env_header origin mid ttl (of_nat (length payload)) @ payload"
proof -
  let ?n = "length payload"
  have hd: "write_at 72 (store_u32 l) (write_at 40 (arr_bytes mid) (write_at 8 (arr_bytes origin)
      (write_at 7 [0] (write_at 6 [0] (write_at 5 [ttl] (write_at 4 [kBroadcastVersion]
      (write_at 0 (store_u32 kBroadcastMagic) (replicate (76 + ?n) 0)))))))) =
      env_header origin mid ttl l @ replicate ?n 0" for l
    by (simp add: write_at_replicate write_at_step env_header_def
        del: append_assoc append_Cons append_Nil append.simps)
  have "write_at 76 payload (env_header origin mid ttl l @ replicate ?n 0) =
      env_header origin mid ttl l @ payload" for l
    by (subst write_at_step) simp_all
  then show ?thesis
    using assms hd [of "of_nat ?n"] hd [of 0]
    by (cases "payload = []")
      (auto simp only: encode_broadcast_envelope_def kBroadcastHeaderSize_def kBroadcastOriginOffset_def
        kBroadcastIdOffset_def kBroadcastPayloadLenOffset_def Let_def, simp_all)
qed

lemma envelope_empty_iff:
  "encode_broadcast_envelope origin mid ttl payload = [] \<longleftrightarrow>
   conv_empty origin \<or> conv_empty mid \<or> 2 ^ 32 \<le> length payload"
proof (cases "conv_empty origin \<or> conv_empty mid \<or> 2 ^ 32 \<le> length payload")
  case False
  then have "encode_broadcast_envelope origin mid ttl payload =
      env_header origin mid ttl (of_nat (length payload)) @ payload"
    by (intro envelope_layout) auto
  then have "length (encode_broadcast_envelope origin mid ttl payload) \<ge> 76" by simp
  then show ?thesis using False by auto
qed (auto simp: encode_broadcast_envelope_def)

lemma env_reads:
  "load_u32 (env_header o' m t l @ rest) = kBroadcastMagic"
  "(env_header o' m t l @ rest) ! 4 = kBroadcastVersion"
  "(env_header o' m t l @ rest) ! 5 = t"
  "(env_header o' m t l @ rest) ! 6 = 0"
  "(env_header o' m t l @ rest) ! 7 = 0"
  "load_u32 (drop 72 (env_header o' m t l @ rest)) = l"
  "sub_bytes 8 32 (env_header o' m t l @ rest) = arr_bytes o'"
  "sub_bytes 40 32 (env_header o' m t l @ rest) = arr_bytes m"
  by (simp_all add: env_header_def codec nth_append sub_bytes_def)

lemma decode_encode_envelope:
  assumes "\<not> conv_empty origin" "\<not> conv_empty mid" "length payload < 2 ^ 32"
  shows "decode_broadcast_envelope (encode_broadcast_envelope origin mid ttl payload) =
         Envelope \<lparr>env_origin = origin, env_message_id = mid, env_ttl = ttl, env_payload = payload\<rparr>"
proof -
  have "unat (of_nat (length payload) :: u32) = length payload"
    using assms by (intro unat_of_nat_small) simp
  then show ?thesis
    using assms by (simp add: envelope_layout decode_broadcast_envelope_def kBroadcastHeaderSize_def
        kBroadcastOriginOffset_def kBroadcastIdOffset_def kBroadcastPayloadLenOffset_def env_reads Let_def
        del: drop_append) (simp add: sub_bytes_def)
qed

lemma envelope_fields:
  assumes "76 \<le> length p"
  shows "p = store_u32 (load_u32 p) @ [p ! 4] @ [p ! 5] @ [p ! 6] @ [p ! 7] @ sub_bytes 8 32 p @
             sub_bytes 40 32 p @ store_u32 (load_u32 (drop 72 p)) @ drop 76 p"
proof -
  have "p = store_u32 (load_u32 p) @ drop 4 p"
    using assms u32.drop_field [of 0 p] by simp
  also have "drop 4 p = [p ! 4] @ [p ! 5] @ [p ! 6] @ [p ! 7] @ drop 8 p"
    using assms drop_nth [of 4 p] drop_nth [of 5 p] drop_nth [of 6 p] drop_nth [of 7 p] by simp
  also have "drop 8 p = sub_bytes 8 32 p @ drop 40 p" using drop_sub_bytes [of 8 p 32] by simp
  also have "drop 40 p = sub_bytes 40 32 p @ drop 72 p" using drop_sub_bytes [of 40 p 32] by simp
  also have "drop 72 p = store_u32 (load_u32 (drop 72 p)) @ drop 76 p"
    using assms u32.drop_field [of 72 p] by simp
  finally show ?thesis .
qed

lemma decode_envelope_imp:
  assumes dec: "decode_broadcast_envelope p = Envelope v"
  shows "p = encode_broadcast_envelope (env_origin v) (env_message_id v) (env_ttl v) (env_payload v)"
    and "length (env_payload v) < 2 ^ 32" and "\<not> conv_empty (env_origin v)" and "\<not> conv_empty (env_message_id v)"
proof -
  let ?l = "load_u32 (drop 72 p)"
  let ?o = "arr_of (sub_bytes 8 32 p) :: KcpConv" and ?m = "arr_of (sub_bytes 40 32 p) :: KcpConv"
  have len: "76 \<le> length p" and magic: "load_u32 p = kBroadcastMagic" and ver: "p ! 4 = kBroadcastVersion"
    and z: "p ! 6 = 0" "p ! 7 = 0" and pl: "length p - 76 = unat ?l"
    and ne: "\<not> conv_empty ?o" "\<not> conv_empty ?m"
    and v: "v = \<lparr>env_origin = ?o, env_message_id = ?m, env_ttl = p ! 5, env_payload = drop 76 p\<rparr>"
    using dec
    by (auto simp: decode_broadcast_envelope_def kBroadcastHeaderSize_def kBroadcastOriginOffset_def
        kBroadcastIdOffset_def kBroadcastPayloadLenOffset_def Let_def sub_bytes_def split: if_splits)
  show short: "length (env_payload v) < 2 ^ 32"
    using pl unsigned_less [of ?l, where 'a = nat] by (simp add: v)
  have "?l = of_nat (length (drop 76 p))" using pl by simp
  moreover have "arr_bytes ?o = sub_bytes 8 32 p" "arr_bytes ?m = sub_bytes 40 32 p"
    using len by simp_all
  ultimately have "p = env_header ?o ?m (p ! 5) (of_nat (length (drop 76 p))) @ drop 76 p"
    using envelope_fields [OF len] magic ver z by (simp add: env_header_def)
  then show "p = encode_broadcast_envelope (env_origin v) (env_message_id v) (env_ttl v) (env_payload v)"
    using ne short by (simp add: v envelope_layout)
  show "\<not> conv_empty (env_origin v)" "\<not> conv_empty (env_message_id v)" using ne by (simp_all add: v)
qed

text \<open>
  The broadcast envelope is canonical: a payload is recognised as an envelope with given
  origin, message identifier, time to live and content exactly when it is byte for byte their
  encoding, and both identifiers are non-zero; every other payload that starts with the magic
  number is rejected as invalid.
\<close>

theorem envelope_canonical:
  "(decode_broadcast_envelope payload = Envelope v \<longleftrightarrow>
      payload = encode_broadcast_envelope (env_origin v) (env_message_id v) (env_ttl v) (env_payload v) \<and>
      payload \<noteq> []) \<and>
   (decode_broadcast_envelope payload = Plain \<longleftrightarrow>
      take 4 payload \<noteq> [0x49, 0x50, 0x47, 0x42])"
proof
  show "decode_broadcast_envelope payload = Envelope v \<longleftrightarrow>
      payload = encode_broadcast_envelope (env_origin v) (env_message_id v) (env_ttl v) (env_payload v) \<and>
      payload \<noteq> []"
    using decode_envelope_imp [of payload v] envelope_empty_iff
      decode_encode_envelope [of "env_origin v" "env_message_id v" "env_payload v" "env_ttl v"]
    by (metis BroadcastEnvelopeView.surjective linorder_not_less old.unit.exhaust)
  have magic: "store_u32 kBroadcastMagic = [0x49, 0x50, 0x47, 0x42]" by code_simp
  show "decode_broadcast_envelope payload = Plain \<longleftrightarrow> take 4 payload \<noteq> [0x49, 0x50, 0x47, 0x42]"
  proof (cases "length payload < 4")
    case True
    then have "length (take 4 payload) \<noteq> length [0x49, 0x50, 0x47, 0x42 :: byte]" by simp
    then have "take 4 payload \<noteq> [0x49, 0x50, 0x47, 0x42]" by metis
    then show ?thesis using True by (simp add: decode_broadcast_envelope_def)
  next
    case False
    then have "load_u32 payload = kBroadcastMagic \<longleftrightarrow> take 4 payload = [0x49, 0x50, 0x47, 0x42]"
      using u32.load_eq_iff [of payload kBroadcastMagic] magic by simp
    then show ?thesis using False by (auto simp: decode_broadcast_envelope_def Let_def)
  qed
qed

end
