(* ===== verification/KcpTunnelState.thy ===== *)
theory KcpTunnelState
  imports KcpTunnelProps
begin

text \<open>
  The state of the KCP tunnel over time: bounds on links and on the set of broadcasts seen, and
  the exact behaviour of duplicate suppression.
\<close>

section \<open>Eviction and marking\<close>

lemma evict_seen_small: "length m < limit \<Longrightarrow> evict_seen limit m = m"
  by (cases m) simp_all

lemma evict_seen_length: "0 < limit \<Longrightarrow> length (evict_seen limit m) < limit"
  by (induction m) simp_all

lemma evict_seen_drop: "\<exists>n. evict_seen limit m = drop n m"
proof (induction m)
  case (Cons x m)
  then obtain n where "evict_seen limit m = drop n m" ..
  then have "evict_seen limit (x # m) = drop (Suc n) (x # m) \<or> evict_seen limit (x # m) = drop 0 (x # m)"
    by simp
  then show ?case by blast
qed simp

lemma um_ok_evict: "um_ok m \<Longrightarrow> um_ok (evict_seen limit m)"
  using evict_seen_drop [of limit m] by (auto simp: um_ok_def drop_map [symmetric])

lemma evict_seen_None: "um_find k m = None \<Longrightarrow> um_find k (evict_seen limit m) = None"
proof -
  obtain n where n: "evict_seen limit m = drop n m" using evict_seen_drop by blast
  show "um_find k m = None \<Longrightarrow> ?thesis"
    using set_drop_subset [of n m] by (auto simp: um_find_None_iff n)
qed

lemma um_emplace_length:
  "is_layout lay \<Longrightarrow> um_find k m = None \<Longrightarrow> length (um_emplace lay k v m) = Suc (length m)"
  by (simp add: um_emplace_def is_layoutD)

definition live_seen :: "int \<Rightarrow> KcpTunnel \<Rightarrow> seen_map" where
  "live_seen now s = filter (\<lambda>(_, t). \<not> t \<le> now) (seen_broadcasts s)"

definition seen_expiry :: "int \<Rightarrow> KcpTunnelConfig \<Rightarrow> int" where
  "seen_expiry now config =
     (let ttl_ms = uint (seen_broadcast_seconds config) * 1000
      in if ttl_ms \<le> 0 then 2 ^ 63 - 1 else now + ttl_ms)"

lemma mark_alt:
  "mark_broadcast_seen lay now key s =
     (if key = [] \<or> max_seen_broadcasts (kt_config s) = 0 then (True, s)
      else case um_find key (live_seen now s) of
             Some _ \<Rightarrow> (False, s\<lparr>seen_broadcasts :=
                          um_update key (\<lambda>_. seen_expiry now (kt_config s)) (live_seen now s)\<rparr>)
           | None \<Rightarrow> (True, s\<lparr>seen_broadcasts := um_emplace lay key (seen_expiry now (kt_config s))
                        (evict_seen (max_seen_broadcasts (kt_config s)) (live_seen now s))\<rparr>))"
  unfolding mark_broadcast_seen_def live_seen_def seen_expiry_def Let_def by (rule refl)

lemma mark_frame [simp]:
  "kt_config (snd (mark_broadcast_seen lay now key s)) = kt_config s"
  "peer_links (snd (mark_broadcast_seen lay now key s)) = peer_links s"
  "peer_addr (snd (mark_broadcast_seen lay now key s)) = peer_addr s"
  "kt_running (snd (mark_broadcast_seen lay now key s)) = kt_running s"
  "frame_callback (snd (mark_broadcast_seen lay now key s)) = frame_callback s"
  "control_callback (snd (mark_broadcast_seen lay now key s)) = control_callback s"
  by (simp_all add: mark_alt split: option.splits)

lemma mark_fresh: "um_find key (seen_broadcasts s) = None \<Longrightarrow> fst (mark_broadcast_seen lay now key s)"
  by (auto simp: mark_alt um_find_None_iff live_seen_def split: option.splits)
    (metis (mono_tags, lifting) filter_is_subset fst_conv image_eqI subset_iff um_find_SomeD)

section \<open>The invariant\<close>

definition kt_inv :: "KcpTunnel \<Rightarrow> bool" where
  "kt_inv s \<longleftrightarrow>
     um_ok (peer_links s) \<and> (\<forall>(k, l) \<in> set (peer_links s). node_id (pl_peer l) = k \<and> \<not> conv_empty k) \<and>
     length (peer_links s) \<le> max_peer_links (kt_config s) \<and>
     um_ok (seen_broadcasts s) \<and> length (seen_broadcasts s) \<le> max_seen_broadcasts (kt_config s)"

lemma init_kt_inv: "kt_inv (KcpTunnel_init config)"
  by (simp add: kt_inv_def KcpTunnel_init_def um_ok_def)

lemma mark_kt_inv:
  assumes inv: "kt_inv s" and lay: "is_layout lay"
  shows "kt_inv (snd (mark_broadcast_seen lay now key s))"
proof (cases "key = [] \<or> max_seen_broadcasts (kt_config s) = 0")
  case True
  then show ?thesis using inv by (simp add: mark_alt)
next
  case False
  let ?m = "live_seen now s" and ?lim = "max_seen_broadcasts (kt_config s)"
  have ok: "um_ok ?m" using inv by (simp add: live_seen_def kt_inv_def)
  have "length ?m \<le> length (seen_broadcasts s)" unfolding live_seen_def by (rule length_filter_le)
  then have len: "length ?m \<le> ?lim" using inv by (simp add: kt_inv_def)
  have room: "length (evict_seen ?lim ?m) < ?lim" using False by (intro evict_seen_length) simp
  show ?thesis
  proof (cases "um_find key ?m")
    case None
    note none = evict_seen_None [OF None, of ?lim]
    then show ?thesis
      using False None inv room um_ok_emplace [OF lay um_ok_evict [OF ok]] um_emplace_length [OF lay none]
      by (simp add: mark_alt kt_inv_def)
  next
    case (Some t)
    then show ?thesis using False inv ok len by (simp add: mark_alt kt_inv_def)
  qed
qed

lemma add_peer_link_kt_inv:
  assumes inv: "kt_inv s" and lay: "is_layout lay"
  shows "kt_inv (snd (add_peer_link pton lay peer conv s))"
  using inv assign_ok [OF lay] assign_length [OF lay] assign_set [OF lay]
  by (auto simp: add_peer_link_def kt_inv_def split: option.splits if_splits; fastforce)

lemma add_peer_link_frame [simp]:
  "kt_config (snd (add_peer_link pton lay peer conv s)) = kt_config s"
  "seen_broadcasts (snd (add_peer_link pton lay peer conv s)) = seen_broadcasts s"
  by (simp_all add: add_peer_link_def split: option.splits)


section \<open>Steps\<close>

inductive kt_step :: "KcpTunnel \<Rightarrow> KcpTunnel \<Rightarrow> bool" where
  frame_cb: "kt_step s (set_frame_callback s)"
| control_cb: "kt_step s (set_control_callback s)"
| start: "is_layout lay \<Longrightarrow> kt_start pton bind_ok lay s = (ok, acts, s') \<Longrightarrow> kt_step s s'"
| stop: "kt_stop s = (acts, s') \<Longrightarrow> kt_step s s'"
| link: "is_layout lay \<Longrightarrow> add_peer_link pton lay peer conv s = (ok, s') \<Longrightarrow> kt_step s s'"
| control: "is_layout lay \<Longrightarrow> broadcast_control send_ok lay rand now payload s = (n, acts, s') \<Longrightarrow>
    kt_step s s'"
| broadcast: "is_layout lay \<Longrightarrow>
    broadcast_frame send_ok lay rand now type stream_id payload metadata s = (n, acts, s') \<Longrightarrow>
    kt_step s s'"
| message: "is_layout lay \<Longrightarrow> handle_kcp_message send_ok lay now key data s = (acts, s') \<Longrightarrow> kt_step s s'"

definition kt_reachable :: "KcpTunnelConfig \<Rightarrow> KcpTunnel \<Rightarrow> bool" where
  "kt_reachable config s \<longleftrightarrow> kt_step\<^sup>*\<^sup>* (KcpTunnel_init config) s"

text \<open>Every step leaves the state alone up to callbacks and run flag, marks a key, or adds a link.\<close>

definition same_tables :: "KcpTunnel \<Rightarrow> KcpTunnel \<Rightarrow> bool" where
  "same_tables s s' \<longleftrightarrow> kt_config s' = kt_config s \<and> peer_links s' = peer_links s \<and>
                        seen_broadcasts s' = seen_broadcasts s"

lemma same_tables_refl [simp]: "same_tables s s"
  by (simp add: same_tables_def)

lemma same_tables_inv: "same_tables s s' \<Longrightarrow> kt_inv s \<Longrightarrow> kt_inv s'"
  by (simp add: same_tables_def kt_inv_def)

lemma broadcast_control_state:
  "broadcast_control send_ok lay rand now payload s = (n, acts, s') \<Longrightarrow>
   s' = s \<or> (\<exists>key. s' = snd (mark_broadcast_seen lay now key s))"
  by (auto simp: broadcast_control_def Let_def split: if_splits option.splits prod.splits)

lemma broadcast_frame_state:
  "broadcast_frame send_ok lay rand now type sid payload metadata s = (n, acts, s') \<Longrightarrow>
   s' = s \<or> (\<exists>key. s' = snd (mark_broadcast_seen lay now key s))"
  by (auto simp: broadcast_frame_def Let_def split: if_splits option.splits prod.splits)

lemma prepare_state:
  "prepare_inbound_broadcast send_ok lay now type sid payload metadata s = (r, acts, s') \<Longrightarrow>
   s' = s \<or> (\<exists>key. s' = snd (mark_broadcast_seen lay now key s))"
  unfolding prepare_inbound_broadcast_def Let_def
  by (auto simp: split_beta split: if_splits BroadcastDecode.splits)

lemma handle_state:
  "handle_kcp_message send_ok lay now key data s = (acts, s') \<Longrightarrow>
   s' = s \<or> (\<exists>k. s' = snd (mark_broadcast_seen lay now k s))"
  unfolding handle_kcp_message_def Let_def
  by (auto split: option.splits prod.splits if_splits dest!: prepare_state)

lemma kt_start_state:
  assumes "kt_start pton bind_ok lay s = (ok, acts, s')"
  shows "same_tables s s' \<or>
         (\<exists>peer conv s0. same_tables s s0 \<and> same_tables (snd (add_peer_link pton lay peer conv s0)) s')"
proof (cases "same_tables s s'")
  case False
  then obtain addr where
    "same_tables (snd (add_peer_link pton lay (kt_peer (kt_config s)) (node_id (kt_peer (kt_config s)))
       (s\<lparr>kt_running := True, peer_addr := addr\<rparr>))) s'"
    using assms by (auto simp: kt_start_def Let_def same_tables_def split: if_splits option.splits)
  moreover have "same_tables s (s\<lparr>kt_running := True, peer_addr := addr\<rparr>)" by (simp add: same_tables_def)
  ultimately show ?thesis by blast
qed simp

lemma kt_step_inv:
  assumes "kt_step s s'" and "kt_inv s"
  shows "kt_inv s' \<and> kt_config s' = kt_config s"
  using assms
proof (induction rule: kt_step.induct)
  case (start lay pton bind_ok s ok acts s')
  from kt_start_state [OF start(2)] show ?case
  proof (elim disjE exE conjE)
    fix peer conv s0
    assume a: "same_tables s s0" "same_tables (snd (add_peer_link pton lay peer conv s0)) s'"
    then have "kt_inv s'"
      using start same_tables_inv add_peer_link_kt_inv by blast
    with a show ?thesis by (simp add: same_tables_def)
  qed (use start same_tables_inv in \<open>auto simp: same_tables_def\<close>)
next
  case (link lay pton peer conv s ok s')
  then show ?case using add_peer_link_kt_inv [of s lay pton peer conv] add_peer_link_frame(1) [of pton lay peer conv s]
    by simp
next
  case (control lay send_ok rand now payload s n acts s')
  then show ?case using broadcast_control_state mark_kt_inv mark_frame(1) by metis
next
  case (broadcast lay send_ok rand now type stream_id payload metadata s n acts s')
  then show ?case using broadcast_frame_state mark_kt_inv mark_frame(1) by metis
next
  case (message lay send_ok now key data s acts s')
  then show ?case using handle_state mark_kt_inv mark_frame(1) by metis
qed (auto simp: set_frame_callback_def set_control_callback_def kt_inv_def kt_stop_def split: if_splits)

lemma kt_reachable_inv:
  assumes "kt_reachable config s"
  shows "kt_inv s" and "kt_config s = config"
proof -
  have "kt_inv s \<and> kt_config s = config"
    using assms unfolding kt_reachable_def
  proof (induction rule: rtranclp_induct)
    case base
    show ?case by (simp add: init_kt_inv) (simp add: KcpTunnel_init_def)
  qed (auto dest: kt_step_inv)
  then show "kt_inv s" "kt_config s = config" by simp_all
qed

text \<open>
  C11: In every reachable state the tunnel has at most \<open>max_peer_links\<close> links, one per peer and
  filed under that peer's non-zero identifier, and remembers at most \<open>max_seen_broadcasts\<close>
  broadcasts, each once.
\<close>

theorem tunnel_invariant:
  assumes "kt_reachable config s"
  shows "length (peer_links s) \<le> max_peer_links config \<and> distinct (map fst (peer_links s)) \<and>
    (\<forall>(k, l) \<in> set (peer_links s). node_id (pl_peer l) = k \<and> \<not> conv_empty k) \<and>
    length (seen_broadcasts s) \<le> max_seen_broadcasts config \<and> distinct (map fst (seen_broadcasts s))"
  using kt_reachable_inv [OF assms] by (simp add: kt_inv_def um_ok_def)

end
