(* ===== verification/KcpTunnelClaims.thy ===== *)
theory KcpTunnelClaims
  imports KcpTunnelState
begin

text \<open>The properties of the KCP tunnel's broadcast protocol.\<close>

section \<open>Duplicate suppression\<close>

fun mark_all :: "(seen_map \<Rightarrow> seen_map) \<Rightarrow> (bytes \<times> int) list \<Rightarrow> KcpTunnel \<Rightarrow> bool list" where
  "mark_all lay [] s = []"
| "mark_all lay ((key, now) # calls) s =
     (let (fresh, s') = mark_broadcast_seen lay now key s in fresh # mark_all lay calls s')"

text \<open>For each element, whether it is new with respect to \<open>K\<close> and the elements before it.\<close>

fun first_seen :: "'a set \<Rightarrow> 'a list \<Rightarrow> bool list" where
  "first_seen K [] = []"
| "first_seen K (x # xs) = (x \<notin> K) # first_seen (insert x K) xs"

lemma first_seen_inj: "inj f \<Longrightarrow> first_seen (f ` K) (map f xs) = first_seen K xs"
proof (induction xs arbitrary: K)
  case (Cons x xs)
  have "first_seen (insert (f x) (f ` K)) (map f xs) = first_seen (insert x K) xs"
    using Cons.IH [of "insert x K"] Cons.prems by simp
  then show ?case using Cons.prems by (simp add: inj_image_mem_iff)
qed simp

definition fits_window :: "int \<Rightarrow> int \<Rightarrow> bytes \<times> int \<Rightarrow> bool" where
  "fits_window t0 ttl c \<longleftrightarrow> fst c \<noteq> [] \<and> t0 \<le> snd c \<and> snd c < t0 + ttl"

definition seen_ok :: "int \<Rightarrow> bytes set \<Rightarrow> nat \<Rightarrow> KcpTunnel \<Rightarrow> bool" where
  "seen_ok bound K left s \<longleftrightarrow>
     um_ok (seen_broadcasts s) \<and> (\<forall>(k, e) \<in> set (seen_broadcasts s). bound \<le> e) \<and>
     fst ` set (seen_broadcasts s) = K \<and>
     length (seen_broadcasts s) + left \<le> max_seen_broadcasts (kt_config s)"

lemma mark_seen_ok:
  assumes lay: "is_layout lay" and ok: "seen_ok (t0 + ttl) K (Suc left) s"
    and ttl: "uint (seen_broadcast_seconds (kt_config s)) * 1000 = ttl" "0 < ttl"
    and c: "fits_window t0 ttl (key, now)"
  shows "fst (mark_broadcast_seen lay now key s) \<longleftrightarrow> key \<notin> K"
    and "seen_ok (t0 + ttl) (insert key K) left (snd (mark_broadcast_seen lay now key s))"
proof -
  let ?m = "seen_broadcasts s" and ?e = "seen_expiry now (kt_config s)"
  have live: "live_seen now s = ?m"
    using ok c unfolding live_seen_def by (fastforce simp: filter_id_conv seen_ok_def fits_window_def)
  have e: "t0 + ttl \<le> ?e" using ttl c by (simp add: seen_expiry_def fits_window_def)
  have lim: "key \<noteq> []" "max_seen_broadcasts (kt_config s) \<noteq> 0" "length ?m < max_seen_broadcasts (kt_config s)"
    using ok c by (auto simp: seen_ok_def fits_window_def)
  note evict = evict_seen_small [OF lim(3)]
  have find: "um_find key ?m = None \<longleftrightarrow> key \<notin> K" using ok by (auto simp: um_find_None_iff seen_ok_def)
  show "fst (mark_broadcast_seen lay now key s) \<longleftrightarrow> key \<notin> K"
    using lim find by (auto simp: mark_alt live split: option.splits)
  show "seen_ok (t0 + ttl) (insert key K) left (snd (mark_broadcast_seen lay now key s))"
  proof (cases "um_find key ?m")
    case None
    have m: "mset (um_emplace lay key ?e ?m) = mset ((key, ?e) # ?m)"
      using mset_um_emplace [OF lay None] by simp
    show ?thesis
      using ok lim None e um_ok_emplace [OF lay, of ?m key ?e] mset_eq_setD [OF m] mset_eq_length [OF m]
      by (auto simp: mark_alt live evict seen_ok_def)
  next
    case (Some t)
    then have "key \<in> K" using find by simp
    moreover have "fst ` set (um_update key f ?m) = fst ` set ?m" for f
      using map_fst_um_update [of key f ?m] by (metis set_map)
    ultimately show ?thesis
      using ok lim Some e by (auto simp: mark_alt live seen_ok_def set_um_update insert_absorb)
  qed
qed

lemma mark_all_first_seen:
  assumes "is_layout lay" "seen_ok (t0 + ttl) K (length calls) s"
    and "uint (seen_broadcast_seconds (kt_config s)) * 1000 = ttl" "0 < ttl"
    and "\<forall>c \<in> set calls. fits_window t0 ttl c"
  shows "mark_all lay calls s = first_seen K (map fst calls)"
  using assms(2,3,5)
proof (induction calls arbitrary: s K)
  case (Cons c calls)
  obtain key now where c: "c = (key, now)" by force
  have w: "fits_window t0 ttl (key, now)" using Cons.prems(3) c by simp
  have ok: "seen_ok (t0 + ttl) K (Suc (length calls)) s" using Cons.prems(1) by simp
  note step = mark_seen_ok [OF assms(1) ok Cons.prems(2) assms(4) w]
  show ?case
    using Cons.IH [OF step(2)] step(1) Cons.prems c by (simp add: split_beta)
qed simp

type_synonym broadcast_id = "TunnelFrameType \<times> u64 \<times> KcpConv \<times> KcpConv"

fun seen_key :: "broadcast_id \<Rightarrow> bytes" where
  "seen_key (type, stream_id, origin, message_id) = make_seen_key type stream_id origin message_id"

lemma frame_code_inject: "frame_code a = frame_code b \<Longrightarrow> a = b"
  by (metis frame_of_code_code)

lemma seen_key_inj: "inj seen_key"
proof (rule injI)
  fix x y assume eq: "seen_key x = seen_key y"
  obtain t s o' m where x: "x = (t, s, o', m)" by (cases x)
  obtain t' s' o'' m' where y: "y = (t', s', o'', m')" by (cases y)
  have l: "length (store_u64 v) = 8" for v by simp
  have "store_u64 s @ arr_bytes o' @ arr_bytes m = store_u64 s' @ arr_bytes o'' @ arr_bytes m'"
    and t: "t = t'"
    using eq by (auto simp: x y make_seen_key_def intro: frame_code_inject)
  then have "store_u64 s = store_u64 s'" "arr_bytes o' @ arr_bytes m = arr_bytes o'' @ arr_bytes m'"
    using append_eq_append_conv l by metis+
  then have "s = s'" "o' = o''" "m = m'"
    using u64.store_inject by (auto simp: append_eq_append_conv arr_eq_iff)
  with t show "x = y" by (simp add: x y)
qed

text \<open>
  C4: Duplicate suppression is exact while it fits in memory: starting from an empty set, among
  at most \<open>max_seen_broadcasts\<close> arrivals within one retention period, in any order and at any times,
  an arrival passes exactly when no arrival before it had the same frame type, stream, origin and
  message identifier.
\<close>

theorem dedup_exact:
  assumes lay: "is_layout lay" and empty: "seen_broadcasts s = []"
    and ttl: "ttl = uint (seen_broadcast_seconds (kt_config s)) * 1000" "0 < ttl"
    and few: "length arrivals \<le> max_seen_broadcasts (kt_config s)"
    and window: "\<forall>(b, t) \<in> set arrivals. t0 \<le> t \<and> t < t0 + ttl"
  shows "mark_all lay (map (\<lambda>(b, t). (seen_key b, t)) arrivals) s = first_seen {} (map fst arrivals)"
proof -
  let ?calls = "map (\<lambda>(b, t). (seen_key b, t)) arrivals"
  have ne: "seen_key b \<noteq> []" for b by (cases b) (simp add: make_seen_key_def)
  have "\<forall>c \<in> set ?calls. fits_window t0 ttl c"
    using window ne by (auto simp: fits_window_def)
  moreover have "seen_ok (t0 + ttl) {} (length ?calls) s"
    using empty few by (simp add: seen_ok_def um_ok_def)
  ultimately have "mark_all lay ?calls s = first_seen {} (map fst ?calls)"
    using mark_all_first_seen [OF lay _ _ ttl(2)] ttl(1) by blast
  also have "map fst ?calls = map seen_key (map fst arrivals)" by (simp add: split_beta comp_def)
  also have "first_seen {} (map seen_key (map fst arrivals)) = first_seen {} (map fst arrivals)"
    using first_seen_inj [OF seen_key_inj, of "{}" "map fst arrivals"] by (simp only: image_empty)
  finally show ?thesis .
qed

definition sample_tunnel_config :: "KcpConv \<Rightarrow> KcpTunnelConfig" where
  "sample_tunnel_config self =
     \<lparr>kt_local = \<lparr>ep_host = ''0.0.0.0'', ep_port = 9000\<rparr>,
      kt_identity = \<lparr>key_pair = \<lparr>private_key = arr_of [], public_key = self\<rparr>, identity_id = self,
                     configured = True\<rparr>,
      kt_peer = \<lparr>node_endpoint = \<lparr>ep_host = [], ep_port = 0\<rparr>, node_id = conv_zero\<rparr>,
      max_peer_links = 512, broadcast_ttl = 4, max_broadcast_fanout = 32, max_seen_broadcasts = 8192,
      seen_broadcast_seconds = 600\<rparr>"

text \<open>A running node with one link, to node 3.\<close>

definition sample_pton :: "string \<Rightarrow> 4 barr option" where
  "sample_pton host = Some (arr_of [10, 0, 0, 1])"

definition sample_link :: PeerLink where
  "sample_link = \<lparr>pl_peer = sample_node 3, pl_conv = from_uint32 3,
                  pl_addr = \<lparr>sin_port = store_u16 9000, sin_addr = arr_of [10, 0, 0, 1]\<rparr>\<rparr>"

definition sample_tunnel :: "u32 \<Rightarrow> KcpTunnel" where
  "sample_tunnel n = (KcpTunnel_init (sample_tunnel_config (from_uint32 n)))
     \<lparr>frame_callback := True, kt_running := True, peer_links := [(from_uint32 3, sample_link)]\<rparr>"

lemma sample_tunnel_reachable:
  "kt_reachable (sample_tunnel_config (from_uint32 n)) (sample_tunnel n)"
proof -
  let ?c = "sample_tunnel_config (from_uint32 n)"
  let ?s1 = "set_frame_callback (KcpTunnel_init ?c)"
  let ?s2 = "?s1\<lparr>kt_running := True\<rparr>"
  have c: "node_endpoint (kt_peer ?c) = \<lparr>ep_host = [], ep_port = 0\<rparr>" "max_peer_links ?c = 512"
    by (simp_all add: sample_tunnel_config_def)
  have "kt_start sample_pton (\<lambda>_ _. True) (\<lambda>m. m) ?s1 = (True, [ManagerStart], ?s2)"
    by (simp add: kt_start_def set_frame_callback_def KcpTunnel_init_def c)
  then have 2: "kt_step ?s1 ?s2" by (rule kt_step.start [OF is_layout_id])
  have "add_peer_link sample_pton (\<lambda>m. m) (sample_node 3) (from_uint32 3) ?s2 = (True, sample_tunnel n)"
    by (simp add: add_peer_link_def make_sockaddr_def sample_pton_def um_assign_def um_find_def
        sample_tunnel_def sample_link_def set_frame_callback_def KcpTunnel_init_def c)
  then have 3: "kt_step ?s2 (sample_tunnel n)" by (rule kt_step.link [OF is_layout_id])
  have 1: "kt_step (KcpTunnel_init ?c) ?s1" by (rule kt_step.frame_cb)
  from 1 2 3 show ?thesis
    unfolding kt_reachable_def by (meson converse_rtranclp_into_rtranclp rtranclp.rtrancl_refl)
qed

lemma sample_tunnel_simps [simp]:
  "kt_config (sample_tunnel n) = sample_tunnel_config (from_uint32 n)"
  "kt_running (sample_tunnel n)" "frame_callback (sample_tunnel n)" "seen_broadcasts (sample_tunnel n) = []"
  "peer_links (sample_tunnel n) = [(from_uint32 3, sample_link)]"
  "identity_id (kt_identity (sample_tunnel_config c)) = c" "broadcast_ttl (sample_tunnel_config c) = 4"
  "max_broadcast_fanout (sample_tunnel_config c) = 32" "max_peer_links (sample_tunnel_config c) = 512"
  by (simp_all add: sample_tunnel_def KcpTunnel_init_def sample_tunnel_config_def)

theorem dedup_exact_witness:
  "mark_all (\<lambda>m. m)
     [(seen_key (Control, 0, from_uint32 1, from_uint32 7), 5),
      (seen_key (Control, 0, from_uint32 1, from_uint32 7), 6)]
     (KcpTunnel_init (sample_tunnel_config (from_uint32 2))) = [True, False]"
proof -
  let ?b = "(Control, 0 :: u64, from_uint32 1, from_uint32 7)"
  have "mark_all (\<lambda>m. m) (map (\<lambda>(b, t). (seen_key b, t)) [(?b, 5), (?b, 6)])
      (KcpTunnel_init (sample_tunnel_config (from_uint32 2))) = first_seen {} (map fst [(?b, 5 :: int), (?b, 6)])"
    by (rule dedup_exact [where ttl = 600000 and ?t0.0 = 0])
      (simp_all add: KcpTunnel_init_def sample_tunnel_config_def)
  then show ?thesis by simp
qed


section \<open>Relaying\<close>

lemma broadcast_targets_facts:
  "mset (broadcast_targets mid s) \<subseteq># mset (map snd (peer_links s))"
  "mid \<noteq> None \<Longrightarrow> max_broadcast_fanout (kt_config s) \<noteq> 0 \<Longrightarrow>
   length (broadcast_targets mid s) \<le> max_broadcast_fanout (kt_config s)"
proof -
  have t: "mset (take n (std_sort lt xs)) \<subseteq># mset xs" for n and lt and xs :: "PeerLink list"
    by (metis append_take_drop_id mset_append mset_std_sort mset_subset_eq_add_left)
  show "mset (broadcast_targets mid s) \<subseteq># mset (map snd (peer_links s))"
    using t [where xs = "map snd (peer_links s)"]
    by (auto simp: broadcast_targets_def Let_def simp del: mset_map split: option.splits)
  show "mid \<noteq> None \<Longrightarrow> max_broadcast_fanout (kt_config s) \<noteq> 0 \<Longrightarrow>
      length (broadcast_targets mid s) \<le> max_broadcast_fanout (kt_config s)"
    by (auto simp: broadcast_targets_def Let_def not_le split: option.splits)
qed

lemma broadcast_packet_acts:
  "snd (broadcast_packet send_ok packet mid s) =
     (if kt_running s \<and> packet \<noteq> []
      then map (\<lambda>l. Send (pl_addr l) (pl_conv l) packet) (broadcast_targets mid s) else [])"
  by (simp add: broadcast_packet_def Let_def)

lemma broadcast_targets_mark [simp]:
  "broadcast_targets mid (snd (mark_broadcast_seen lay now key s)) = broadcast_targets mid s"
  unfolding broadcast_targets_def mark_frame by (rule refl)

text \<open>The packet a node relays for an envelope: the same, with one less time to live.\<close>

definition relay_packet :: "TunnelFrameType \<Rightarrow> u64 \<Rightarrow> BroadcastEnvelopeView \<Rightarrow> bytes" where
  "relay_packet type sid v = encode_tunnel_frame type sid
     (encode_broadcast_envelope (env_origin v) (env_message_id v) (env_ttl v - 1) (env_payload v))"

lemma envelope_length:
  "\<not> conv_empty o' \<Longrightarrow> \<not> conv_empty m \<Longrightarrow> length p < 2 ^ 32 \<Longrightarrow>
   length (encode_broadcast_envelope o' m t p) = 76 + length p"
  by (simp add: envelope_layout)

lemma relay_packet_decodes:
  assumes frame: "decode_tunnel_frame data TunnelFrameView_init = Some f"
    and env: "decode_broadcast_envelope (fv_payload f) = Envelope v"
  shows "decode_tunnel_frame (relay_packet (fv_type f) (fv_stream_id f) v) TunnelFrameView_init =
         Some (f\<lparr>fv_payload := encode_broadcast_envelope (env_origin v) (env_message_id v)
                                 (env_ttl v - 1) (env_payload v)\<rparr>)"
    and "decode_broadcast_envelope (encode_broadcast_envelope (env_origin v) (env_message_id v)
            (env_ttl v - 1) (env_payload v)) = Envelope (v\<lparr>env_ttl := env_ttl v - 1\<rparr>)"
proof -
  note e = decode_envelope_imp [OF env] and d = decode_imp_encode [OF frame]
  have len: "length (fv_payload f) = 76 + length (env_payload v)"
    using envelope_length [OF e(3,4,2), of "env_ttl v"] e(1) by simp
  have f: "f = decoded (fv_type f) (fv_stream_id f) (fv_payload f) TunnelFrameView_init" by (rule d(4))
  have "length (encode_broadcast_envelope (env_origin v) (env_message_id v) (env_ttl v - 1) (env_payload v))
      < 2 ^ 32"
    using envelope_length [OF e(3,4,2)] len d(2) by simp
  then show "decode_tunnel_frame (relay_packet (fv_type f) (fv_stream_id f) v) TunnelFrameView_init =
         Some (f\<lparr>fv_payload := encode_broadcast_envelope (env_origin v) (env_message_id v)
                                 (env_ttl v - 1) (env_payload v)\<rparr>)"
    using d(3) arg_cong [OF f, of fv_broadcast]
    by (simp add: relay_packet_def decode_encode decoded_def TunnelFrameView.equality)
  show "decode_broadcast_envelope (encode_broadcast_envelope (env_origin v) (env_message_id v)
            (env_ttl v - 1) (env_payload v)) = Envelope (v\<lparr>env_ttl := env_ttl v - 1\<rparr>)"
    using decode_encode_envelope [OF e(3,4,2)] by simp
qed

lemma handle_sends:
  assumes "Send addr conv packet \<in> set (fst (handle_kcp_message send_ok lay now key data s))"
  obtains f v l where "decode_tunnel_frame data TunnelFrameView_init = Some f"
    "decode_broadcast_envelope (fv_payload f) = Envelope v" "auto_relay_type (fv_type f)" "1 < env_ttl v"
    "packet = relay_packet (fv_type f) (fv_stream_id f) v" "l \<in> set (broadcast_targets (Some (env_message_id v)) s)"
    "addr = pl_addr l" "conv = pl_conv l" "kt_running s" "env_origin v \<noteq> identity_id (kt_identity (kt_config s))"
proof -
  obtain f where f: "decode_tunnel_frame data TunnelFrameView_init = Some f"
    using assms by (auto simp: handle_kcp_message_def split: option.splits)
  define r where "r = prepare_inbound_broadcast send_ok lay now (fv_type f) (fv_stream_id f)
      (fv_payload f) (fv_broadcast f) s"
  have "Send addr conv packet \<in> set (fst (snd r))"
    using assms unfolding handle_kcp_message_def f option.case r_def [symmetric]
    by (auto simp: Let_def split: prod.splits option.splits if_splits)
  then obtain v where "decode_broadcast_envelope (fv_payload f) = Envelope v"
    "auto_relay_type (fv_type f)" "1 < env_ttl v" "env_origin v \<noteq> identity_id (kt_identity (kt_config s))"
    "Send addr conv packet \<in> set (snd (broadcast_packet send_ok
       (relay_packet (fv_type f) (fv_stream_id f) v) (Some (env_message_id v))
       (snd (mark_broadcast_seen lay now (make_seen_key (fv_type f) (fv_stream_id f) (env_origin v)
          (env_message_id v)) s))))"
    unfolding r_def prepare_inbound_broadcast_def relay_packet_def Let_def
    by (auto simp: split_beta split: if_splits BroadcastDecode.splits)
  then show ?thesis using f that by (auto simp: broadcast_packet_acts split: if_splits)
qed

text \<open>
  C5: Relaying is sound and cannot go on for ever. Every packet a node sends while it handles a
  message is a copy of a broadcast it has just received from another origin: it decodes to a frame
  of the same type and stream with the same origin, message identifier and content, and with a
  time to live exactly one less, which is still positive. It goes to one of the node's links.
\<close>

theorem relay_sound:
  assumes "Send addr conv packet \<in> set (fst (handle_kcp_message send_ok lay now key data s))"
  shows "\<exists>f v f' v' l. decode_tunnel_frame data TunnelFrameView_init = Some f \<and>
    decode_broadcast_envelope (fv_payload f) = Envelope v \<and>
    env_origin v \<noteq> identity_id (kt_identity (kt_config s)) \<and>
    decode_tunnel_frame packet TunnelFrameView_init = Some f' \<and>
    decode_broadcast_envelope (fv_payload f') = Envelope v' \<and>
    fv_type f' = fv_type f \<and> fv_stream_id f' = fv_stream_id f \<and>
    env_origin v' = env_origin v \<and> env_message_id v' = env_message_id v \<and> env_payload v' = env_payload v \<and>
    unat (env_ttl v) = unat (env_ttl v') + 1 \<and> 0 < unat (env_ttl v') \<and>
    l \<in> snd ` set (peer_links s) \<and> addr = pl_addr l \<and> conv = pl_conv l"
proof (rule handle_sends [OF assms])
  fix f v l assume a: "decode_tunnel_frame data TunnelFrameView_init = Some f"
    "decode_broadcast_envelope (fv_payload f) = Envelope v" "1 < env_ttl v"
    "packet = relay_packet (fv_type f) (fv_stream_id f) v" "l \<in> set (broadcast_targets (Some (env_message_id v)) s)"
    "addr = pl_addr l" "conv = pl_conv l" "env_origin v \<noteq> identity_id (kt_identity (kt_config s))"
  have ttl: "unat (env_ttl v) = unat (env_ttl v - 1) + 1" "0 < unat (env_ttl v - 1)"
    using a(3) by (simp_all add: word_less_nat_alt unat_sub word_le_nat_alt)
  have l: "l \<in> snd ` set (peer_links s)"
    using a(5) broadcast_targets_facts(1) [of "Some (env_message_id v)" s]
    by (metis mset_subset_eqD set_map set_mset_mset)
  let ?p = "encode_broadcast_envelope (env_origin v) (env_message_id v) (env_ttl v - 1) (env_payload v)"
  show ?thesis
    using relay_packet_decodes [OF a(1,2)] a ttl l
    by (intro exI [of _ f] exI [of _ v] exI [of _ "f\<lparr>fv_payload := ?p\<rparr>"]
        exI [of _ "v\<lparr>env_ttl := env_ttl v - 1\<rparr>"] exI [of _ l]) simp
qed


section \<open>Delivery\<close>

definition inbound_metadata :: "u8 \<Rightarrow> KcpConv \<Rightarrow> KcpConv \<Rightarrow> BroadcastMetadata" where
  "inbound_metadata ttl origin mid =
     \<lparr>bm_valid = True, bm_ttl = ttl, bm_origin = origin, bm_message_id = mid\<rparr>"

lemma random_id_nonempty: "make_random_message_id rand = Some mid \<Longrightarrow> \<not> conv_empty mid"
proof -
  assume r: "make_random_message_id rand = Some mid"
  then obtain out where out: "mid = (if conv_empty out then arr_of ((arr_bytes out)[31 := 1]) else out)"
    by (auto simp: make_random_message_id_def split: option.splits)
  have "31 < length ((arr_bytes out)[31 := 1])" "(arr_bytes out)[31 := 1] ! 31 = 1" by simp_all
  then have "\<not> list_all (\<lambda>v. v = 0) ((arr_bytes out)[31 := 1])"
    unfolding list_all_length using zero_neq_one by metis
  then show ?thesis by (simp add: out conv_empty_def)
qed


lemma encode_frame_nonempty: "length p < 2 ^ 32 \<Longrightarrow> encode_tunnel_frame t sid p \<noteq> []"
proof -
  assume "length p < 2 ^ 32"
  then have "length (encode_tunnel_frame t sid p) \<ge> 20" by (simp add: encode_layout)
  then show ?thesis by auto
qed

text \<open>What a node does on receiving the packet of a broadcast it does not know yet.\<close>

definition relays :: "TunnelFrameType \<Rightarrow> u64 \<Rightarrow> KcpConv \<Rightarrow> KcpConv \<Rightarrow> u8 \<Rightarrow> bytes \<Rightarrow> KcpTunnel \<Rightarrow> kt_action list" where
  "relays type sid origin mid ttl payload s =
     (if auto_relay_type type \<and> 1 < ttl \<and> kt_running s
      then map (\<lambda>l. Send (pl_addr l) (pl_conv l)
             (encode_tunnel_frame type sid (encode_broadcast_envelope origin mid (ttl - 1) payload)))
           (broadcast_targets (Some mid) s)
      else [])"

definition deliveries :: "KcpSessionKey \<Rightarrow> TunnelFrameType \<Rightarrow> u64 \<Rightarrow> KcpConv \<Rightarrow> KcpConv \<Rightarrow> u8 \<Rightarrow> bytes \<Rightarrow>
    KcpTunnel \<Rightarrow> kt_action list" where
  "deliveries key type sid origin mid ttl payload s =
     (if type = Control then (if control_callback s then [ControlUp key payload] else [])
      else (if frame_callback s
            then [FrameUp \<lparr>fv_type = type, fv_stream_id = sid, fv_payload = payload,
                           fv_broadcast = inbound_metadata ttl origin mid\<rparr>] else []))"

lemma receive_broadcast:
  fixes ttl :: u8
  assumes ids: "\<not> conv_empty origin" "\<not> conv_empty mid" and len: "76 + length payload < 2 ^ 32"
    and type: "is_relayed_type type" and sid: "type = Control \<or> sid \<noteq> 0"
  defines "packet \<equiv> encode_tunnel_frame type sid (encode_broadcast_envelope origin mid ttl payload)"
  shows "origin = identity_id (kt_identity (kt_config s)) \<Longrightarrow>
           handle_kcp_message send_ok lay now key packet s = ([], s)"
    and "origin \<noteq> identity_id (kt_identity (kt_config s)) \<Longrightarrow>
         um_find (make_seen_key type sid origin mid) (seen_broadcasts s) = None \<Longrightarrow>
           fst (handle_kcp_message send_ok lay now key packet s) =
           relays type sid origin mid ttl payload s @ deliveries key type sid origin mid ttl payload s"
proof -
  let ?e = "\<lambda>t. encode_broadcast_envelope origin mid t payload"
  have le: "length (?e t) = 76 + length payload" for t using envelope_length [OF ids] len by simp
  then have ne: "?e t \<noteq> []" for t by (metis add_is_0 list.size(3) zero_neq_numeral)
  have pne: "encode_tunnel_frame type sid (?e t) \<noteq> []" for t
    using le len by (intro encode_frame_nonempty) simp
  have d: "decode_tunnel_frame packet TunnelFrameView_init =
      Some (decoded type sid (?e ttl) TunnelFrameView_init)"
    using decode_encode [of "?e ttl" type sid] le len sid by (simp add: packet_def)
  have env: "decode_broadcast_envelope (?e ttl) =
      Envelope \<lparr>env_origin = origin, env_message_id = mid, env_ttl = ttl, env_payload = payload\<rparr>"
    using decode_encode_envelope [OF ids] len by simp
  show "handle_kcp_message send_ok lay now key packet s = ([], s)"
    if "origin = identity_id (kt_identity (kt_config s))"
    using type unfolding handle_kcp_message_def d
    by (simp add: prepare_inbound_broadcast_def decoded_def env that [symmetric])
  assume other: "origin \<noteq> identity_id (kt_identity (kt_config s))"
    and new: "um_find (make_seen_key type sid origin mid) (seen_broadcasts s) = None"
  obtain s' where m: "mark_broadcast_seen lay now (make_seen_key type sid origin mid) s = (True, s')"
    using mark_fresh [OF new, of lay now] by (metis prod.collapse)
  have s': "control_callback s' = control_callback s" "frame_callback s' = frame_callback s"
    "broadcast_targets (Some mid) s' = broadcast_targets (Some mid) s" "kt_running s' = kt_running s"
    using mark_frame [of lay now "make_seen_key type sid origin mid" s]
      broadcast_targets_mark [of "Some mid" lay now "make_seen_key type sid origin mid" s] m by simp_all
  have "prepare_inbound_broadcast send_ok lay now type sid (?e ttl) BroadcastMetadata_init s =
      (Some (Some payload, inbound_metadata ttl origin mid), relays type sid origin mid ttl payload s, s')"
    using type other m ne pne
    by (auto simp: prepare_inbound_broadcast_def env relays_def inbound_metadata_def broadcast_packet_acts s')
  then show "fst (handle_kcp_message send_ok lay now key packet s) =
      relays type sid origin mid ttl payload s @ deliveries key type sid origin mid ttl payload s"
    unfolding handle_kcp_message_def d
    by (simp add: decoded_def TunnelFrameView_init_def s' deliveries_def Let_def)
qed

abbreviation self_id :: "KcpTunnel \<Rightarrow> KcpConv" where
  "self_id s \<equiv> identity_id (kt_identity (kt_config s))"

lemma broadcast_frame_sends:
  assumes type: "is_relayed_type type" and self: "\<not> conv_empty (self_id a)"
    and rand: "make_random_message_id rand = Some mid" and len: "76 + length payload < 2 ^ 32"
    and run: "kt_running a" and sid: "sid \<noteq> 0"
  shows "snd (broadcast_frame send_ok lay rand now type sid payload None a) =
     (map (\<lambda>l. Send (pl_addr l) (pl_conv l) (encode_tunnel_frame type sid
         (encode_broadcast_envelope (self_id a) mid (broadcast_ttl (kt_config a)) payload)))
        (broadcast_targets (Some mid) a),
      snd (mark_broadcast_seen lay now (make_seen_key type sid (self_id a) mid) a))"
proof -
  note mid = random_id_nonempty [OF rand]
  let ?e = "encode_broadcast_envelope (self_id a) mid (broadcast_ttl (kt_config a)) payload"
  have le: "length ?e = 76 + length payload" using envelope_length [OF self mid] len by simp
  then have "?e \<noteq> []" by auto
  moreover have "encode_tunnel_frame type sid ?e \<noteq> []" using le len by (intro encode_frame_nonempty) simp
  moreover have "broadcast_header rand None a = Some (self_id a, mid, broadcast_ttl (kt_config a))"
    by (simp add: broadcast_header_def rand Let_def)
  ultimately show ?thesis
    using type self run sid mid
    by (simp add: broadcast_frame_def Let_def split_beta broadcast_packet_acts)
qed

text \<open>
  C7: A broadcast arrives as it was sent. When a node broadcasts a frame of a relayed type under a
  fresh message identifier, every packet it hands to the KCP manager, received by another node
  that does not yet know that identifier, is delivered to that node's frame callback with the
  original type, stream and payload and with the sender's identifier, message identifier and time
  to live as metadata; the sender itself ignores the packet when it comes back.
\<close>

theorem broadcast_delivered:
  assumes type: "is_relayed_type type" "type \<noteq> Control" and self: "\<not> conv_empty (self_id a)"
    and rand: "make_random_message_id rand = Some mid" and len: "76 + length payload < 2 ^ 32"
    and sent: "broadcast_frame send_ok lay rand now type sid payload None a = (n, acts, a')"
      "Send addr conv packet \<in> set acts"
    and other: "self_id b \<noteq> self_id a" "frame_callback b"
      "um_find (make_seen_key type sid (self_id a) mid) (seen_broadcasts b) = None"
  shows "FrameUp \<lparr>fv_type = type, fv_stream_id = sid, fv_payload = payload,
                  fv_broadcast = \<lparr>bm_valid = True, bm_ttl = broadcast_ttl (kt_config a),
                                  bm_origin = self_id a, bm_message_id = mid\<rparr>\<rparr>
           \<in> set (fst (handle_kcp_message send_ok' lay' now' key packet b)) \<and>
         handle_kcp_message send_ok' lay' now' key packet a' = ([], a')"
proof -
  have run: "kt_running a" "sid \<noteq> 0"
    using sent by (auto simp: broadcast_frame_def split: if_splits)
  note out = broadcast_frame_sends [OF type(1) self rand len run, of send_ok lay now]
  have packet: "packet = encode_tunnel_frame type sid
      (encode_broadcast_envelope (self_id a) mid (broadcast_ttl (kt_config a)) payload)"
    using sent out by auto
  have a': "self_id a' = self_id a" using sent(1) out by simp
  note recv = receive_broadcast [OF self random_id_nonempty [OF rand] len type(1) disjI2 [OF run(2)]]
  have "handle_kcp_message send_ok' lay' now' key packet a' = ([], a')"
    unfolding packet by (rule recv(1)) (simp add: a')
  moreover have "fst (handle_kcp_message send_ok' lay' now' key packet b) =
      relays type sid (self_id a) mid (broadcast_ttl (kt_config a)) payload b @
      deliveries key type sid (self_id a) mid (broadcast_ttl (kt_config a)) payload b"
    unfolding packet by (rule recv(2)) (use other in auto)
  ultimately show ?thesis using other(2) type(2) by (simp add: deliveries_def inbound_metadata_def)
qed

text \<open>
  In every reachable state a broadcast under a message identifier goes out at most once per
  link, only over existing links, and over no more than \<open>max_broadcast_fanout\<close> of them when that
  limit is set; the number reported is the number of packets the manager accepted.
\<close>

theorem fanout_bounded:
  assumes reach: "kt_reachable config s" and limit: "max_broadcast_fanout config \<noteq> 0"
    and sent: "broadcast_packet send_ok packet (Some mid) s = (n, acts)"
  shows "\<exists>ls. distinct ls \<and> set ls \<subseteq> snd ` set (peer_links s) \<and> length ls \<le> max_broadcast_fanout config \<and>
     acts = map (\<lambda>l. Send (pl_addr l) (pl_conv l) packet) ls \<and>
     n = length (filter (\<lambda>l. send_ok (pl_addr l) (pl_conv l) packet) ls)"
proof -
  note inv = kt_reachable_inv(1) [OF reach] and cfg = kt_reachable_inv(2) [OF reach]
  let ?ls = "if kt_running s \<and> packet \<noteq> [] then broadcast_targets (Some mid) s else []"
  have "inj_on snd (set (peer_links s))"
  proof (rule inj_onI)
    fix x y assume "x \<in> set (peer_links s)" "y \<in> set (peer_links s)" "snd x = snd y"
    moreover have "fst z = node_id (pl_peer (snd z))" if "z \<in> set (peer_links s)" for z
      using inv that by (auto simp: kt_inv_def)
    ultimately show "x = y" by (simp add: prod_eq_iff)
  qed
  then have "distinct (map snd (peer_links s))"
    using inv by (simp add: distinct_map kt_inv_def um_ok_def)
  then have "distinct (broadcast_targets (Some mid) s)"
    by (rule distinct_subseteq_mset [OF broadcast_targets_facts(1)])
  moreover have "set (broadcast_targets (Some mid) s) \<subseteq> snd ` set (peer_links s)"
    using broadcast_targets_facts(1) [of "Some mid" s] by (metis set_map set_mset_mono set_mset_mset)
  moreover have "length (broadcast_targets (Some mid) s) \<le> max_broadcast_fanout config"
    using broadcast_targets_facts(2) [of "Some mid" s] limit cfg by simp
  ultimately show ?thesis
    using sent by (intro exI [of _ ?ls]) (auto simp: broadcast_packet_def Let_def split: if_splits)
qed


section \<open>Witnesses\<close>

definition sample_key :: KcpSessionKey where
  "sample_key = \<lparr>sk_addr_be = 0x0a000001, sk_port_be = 0x2823, sk_reserved = 0, sk_conv = from_uint32 3\<rparr>"

lemma sample_targets: "broadcast_targets (Some mid) (sample_tunnel n) = [sample_link]"
  by (simp add: broadcast_targets_def)

theorem relay_sound_witness:
  "\<exists>addr conv packet f' v'.
     Send addr conv packet \<in> set (fst (handle_kcp_message (\<lambda>_ _ _. True) (\<lambda>m. m) 0 sample_key
       (encode_tunnel_frame Replicate 5
         (encode_broadcast_envelope (from_uint32 1) (from_uint32 7) 3 [1, 2])) (sample_tunnel 2))) \<and>
     decode_tunnel_frame packet TunnelFrameView_init = Some f' \<and>
     decode_broadcast_envelope (fv_payload f') = Envelope v' \<and> 0 < unat (env_ttl v')"
proof -
  let ?d = "encode_tunnel_frame Replicate 5 (encode_broadcast_envelope (from_uint32 1) (from_uint32 7) 3 [1, 2])"
  let ?h = "fst (handle_kcp_message (\<lambda>_ _ _. True) (\<lambda>m. m) 0 sample_key ?d (sample_tunnel 2))"
  have "?h = relays Replicate 5 (from_uint32 1) (from_uint32 7) 3 [1, 2] (sample_tunnel 2) @
      deliveries sample_key Replicate 5 (from_uint32 1) (from_uint32 7) 3 [1, 2] (sample_tunnel 2)"
    by (rule receive_broadcast(2)) (simp_all add: is_relayed_type_def um_find_def)
  then have "Send (pl_addr sample_link) (pl_conv sample_link) (encode_tunnel_frame Replicate 5
      (encode_broadcast_envelope (from_uint32 1) (from_uint32 7) 2 [1, 2])) \<in> set ?h"
    by (simp add: relays_def auto_relay_type_def sample_targets)
  from this relay_sound [OF this] show ?thesis by blast
qed

theorem broadcast_delivered_witness:
  "\<exists>addr conv packet.
     Send addr conv packet \<in> set (fst (snd (broadcast_frame (\<lambda>_ _ _. True) (\<lambda>m. m) (Some (from_uint32 7)) 0
       KafkaBroadcast 5 [1, 2] None (sample_tunnel 1)))) \<and>
     FrameUp \<lparr>fv_type = KafkaBroadcast, fv_stream_id = 5, fv_payload = [1, 2],
              fv_broadcast = \<lparr>bm_valid = True, bm_ttl = 4, bm_origin = from_uint32 1,
                              bm_message_id = from_uint32 7\<rparr>\<rparr>
       \<in> set (fst (handle_kcp_message (\<lambda>_ _ _. True) (\<lambda>m. m) 9 sample_key packet (sample_tunnel 2)))"
proof -
  let ?b = "broadcast_frame (\<lambda>_ _ _. True) (\<lambda>m. m) (Some (from_uint32 7)) 0 KafkaBroadcast 5 [1, 2] None (sample_tunnel 1)"
  have r: "make_random_message_id (Some (from_uint32 7)) = Some (from_uint32 7)"
    by (simp add: make_random_message_id_def)
  have "fst (snd ?b) = [Send (pl_addr sample_link) (pl_conv sample_link) (encode_tunnel_frame KafkaBroadcast 5
      (encode_broadcast_envelope (from_uint32 1) (from_uint32 7) 4 [1, 2]))]"
    by (subst broadcast_frame_sends [OF _ _ r])
      (simp_all add: is_relayed_type_def sample_targets)
  moreover obtain n acts a' where b: "?b = (n, acts, a')" by (cases ?b)
  ultimately have s: "Send (pl_addr sample_link) (pl_conv sample_link) (encode_tunnel_frame KafkaBroadcast 5
      (encode_broadcast_envelope (from_uint32 1) (from_uint32 7) 4 [1, 2])) \<in> set acts" by simp
  have "FrameUp \<lparr>fv_type = KafkaBroadcast, fv_stream_id = 5, fv_payload = [1, 2],
              fv_broadcast = \<lparr>bm_valid = True, bm_ttl = broadcast_ttl (kt_config (sample_tunnel 1)),
                              bm_origin = self_id (sample_tunnel 1), bm_message_id = from_uint32 7\<rparr>\<rparr>
       \<in> set (fst (handle_kcp_message (\<lambda>_ _ _. True) (\<lambda>m. m) 9 sample_key (encode_tunnel_frame KafkaBroadcast 5
      (encode_broadcast_envelope (from_uint32 1) (from_uint32 7) 4 [1, 2])) (sample_tunnel 2)))"
    by (rule broadcast_delivered [OF _ _ _ r _ b s, THEN conjunct1])
      (simp_all add: is_relayed_type_def um_find_def)
  then show ?thesis using s b by auto
qed

theorem tunnel_invariant_witness:
  "kt_reachable (sample_tunnel_config (from_uint32 2)) (sample_tunnel 2) \<and>
   length (peer_links (sample_tunnel 2)) = 1 \<and> distinct (map fst (peer_links (sample_tunnel 2)))"
  using tunnel_invariant [OF sample_tunnel_reachable [of 2]] sample_tunnel_reachable [of 2] by simp

theorem fanout_bounded_witness:
  "\<exists>ls. set ls \<subseteq> {sample_link} \<and> length ls \<le> 32 \<and>
     broadcast_packet (\<lambda>_ _ _. True) [1] (Some (from_uint32 7)) (sample_tunnel 2) =
     (1, map (\<lambda>l. Send (pl_addr l) (pl_conv l) [1]) ls)"
proof -
  obtain n acts where b: "broadcast_packet (\<lambda>_ _ _. True) [1] (Some (from_uint32 7)) (sample_tunnel 2) = (n, acts)"
    by (cases "broadcast_packet (\<lambda>_ _ _. True) [1] (Some (from_uint32 7)) (sample_tunnel 2)")
  have "n = 1" using b by (simp add: broadcast_packet_def sample_targets)
  with fanout_bounded [OF sample_tunnel_reachable [of 2] _ b] b show ?thesis by auto
qed

end
