(* ===== verification/TcpIngress.thy ===== *)
theory TcpIngress
  imports EdgeFrame
begin

text \<open>
  TCP ingress (\<open>iota_proxy/src/network/TcpIngress.cpp\<close>): connections become streams, and the
  bytes of a connection are cut into edge frames. The TCP server calls the handlers; a connection
  is its object and file descriptor. What a handler passes on (events to the runtime, calls on the
  connection or the server) is a list of actions. \<open>TcpEvent.hpp\<close> is here as well. The maps are
  never iterated, so they are partial functions.
\<close>

section \<open>Events\<close>

datatype TcpEventType = TcpConnected | TcpData | TcpClosed

datatype TcpEventSource = Ingress | Egress

record TcpEvent =
  te_type :: TcpEventType
  te_source :: TcpEventSource
  te_stream_id :: u64
  te_payload :: bytes

section \<open>State\<close>

record TcpIngressConfig =
  ti_enabled :: bool
  ti_entries :: u32
  ti_host :: string
  ti_port :: u16
  ti_worker_threads :: nat
  ti_backlog :: int
  ti_recv_buffer_size :: nat
  ti_max_events :: nat
  ti_node_id :: u32
  max_edge_frame_payload_size :: nat

text \<open>A connection object of the server; two with the same descriptor are different objects.\<close>

record TcpConnection =
  conn_object :: nat
  conn_fd :: int

record TcpIngress =
  ti_config :: TcpIngressConfig
  ti_handler :: bool
  stream_by_fd :: "int \<rightharpoonup> u64"
  frame_buffer_by_fd :: "int \<rightharpoonup> bytes"
  connection_by_stream :: "u64 \<rightharpoonup> TcpConnection"
  read_closed_streams :: "u64 set"
  next_stream_id :: u64

datatype ti_action =
    Event TcpEvent
  | ConnSend TcpConnection bytes
  | ConnShutdownWrite TcpConnection
  | ConnShutdown TcpConnection
  | ServerStart nat
  | ServerStop

definition TcpIngress_init :: "TcpIngressConfig \<Rightarrow> TcpIngress" where
  "TcpIngress_init config =
     \<lparr>ti_config = config, ti_handler = False, stream_by_fd = Map.empty, frame_buffer_by_fd = Map.empty,
      connection_by_stream = Map.empty, read_closed_streams = {}, next_stream_id = 1\<rparr>"

definition ti_set_event_handler :: "TcpIngress \<Rightarrow> TcpIngress" where
  "ti_set_event_handler s = s\<lparr>ti_handler := True\<rparr>"

text \<open>What the server is created with; it exists exactly when the configuration enables it.\<close>

definition ti_server_args :: "TcpIngressConfig \<Rightarrow> (u32 \<times> string \<times> u16 \<times> nat \<times> int \<times> nat) option" where
  "ti_server_args config =
     (if ti_enabled config
      then Some (ti_entries config, ti_host config, ti_port config, ti_worker_threads config,
                 ti_backlog config, ti_recv_buffer_size config)
      else None)"

definition ti_start :: "TcpIngress \<Rightarrow> ti_action list" where
  "ti_start s = (if \<not> ti_enabled (ti_config s) then [] else [ServerStart (ti_max_events (ti_config s))])"

definition ti_stop :: "TcpIngress \<Rightarrow> ti_action list" where
  "ti_stop s = (if ti_enabled (ti_config s) then [ServerStop] else [])"

section \<open>Operations on a stream\<close>

text \<open>\<open>alive_conn\<close> and \<open>send_ok\<close> are the answers of the connection.\<close>

definition ti_send_to_stream ::
  "(TcpConnection \<Rightarrow> bool) \<Rightarrow> (TcpConnection \<Rightarrow> bytes \<Rightarrow> bool) \<Rightarrow> u64 \<Rightarrow> bytes \<Rightarrow> TcpIngress \<Rightarrow>
   bool \<times> ti_action list" where
  "ti_send_to_stream alive_conn send_ok stream_id payload s =
     (if \<not> ti_enabled (ti_config s) \<or> stream_id = 0 \<or> payload = [] then (False, [])
      else case connection_by_stream s stream_id of
             None \<Rightarrow> (False, [])
           | Some connection \<Rightarrow>
               if alive_conn connection then (send_ok connection payload, [ConnSend connection payload])
               else (False, []))"

definition ti_shutdown_stream_write :: "u64 \<Rightarrow> TcpIngress \<Rightarrow> ti_action list" where
  "ti_shutdown_stream_write stream_id s =
     (if stream_id = 0 then []
      else case connection_by_stream s stream_id of
             None \<Rightarrow> [] | Some connection \<Rightarrow> [ConnShutdownWrite connection])"

definition ti_shutdown_stream :: "u64 \<Rightarrow> TcpIngress \<Rightarrow> ti_action list" where
  "ti_shutdown_stream stream_id s =
     (if stream_id = 0 then []
      else case connection_by_stream s stream_id of
             None \<Rightarrow> [] | Some connection \<Rightarrow> [ConnShutdown connection])"

definition find_stream_id_by_fd :: "int \<Rightarrow> TcpIngress \<Rightarrow> u64" where
  "find_stream_id_by_fd fd s = (case stream_by_fd s fd of None \<Rightarrow> 0 | Some sid \<Rightarrow> sid)"

section \<open>Connections\<close>

text \<open>The loop that draws a local identifier: the identifier and the counter after it.\<close>

function draw_local_id :: "u64 \<Rightarrow> u64 \<times> u64" where
  "draw_local_id counter =
     (let local_id = counter AND 0xffffffff; counter = counter + 1
      in if local_id = 0 then draw_local_id counter else (local_id, counter))"
  by pat_completeness auto

lemma low_mask: "(0xffffffff :: u64) = mask 32"
  by (simp add: mask_eq_exp_minus_1)

lemma unat_low: "unat ((w :: u64) AND 0xffffffff) = unat w mod 2 ^ 32"
  unfolding low_mask take_bit_eq_mask [symmetric] by (simp only: unsigned_take_bit_eq) (simp only: take_bit_eq_mod)

lemma unat_low_succ: "unat ((w + 1 :: u64) AND 0xffffffff) = (unat w + 1) mod 2 ^ 32"
proof -
  have "unat (w + 1) = (unat w + 1) mod 2 ^ 64" by (simp add: unat_word_ariths)
  then have "unat (w + 1) mod 2 ^ 32 = (unat w + 1) mod 2 ^ 32"
    using mod_mod_cancel [of "2 ^ 32" "2 ^ 64" "unat w + 1"] by (simp add: le_imp_power_dvd)
  then show ?thesis by (simp only: unat_low)
qed

lemma low_zero_succ: "(counter :: u64) AND 0xffffffff = 0 \<Longrightarrow> (counter + 1) AND 0xffffffff \<noteq> 0"
proof -
  assume "counter AND 0xffffffff = 0"
  then have "unat counter mod 2 ^ 32 = 0" using unat_low [of counter] by simp
  then have "(unat counter + 1) mod 2 ^ 32 = 1" by (simp add: mod_Suc)
  then have "unat ((counter + 1) AND 0xffffffff) = 1" by (simp only: unat_low_succ)
  then show ?thesis by auto
qed

termination draw_local_id
  by (relation "measure (\<lambda>counter. if counter AND 0xffffffff = 0 then 1 else 0)")
    (simp_all add: low_zero_succ)

declare draw_local_id.simps [simp del]

definition handle_connection ::
  "bool \<Rightarrow> TcpConnection \<Rightarrow> TcpIngress \<Rightarrow> ti_action list \<times> TcpIngress" where
  "handle_connection conn_up connection s =
     (let finish = (\<lambda>event s.
        if ti_handler s \<and> te_stream_id event \<noteq> 0 then ([Event event], s) else ([], s))
      in if conn_up then
           let (local_id, counter) = draw_local_id (next_stream_id s);
               stream_id = push_bit 32 (ucast (ti_node_id (ti_config s))) OR local_id
           in finish \<lparr>te_type = TcpConnected, te_source = Ingress, te_stream_id = stream_id, te_payload = []\<rparr>
                (s\<lparr>next_stream_id := counter,
                   stream_by_fd := (stream_by_fd s)(conn_fd connection \<mapsto> stream_id),
                   frame_buffer_by_fd := (frame_buffer_by_fd s)(conn_fd connection \<mapsto> []),
                   connection_by_stream := (connection_by_stream s)(stream_id \<mapsto> connection)\<rparr>)
         else case stream_by_fd s (conn_fd connection) of
                None \<Rightarrow> ([], s)
              | Some stream_id \<Rightarrow>
                  finish \<lparr>te_type = TcpClosed, te_source = Ingress,
                          te_stream_id = (if stream_id \<in> read_closed_streams s then 0 else stream_id),
                          te_payload = []\<rparr>
                    (s\<lparr>stream_by_fd := (stream_by_fd s)(conn_fd connection := None),
                       frame_buffer_by_fd := (frame_buffer_by_fd s)(conn_fd connection := None),
                       connection_by_stream := (connection_by_stream s)(stream_id := None),
                       read_closed_streams := read_closed_streams s - {stream_id}\<rparr>))"

definition handle_read_closed :: "TcpConnection \<Rightarrow> TcpIngress \<Rightarrow> ti_action list \<times> TcpIngress" where
  "handle_read_closed connection s =
     (case stream_by_fd s (conn_fd connection) of
        None \<Rightarrow> ([], s)
      | Some stream_id \<Rightarrow>
          let s' = s\<lparr>frame_buffer_by_fd := (frame_buffer_by_fd s)(conn_fd connection := None)\<rparr>
          in if stream_id \<in> read_closed_streams s' then ([], s')
             else
               let s' = s'\<lparr>read_closed_streams := insert stream_id (read_closed_streams s')\<rparr>
               in if ti_handler s'
                  then ([Event \<lparr>te_type = TcpClosed, te_source = Ingress, te_stream_id = stream_id,
                                te_payload = []\<rparr>], s')
                  else ([], s'))"

section \<open>Data\<close>

text \<open>
  The loop that takes complete frames off the front of the buffer: whether the connection has to
  be closed, the frames, and what is left in the buffer.
\<close>

function take_frames :: "nat \<Rightarrow> bytes \<Rightarrow> bool \<times> bytes list \<times> bytes" where
  "take_frames max_payload buffer =
     (if length buffer < kEdgeDataFrameHeaderSize then (False, [], buffer)
      else case edge_data_frame_payload_size buffer of
             None \<Rightarrow> (True, [], buffer)
           | Some payload_size \<Rightarrow>
               if unat payload_size > max_payload then (True, [], buffer)
               else
                 let frame_size = kEdgeDataFrameHeaderSize + unat payload_size
                 in if length buffer < frame_size then (False, [], buffer)
                    else
                      let (close, frames, rest) = take_frames max_payload (drop frame_size buffer)
                      in (close, take frame_size buffer # frames, rest))"
  by pat_completeness auto

termination take_frames
  by (relation "measure (\<lambda>(_, buffer). length buffer)") auto

declare take_frames.simps [simp del]

definition handle_data :: "TcpConnection \<Rightarrow> bytes \<Rightarrow> TcpIngress \<Rightarrow> ti_action list \<times> TcpIngress" where
  "handle_data connection data s =
     (if data = [] then ([], s)
      else if \<not> ti_handler s then ([], s)
      else case stream_by_fd s (conn_fd connection) of
             None \<Rightarrow> ([], s)
           | Some stream_id \<Rightarrow>
               let fd = conn_fd connection;
                   buffer = (case frame_buffer_by_fd s fd of None \<Rightarrow> [] | Some b \<Rightarrow> b);
                   max_buffer_size = kEdgeDataFrameHeaderSize + max_edge_frame_payload_size (ti_config s);
                   (close, frames, rest) =
                     (if length buffer > max_buffer_size \<or> length data > max_buffer_size \<or>
                         length buffer > max_buffer_size - length data
                      then (True, [], buffer)
                      else take_frames (max_edge_frame_payload_size (ti_config s)) (buffer @ data));
                   s' = s\<lparr>frame_buffer_by_fd := (frame_buffer_by_fd s)(fd \<mapsto> rest)\<rparr>
               in if close then ([ConnShutdown connection], s')
                  else (map (\<lambda>frame. Event \<lparr>te_type = TcpData, te_source = Ingress,
                                             te_stream_id = stream_id, te_payload = frame\<rparr>) frames, s'))"

end
