(* ===== verification/TcpIngressProps.thy ===== *)
theory TcpIngressProps
  imports TcpIngress
begin

text \<open>
  Reassembly of edge frames from the bytes of a connection: the result does not depend on how the
  bytes were cut into reads, everything delivered is a valid frame, and streams open and close in
  order.
\<close>

section \<open>Taking frames off a buffer\<close>

lemma load_u32_append: "4 \<le> length a \<Longrightarrow> load_u32 (a @ b) = load_u32 a"
  using list_length_4 [of a] by (auto simp: load_u32_def)

lemma frame_length_append: "18 \<le> length a \<Longrightarrow> load_u32 (drop 14 (a @ b)) = load_u32 (drop 14 a)"
  by (simp add: load_u32_append)

lemma payload_size_append:
  "18 \<le> length a \<Longrightarrow> edge_data_frame_payload_size (a @ b) = edge_data_frame_payload_size a"
  by (simp add: edge_data_frame_payload_size_def edge_sizes load_u32_append)

lemma payload_size_some:
  "18 \<le> length a \<Longrightarrow> edge_data_frame_payload_size a = Some (load_u32 (drop 14 a))"
  by (simp add: edge_data_frame_payload_size_def edge_sizes)

lemma take_frames_cases:
  obtains (short) "length buf < 18" "take_frames m buf = (False, [], buf)"
  | (huge) "18 \<le> length buf" "m < unat (load_u32 (drop 14 buf))" "take_frames m buf = (True, [], buf)"
  | (partial) n where "18 \<le> length buf" "n = unat (load_u32 (drop 14 buf))" "n \<le> m" "length buf < 18 + n"
      "take_frames m buf = (False, [], buf)"
  | (full) n c fs r where "n = unat (load_u32 (drop 14 buf))" "n \<le> m" "18 + n \<le> length buf"
      "take_frames m (drop (18 + n) buf) = (c, fs, r)"
      "take_frames m buf = (c, take (18 + n) buf # fs, r)"
proof -
  let ?n = "unat (load_u32 (drop 14 buf))"
  obtain c fs r where rec: "take_frames m (drop (18 + ?n) buf) = (c, fs, r)"
    by (cases "take_frames m (drop (18 + ?n) buf)") auto
  have "take_frames m buf = (if length buf < 18 then (False, [], buf)
      else if ?n > m then (True, [], buf) else if length buf < 18 + ?n then (False, [], buf)
      else (c, take (18 + ?n) buf # fs, r))"
    by (subst take_frames.simps) (simp add: payload_size_some Let_def rec)
  then show ?thesis
    using short huge partial [of ?n] full [OF refl _ _ rec] by (auto simp: not_less split: if_splits)
qed

lemma take_frames_full:
  assumes "n = unat (load_u32 (drop 14 buf))" "n \<le> m" "18 + n \<le> length buf"
  shows "take_frames m buf =
    (case take_frames m (drop (18 + n) buf) of (c, fs, r) \<Rightarrow> (c, take (18 + n) buf # fs, r))"
  by (rule take_frames_cases [of buf m]) (use assms in auto)

lemma take_frames_append:
  "take_frames m a = (False, fs, r) \<Longrightarrow>
   take_frames m (a @ b) = (case take_frames m (r @ b) of (c, gs, r') \<Rightarrow> (c, fs @ gs, r'))"
proof (induction m a arbitrary: fs r rule: take_frames.induct)
  case (1 m a)
  show ?case
  proof (rule take_frames_cases [of a m])
    fix n c gs q assume a: "n = unat (load_u32 (drop 14 a))" "n \<le> m" "18 + n \<le> length a"
      "take_frames m (drop (18 + n) a) = (c, gs, q)" "take_frames m a = (c, take (18 + n) a # gs, q)"
    have l: "18 \<le> length a" using a(3) by simp
    have "c = False" "fs = take (18 + n) a # gs" "r = q" using 1(2) a(5) by auto
    moreover have "take_frames m (drop (18 + n) a @ b) =
        (case take_frames m (q @ b) of (c, hs, r') \<Rightarrow> (c, gs @ hs, r'))"
      using 1(1) [OF _ payload_size_some [OF l]] a \<open>c = False\<close> l by (simp add: Let_def)
    moreover have "take_frames m (a @ b) = (case take_frames m (drop (18 + n) a @ b) of
        (c, hs, r') \<Rightarrow> (c, take (18 + n) a # hs, r'))"
      using a l take_frames_full [of n "a @ b" m] frame_length_append [OF l, of b] by simp
    ultimately show ?thesis by (simp add: split_beta)
  qed (use 1(2) in auto)
qed

lemma take_frames_valid:
  "take_frames m buf = (c, fs, r) \<Longrightarrow> f \<in> set fs \<Longrightarrow>
   \<exists>v. f = edge_wire v \<and> length (ef_payload v) \<le> m \<and> length (ef_payload v) < 2 ^ 32"
proof (induction m buf arbitrary: c fs r rule: take_frames.induct)
  case (1 m a)
  show ?case
  proof (rule take_frames_cases [of a m])
    fix n c' gs q assume a: "n = unat (load_u32 (drop 14 a))" "n \<le> m" "18 + n \<le> length a"
      "take_frames m (drop (18 + n) a) = (c', gs, q)" "take_frames m a = (c', take (18 + n) a # gs, q)"
    have l: "18 \<le> length a" using a(3) by simp
    have "f = take (18 + n) a \<or> f \<in> set gs" using 1(2,3) a(5) by auto
    then show ?thesis
    proof
      assume f: "f = take (18 + n) a"
      have "load_u32 (drop 14 f) = load_u32 (drop 14 a)"
        using a(3) frame_length_append [of f "drop (18 + n) a"] by (simp add: f)
      then have "decode_edge_data_frame f \<noteq> None"
        using a(1,3) by (simp add: decode_edge_data_frame_def payload_size_some f)
      then obtain v where v: "decode_edge_data_frame f = Some v" by blast
      have "length f = 18 + n" using f a(3) by simp
      then show ?thesis using decode_edge_imp_wire [OF v] a(2) by auto
    next
      assume "f \<in> set gs"
      then show ?thesis using 1(1) [OF _ payload_size_some [OF l]] a l by (simp add: Let_def)
    qed
  qed (use 1(2,3) in auto)
qed

lemma take_frames_length: "take_frames m buf = (c, fs, r) \<Longrightarrow> length r \<le> length buf"
proof (induction m buf arbitrary: c fs r rule: take_frames.induct)
  case (1 m a)
  show ?case
  proof (rule take_frames_cases [of a m])
    fix n c' gs q assume a: "n = unat (load_u32 (drop 14 a))" "n \<le> m" "18 + n \<le> length a"
      "take_frames m (drop (18 + n) a) = (c', gs, q)" "take_frames m a = (c', take (18 + n) a # gs, q)"
    have l: "18 \<le> length a" using a(3) by simp
    have "length q \<le> length (drop (18 + n) a)"
      using 1(1) [OF _ payload_size_some [OF l]] a l by (simp add: Let_def)
    then show ?thesis using 1(2) a(5) by auto
  qed (use 1(2) in auto)
qed


section \<open>Streams of frames\<close>

definition fits :: "nat \<Rightarrow> EdgeDataFrameView \<Rightarrow> bool" where
  "fits m v \<longleftrightarrow> length (ef_payload v) \<le> m \<and> length (ef_payload v) < 2 ^ 32"

lemma wire_length_field:
  "fits m v \<Longrightarrow> unat (load_u32 (drop 14 (edge_wire v @ rest))) = length (ef_payload v)"
  using payload_size_wire [of v rest] payload_size_some [of "edge_wire v @ rest"]
    unat_of_nat_small [of "length (ef_payload v)", where 'a = 32]
  by (auto simp: fits_def)

lemma take_frames_wire:
  assumes "fits m v"
  shows "take_frames m (edge_wire v @ rest) =
     (case take_frames m rest of (c, fs, r) \<Rightarrow> (c, edge_wire v # fs, r))"
proof -
  have m: "length (ef_payload v) \<le> m" using assms by (simp add: fits_def)
  have l: "18 + length (ef_payload v) = length (edge_wire v)" by simp
  show ?thesis
    using take_frames_full [OF wire_length_field [OF assms, symmetric] m, of rest]
    unfolding l by (simp del: length_edge_wire)
qed

text \<open>A proper prefix of a frame stays in the buffer.\<close>

lemma take_frames_prefix:
  assumes "fits m v" and "p @ q = edge_wire v @ rest" and "length p < length (edge_wire v)"
  shows "take_frames m p = (False, [], p)"
proof (rule take_frames_cases [of p m])
  have n: "unat (load_u32 (drop 14 p)) = length (ef_payload v)" if "18 \<le> length p"
    using frame_length_append [OF that, of q] wire_length_field [OF assms(1), of rest] assms(2) by simp
  show ?thesis if "18 \<le> length p" "m < unat (load_u32 (drop 14 p))"
    using n that assms(1) by (simp add: fits_def)
  show ?thesis if "k = unat (load_u32 (drop 14 p))" "18 + k \<le> length p" for k
    using n that assms(3) by simp
qed

text \<open>What has arrived of a stream of frames is some complete frames and a proper prefix.\<close>

lemma split_frames:
  "x @ y = concat (map edge_wire us) \<Longrightarrow>
   \<exists>us1 us2 p. us = us1 @ us2 \<and> x = concat (map edge_wire us1) @ p \<and> p @ y = concat (map edge_wire us2) \<and>
     (case us2 of [] \<Rightarrow> p = [] | v # _ \<Rightarrow> length p < length (edge_wire v))"
proof (induction us arbitrary: x)
  case (Cons v us)
  show ?case
  proof (cases "length x < length (edge_wire v)")
    case True
    then show ?thesis using Cons.prems by (intro exI [of _ "[]"] exI [of _ "v # us"] exI [of _ x]) simp
  next
    case False
    then obtain x' where x: "x = edge_wire v @ x'"
      using append_longer_prefix [of x y "edge_wire v" "concat (map edge_wire us)"] Cons.prems by auto
    then have "x' @ y = concat (map edge_wire us)" using Cons.prems by simp
    from Cons.IH [OF this] obtain us1 us2 p where
      "us = us1 @ us2" "x' = concat (map edge_wire us1) @ p" "p @ y = concat (map edge_wire us2)"
      "case us2 of [] \<Rightarrow> p = [] | v # _ \<Rightarrow> length p < length (edge_wire v)" by blast
    then show ?thesis by (intro exI [of _ "v # us1"] exI [of _ us2] exI [of _ p]) (simp add: x)
  qed
qed simp

lemma take_frames_wires:
  "\<forall>v \<in> set us. fits m v \<Longrightarrow> take_frames m p = (False, [], p) \<Longrightarrow>
   take_frames m (concat (map edge_wire us) @ p) = (False, map edge_wire us, p)"
  by (induction us) (simp_all add: take_frames_wire)

section \<open>Feeding a connection\<close>

fun feed :: "TcpConnection \<Rightarrow> bytes list \<Rightarrow> TcpIngress \<Rightarrow> ti_action list \<times> TcpIngress" where
  "feed conn [] s = ([], s)"
| "feed conn (c # cs) s =
     (let (acts, s') = handle_data conn c s; (acts', s'') = feed conn cs s' in (acts @ acts', s''))"

definition data_event :: "u64 \<Rightarrow> bytes \<Rightarrow> ti_action" where
  "data_event sid frame =
     Event \<lparr>te_type = TcpData, te_source = Ingress, te_stream_id = sid, te_payload = frame\<rparr>"

text \<open>A connection with stream \<open>sid\<close> whose buffer holds \<open>b\<close>, and the room the configuration leaves.\<close>

definition open_conn :: "TcpConnection \<Rightarrow> u64 \<Rightarrow> bytes \<Rightarrow> TcpIngress \<Rightarrow> bool" where
  "open_conn conn sid b s \<longleftrightarrow> ti_handler s \<and> stream_by_fd s (conn_fd conn) = Some sid \<and>
     frame_buffer_by_fd s (conn_fd conn) = Some b"

lemma handle_data_step:
  assumes "open_conn conn sid b s" and "length b + length c \<le> 18 + max_edge_frame_payload_size (ti_config s)"
    and "take_frames (max_edge_frame_payload_size (ti_config s)) (b @ c) = (False, fs, r)" and "c \<noteq> []"
  shows "fst (handle_data conn c s) = map (data_event sid) fs"
    and "open_conn conn sid r (snd (handle_data conn c s))"
    and "ti_config (snd (handle_data conn c s)) = ti_config s"
  using assms by (auto simp: handle_data_def open_conn_def data_event_def Let_def)

lemma feed_frames:
  assumes "open_conn conn sid b s" and "b @ concat chunks = concat (map edge_wire us)"
    and "take_frames m b = (False, [], b)" and m: "m = max_edge_frame_payload_size (ti_config s)"
    and "\<forall>v \<in> set us. length (ef_payload v) + limit \<le> m \<and> length (ef_payload v) < 2 ^ 32"
    and "\<forall>c \<in> set chunks. length c \<le> limit"
  shows "fst (feed conn chunks s) = map (data_event sid) (map edge_wire us) \<and>
         open_conn conn sid [] (snd (feed conn chunks s))"
  using assms
proof (induction chunks arbitrary: b us s)
  case Nil
  have fit: "\<forall>v \<in> set us. fits m v" using Nil.prems(5) by (auto simp: fits_def)
  have "take_frames m [] = (False, [], [])" by (subst take_frames.simps) simp
  then have "take_frames m b = (False, map edge_wire us, [])"
    using take_frames_wires [OF fit, of "[]"] Nil.prems(2) by simp
  then have "us = []" "b = []" using Nil.prems(3) by auto
  then show ?case using Nil.prems(1) by simp
next
  case (Cons c cs)
  have fit: "\<forall>v \<in> set us. fits m v" using Cons.prems(5) by (auto simp: fits_def)
  show ?case
  proof (cases "c = []")
    case True
    have "b @ concat cs = concat (map edge_wire us)" using Cons.prems(2) True by simp
    moreover have "\<forall>c \<in> set cs. length c \<le> limit" using Cons.prems(6) by simp
    ultimately have "fst (feed conn cs s) = map (data_event sid) (map edge_wire us) \<and>
        open_conn conn sid [] (snd (feed conn cs s))"
      using Cons.IH Cons.prems(1,3,4,5) by blast
    then show ?thesis by (simp add: True handle_data_def split_beta)
  next
    case ne: False
    obtain v us' where us: "us = v # us'" using Cons.prems(2) ne by (cases us) auto
    have "length b < length (edge_wire v)"
    proof (rule ccontr)
      assume "\<not> length b < length (edge_wire v)"
      then obtain b' where "b = edge_wire v @ b'"
        using append_longer_prefix [of b "concat (c # cs)" "edge_wire v" "concat (map edge_wire us')"]
          Cons.prems(2) us by auto
      moreover have "fits m v" using fit us by simp
      ultimately obtain c fs r where "take_frames m b = (c, edge_wire v # fs, r)"
        using take_frames_wire [of m v b'] by (cases "take_frames m b'") simp
      then show False using Cons.prems(3) by simp
    qed
    then have room: "length b + length c \<le> 18 + m" using Cons.prems(5,6) us by auto
    have "(b @ c) @ concat cs = concat (map edge_wire us)" using Cons.prems(2) by simp
    from split_frames [OF this] obtain us1 us2 p where sp: "us = us1 @ us2"
      "b @ c = concat (map edge_wire us1) @ p" "p @ concat cs = concat (map edge_wire us2)"
      "case us2 of [] \<Rightarrow> p = [] | v # _ \<Rightarrow> length p < length (edge_wire v)" by blast
    have p: "take_frames m p = (False, [], p)"
    proof (cases us2)
      case Nil
      then show ?thesis using sp(4) by (subst take_frames.simps) simp
    next
      case (Cons w ws)
      then have "p @ concat cs = edge_wire w @ concat (map edge_wire ws)" using sp(3) by simp
      moreover have "fits m w" "length p < length (edge_wire w)" using fit sp(1,4) Cons by simp_all
      ultimately show ?thesis using take_frames_prefix by blast
    qed
    have t: "take_frames m (b @ c) = (False, map edge_wire us1, p)"
      unfolding sp(2) by (rule take_frames_wires [OF _ p]) (use fit sp(1) in simp)
    note step = handle_data_step [OF Cons.prems(1) _ _ ne, folded Cons.prems(4), OF room t]
    have "fst (feed conn cs (snd (handle_data conn c s))) = map (data_event sid) (map edge_wire us2) \<and>
        open_conn conn sid [] (snd (feed conn cs (snd (handle_data conn c s))))"
    proof (rule Cons.IH [OF step(2) sp(3) p])
      show "m = max_edge_frame_payload_size (ti_config (snd (handle_data conn c s)))"
        using Cons.prems(4) step(3) by simp
      show "\<forall>v \<in> set us2. length (ef_payload v) + limit \<le> m \<and> length (ef_payload v) < 2 ^ 32"
        using Cons.prems(5) sp(1) by simp
      show "\<forall>c \<in> set cs. length c \<le> limit" using Cons.prems(6) by simp
    qed
    then show ?thesis using step(1) sp(1) by (simp add: split_beta)
  qed
qed

end
