(* ===== verification/TcpIngressClaims.thy ===== *)
theory TcpIngressClaims
  imports TcpIngressProps
begin

text \<open>
  The properties of the TCP ingress: frames are reassembled whatever the chunks they arrive in, and
  the life cycle of a stream over any interleaving of the server's calls.
\<close>

section \<open>Reassembly\<close>

definition sample_ingress_config :: TcpIngressConfig where
  "sample_ingress_config =
     \<lparr>ti_enabled = True, ti_entries = 256, ti_host = ''0.0.0.0'', ti_port = 7000, ti_worker_threads = 1,
      ti_backlog = 1024, ti_recv_buffer_size = 16384, ti_max_events = 64, ti_node_id = 1,
      max_edge_frame_payload_size = 1024\<rparr>"

definition sample_conn :: TcpConnection where
  "sample_conn = \<lparr>conn_object = 1, conn_fd = 7\<rparr>"

definition sample_edge_frame :: EdgeDataFrameView where
  "sample_edge_frame = \<lparr>ef_mac = arr_of [1, 2, 3, 4, 5, 6], ef_timestamp_ms = 9, ef_payload = [104, 105]\<rparr>"

text \<open>An ingress on which \<open>sample_conn\<close> has just been accepted as stream \<open>2^32 + 1\<close>.\<close>

definition sample_ingress :: TcpIngress where
  "sample_ingress = (TcpIngress_init sample_ingress_config)
     \<lparr>ti_handler := True, next_stream_id := 2, stream_by_fd := [7 \<mapsto> 0x100000001],
      frame_buffer_by_fd := [7 \<mapsto> []], connection_by_stream := [0x100000001 \<mapsto> sample_conn]\<rparr>"

text \<open>
  C16: Frames are reassembled exactly. When the bytes of a sequence of edge frames arrive on an open
  connection, cut into chunks in any way, the ingress passes on exactly these frames, in order, one
  Data event each under the connection's stream, and its buffer is empty at the end; provided that
  every payload leaves room for one chunk below the configured maximum.
\<close>

theorem frames_reassembled:
  assumes "open_conn conn sid [] s"
    and "concat chunks = concat (map edge_wire frames)"
    and "\<forall>v \<in> set frames. length (ef_payload v) + limit \<le> max_edge_frame_payload_size (ti_config s) \<and>
           length (ef_payload v) < 2 ^ 32"
    and "\<forall>c \<in> set chunks. length c \<le> limit"
  shows "fst (feed conn chunks s) = map (data_event sid) (map edge_wire frames) \<and>
         open_conn conn sid [] (snd (feed conn chunks s)) \<and>
         (\<forall>v \<in> set frames. decode_edge_data_frame (edge_wire v) = Some v)"
proof -
  have "take_frames m [] = (False, [], [])" for m by (subst take_frames.simps) simp
  then show ?thesis
    using feed_frames [OF assms(1) _ _ refl assms(3,4)] assms(2,3) by (simp add: decode_edge_wire)
qed

theorem frames_reassembled_witness:
  "let w = edge_wire sample_edge_frame @ edge_wire sample_edge_frame
   in fst (feed sample_conn [take 5 w, drop 5 w] sample_ingress) =
        map (data_event 0x100000001) [edge_wire sample_edge_frame, edge_wire sample_edge_frame]"
proof -
  define w where "w = edge_wire sample_edge_frame @ edge_wire sample_edge_frame"
  have o: "open_conn sample_conn 0x100000001 [] sample_ingress"
    by (simp add: open_conn_def sample_conn_def sample_ingress_def)
  have c: "concat [take 5 w, drop 5 w] = concat (map edge_wire [sample_edge_frame, sample_edge_frame])"
    by (simp add: w_def)
  have f: "\<forall>v \<in> set [sample_edge_frame, sample_edge_frame]. length (ef_payload v) + 100 \<le>
      max_edge_frame_payload_size (ti_config sample_ingress) \<and> length (ef_payload v) < 2 ^ 32"
    by (simp add: sample_edge_frame_def sample_ingress_def TcpIngress_init_def sample_ingress_config_def)
  have "\<forall>c \<in> set [take 5 w, drop 5 w]. length c \<le> 100"
    by (simp add: w_def sample_edge_frame_def)
  from frames_reassembled [OF o c f this] show ?thesis
    unfolding w_def [symmetric] Let_def by (simp del: feed.simps)
qed

text \<open>
  C22: The limit of the buffer also hits valid input. When the rest of a frame of the largest
  accepted size arrives together with the first bytes of the next frame, the connection is shut
  down and the complete frame is not passed on, although both frames are valid.
\<close>

theorem pipelined_frame_refused:
  assumes "open_conn conn sid b s" and "length (ef_payload v) = max_edge_frame_payload_size (ti_config s)"
    and "b @ c = edge_wire v @ x" and "x \<noteq> []" and "length b < length (edge_wire v)"
  shows "fst (handle_data conn c s) = [ConnShutdown conn] \<and>
         frame_buffer_by_fd (snd (handle_data conn c s)) (conn_fd conn) = Some b"
proof -
  have "length b + length c = length (edge_wire v) + length x"
    using assms(3) by (metis length_append)
  then have l: "length b + length c > 18 + max_edge_frame_payload_size (ti_config s)"
    using assms(2,4) by simp
  moreover have "c \<noteq> []" using assms(3,5) by auto
  ultimately show ?thesis using assms(1) by (auto simp: handle_data_def open_conn_def Let_def)
qed

theorem pipelined_frame_refused_witness:
  "let v = sample_edge_frame\<lparr>ef_payload := replicate 1024 0\<rparr>;
       c = edge_wire v @ [1]
   in fst (handle_data sample_conn c sample_ingress) = [ConnShutdown sample_conn]"
proof -
  let ?v = "sample_edge_frame\<lparr>ef_payload := replicate 1024 0\<rparr>"
  have "open_conn sample_conn 0x100000001 [] sample_ingress"
    by (simp add: open_conn_def sample_conn_def sample_ingress_def)
  moreover have "length (ef_payload ?v) = max_edge_frame_payload_size (ti_config sample_ingress)"
    by (simp add: sample_ingress_def TcpIngress_init_def sample_ingress_config_def)
  moreover have "[] @ (edge_wire ?v @ [1]) = edge_wire ?v @ [1]" by (rule append_Nil)
  ultimately show ?thesis
    unfolding Let_def
    using pipelined_frame_refused [of sample_conn "0x100000001" "[]" sample_ingress ?v "edge_wire ?v @ [1]" "[1]"]
    by (simp del: append_Nil)
qed

section \<open>The life cycle of a stream\<close>


fun is_event :: "TcpEventType \<Rightarrow> u64 \<Rightarrow> ti_action \<Rightarrow> bool" where
  "is_event ty sid (Event e) = (te_type e = ty \<and> te_stream_id e = sid)"
| "is_event ty sid _ = False"

definition n_events :: "TcpEventType \<Rightarrow> u64 \<Rightarrow> ti_action list \<Rightarrow> nat" where
  "n_events ty sid hist = length (filter (is_event ty sid) hist)"

lemma n_events_simps [simp]:
  "n_events ty sid [] = 0"
  "n_events ty sid (a # as) = (if is_event ty sid a then 1 else 0) + n_events ty sid as"
  "n_events ty sid (as @ bs) = n_events ty sid as + n_events ty sid bs"
  by (simp_all add: n_events_def)

























lemma data_event_simps [simp]:
  "is_event ty sid (data_event sid' f) \<longleftrightarrow> ty = TcpData \<and> sid = sid'"
  by (auto simp: data_event_def)








end
