(* ===== verification/Sockets.thy ===== *)
theory Sockets
  imports NodeId
begin

text \<open>
  The socket calls shared by the TCP egress and the Redis client. What the system answers to the
  calls of a function, in order, is a list; a function consumes the answers it asks for and returns
  the rest. \<open>None\<close> means that the answers ended while the function was still waiting for one: the
  call has not returned. \<open>errno\<close> only appears as the kind of a failure.
\<close>

datatype sys_answer =
    Sent nat            \<comment> \<open>\<open>send\<close> took so many bytes\<close>
  | Received bytes      \<comment> \<open>\<open>recv\<close> delivered these bytes; none at the end of the stream\<close>
  | Ready bool          \<comment> \<open>\<open>poll\<close> reports the descriptor, with the wanted event or without\<close>
  | TimedOut            \<comment> \<open>\<open>poll\<close> returned 0\<close>
  | Interrupted         \<comment> \<open>\<open>EINTR\<close>\<close>
  | Failed              \<comment> \<open>any other error\<close>

type_synonym sys_answers = "sys_answer list"

section \<open>Text and bytes\<close>

definition str_bytes :: "string \<Rightarrow> bytes" where
  "str_bytes s = map (\<lambda>c. of_nat (code c)) s"

definition bytes_str :: "bytes \<Rightarrow> string" where
  "bytes_str bs = map (\<lambda>b. char_of (unat b)) bs"

section \<open>Waiting\<close>

text \<open>The timeout handed to \<open>poll\<close>: 0 means for ever, and the cast to \<open>int\<close> is signed.\<close>

definition poll_timeout :: "u32 \<Rightarrow> int" where
  "poll_timeout timeout_ms = (if timeout_ms = 0 then -1 else sint timeout_ms)"

text \<open>The loop around \<open>poll\<close>; the answer that ended it.\<close>

fun poll_loop :: "sys_answers \<Rightarrow> (sys_answer \<times> sys_answers) option" where
  "poll_loop [] = None"
| "poll_loop (a # w) = (if a = Interrupted then poll_loop w else Some (a, w))"

section \<open>Connecting\<close>

text \<open>The answers to the calls that open a socket.\<close>

record connect_answers =
  ca_socket :: int              \<comment> \<open>\<open>socket\<close>\<close>
  ca_getfl :: int               \<comment> \<open>\<open>fcntl(F_GETFL)\<close>\<close>
  ca_setfl :: bool              \<comment> \<open>whether \<open>fcntl(F_SETFL)\<close> with \<open>O_NONBLOCK\<close> succeeded\<close>
  ca_connect :: sys_answer      \<comment> \<open>\<open>connect\<close>: \<open>Ready True\<close> for 0, \<open>TimedOut\<close> for \<open>EINPROGRESS\<close>\<close>
  ca_poll :: sys_answers
  ca_getsockopt :: "int option" \<comment> \<open>\<open>SO_ERROR\<close>, \<open>None\<close> when the call failed\<close>
  ca_restore :: bool            \<comment> \<open>whether the old flags could be restored\<close>

text \<open>The steps after the socket exists: whether it is usable. \<open>wanted\<close> is the test on the answer of \<open>poll\<close>.\<close>

definition finish_connect :: "(sys_answer \<Rightarrow> bool) \<Rightarrow> connect_answers \<Rightarrow> bool option" where
  "finish_connect wanted a =
     (if ca_getfl a < 0 \<or> \<not> ca_setfl a then Some False
      else
        let restored = Some (ca_restore a)
        in case ca_connect a of
             Ready _ \<Rightarrow> restored
           | TimedOut \<Rightarrow>
               (case poll_loop (ca_poll a) of
                  None \<Rightarrow> None
                | Some (answer, _) \<Rightarrow>
                    if \<not> wanted answer then Some False
                    else if ca_getsockopt a \<noteq> Some 0 then Some False
                    else restored)
           | _ \<Rightarrow> Some False)"

text \<open>
  A connection attempt: the descriptor or -1, and the descriptors it closed. \<open>None\<close> while \<open>poll\<close>
  has not answered.
\<close>

definition connect_with ::
  "(sys_answer \<Rightarrow> bool) \<Rightarrow> (string \<Rightarrow> 4 barr option) \<Rightarrow> Ipv4Endpoint \<Rightarrow> connect_answers \<Rightarrow>
   (int \<times> int list) option" where
  "connect_with wanted inet_pton endpoint a =
     (case make_sockaddr inet_pton endpoint of
        None \<Rightarrow> Some (-1, [])
      | Some _ \<Rightarrow>
          if ca_socket a < 0 then Some (-1, [])
          else case finish_connect wanted a of
                 None \<Rightarrow> None
               | Some ok \<Rightarrow> Some (if ok then (ca_socket a, []) else (-1, [ca_socket a])))"

text \<open>No descriptor leaks: a failed attempt has closed the socket it opened, a successful one keeps it open.\<close>

lemma connect_with_cases:
  assumes "connect_with wanted inet_pton endpoint a = Some (fd, cls)"
  shows "fd < 0 \<and> cls = (if make_sockaddr inet_pton endpoint \<noteq> None \<and> 0 \<le> ca_socket a then [ca_socket a] else []) \<or>
    0 \<le> fd \<and> fd = ca_socket a \<and> cls = []"
  using assms by (auto simp: connect_with_def split: option.splits if_splits)

section \<open>Sending\<close>

text \<open>
  Sending a whole buffer: whether it succeeded, the bytes the socket took and the answers left. The
  result of \<open>send\<close> is at most the length passed.
\<close>

fun write_all :: "sys_answers \<Rightarrow> bytes \<Rightarrow> (bool \<times> bytes \<times> sys_answers) option" where
  "write_all [] data = (if data = [] then Some (True, [], []) else None)"
| "write_all (a # w) data =
     (if data = [] then Some (True, [], a # w)
      else case a of
             Interrupted \<Rightarrow> write_all w data
           | Sent n \<Rightarrow>
               if n = 0 then Some (False, [], w)
               else (case write_all w (drop n data) of
                       None \<Rightarrow> None
                     | Some (ok, sent, w') \<Rightarrow> Some (ok, take n data @ sent, w'))
           | _ \<Rightarrow> Some (False, [], w))"

text \<open>What the socket took is a prefix of the data, and all of it when the call succeeds.\<close>

lemma write_all_prefix:
  "write_all w data = Some (ok, sent, w') \<Longrightarrow>
   (\<exists>rest. data = sent @ rest) \<and> (ok \<longrightarrow> sent = data) \<and> (\<exists>used. w = used @ w')"
proof (induction w arbitrary: data sent)
  case Nil
  then show ?case by (auto split: if_splits)
next
  case (Cons a w)
  have skip: "\<exists>used. w = used @ w' \<Longrightarrow> \<exists>used. a # w = used @ w'" by (metis append_Cons)
  show ?case
  proof (cases "data = []")
    case True
    then show ?thesis using Cons.prems by simp
  next
    case ne: False
    consider (sent) n where "a = Sent n" "n \<noteq> 0" | (intr) "a = Interrupted"
      | (other) "ok = False" "sent = []" "w' = w"
      using Cons.prems ne by (cases a) (auto split: if_splits)
    then show ?thesis
    proof cases
      case (sent n)
      then obtain more where rec: "write_all w (drop n data) = Some (ok, more, w')" "sent = take n data @ more"
        using Cons.prems ne by (auto split: option.splits)
      then obtain rest where "drop n data = more @ rest" using Cons.IH [OF rec(1)] by blast
      then have "data = sent @ rest" using rec(2) append_take_drop_id [of n data] by simp
      then show ?thesis using Cons.IH [OF rec(1)] skip rec(2) by auto
    next
      case intr
      then show ?thesis using Cons.IH [of data sent] Cons.prems ne skip by simp
    next
      case other
      then show ?thesis by simp
    qed
  qed
qed

text \<open>With answers that take one byte at least each time, \<open>length data\<close> of them are enough.\<close>

lemma write_all_returns:
  "\<forall>a \<in> set w. \<exists>n > 0. a = Sent n \<Longrightarrow> length data \<le> length w \<Longrightarrow>
   \<exists>w'. write_all w data = Some (True, data, w')"
proof (induction w arbitrary: data)
  case (Cons a w)
  show ?case
  proof (cases "data = []")
    case False
    obtain n where a: "a = Sent n" "0 < n" using Cons.prems(1) by auto
    have "length (drop n data) \<le> length w" using Cons.prems(2) a(2) by simp
    then obtain w' where "write_all w (drop n data) = Some (True, drop n data, w')"
      using Cons.IH [of "drop n data"] Cons.prems(1) by auto
    then show ?thesis using False a by simp
  qed simp
qed simp

end
