(* ===== verification/TcpEgress.thy ===== *)
theory TcpEgress
  imports Sockets TcpIngress HashMap "HOL-Library.Multiset"
begin

text \<open>
  TCP egress (\<open>iota_proxy/src/network/TcpEgress.cpp\<close>): streams of the tunnel become connections to
  the target, each with a thread that reads it. A stream object is shared by the table, by the
  calls that use it and by its thread, so it lives in an explicit store and is named by its index.
  Every operation is split at the points where it gives up the lock or reads the atomic flag; the
  pieces are composed to the sequential operations here, and to an interleaving of threads in
  \<open>TcpEgressSteps\<close>.
\<close>

section \<open>State\<close>

record TcpEgressConfig =
  eg_target :: Ipv4Endpoint
  eg_recv_buffer_size :: nat
  eg_max_streams :: nat
  eg_connect_timeout_ms :: u32

record EgressStream =
  es_id :: u64
  es_fd :: int
  es_open :: bool

record TcpEgress =
  eg_config :: TcpEgressConfig
  eg_handler :: bool
  eg_stopping :: bool
  eg_streams :: "(u64 \<times> nat) list"
  eg_threads :: "nat list"
  eg_objects :: "EgressStream list"

datatype eg_action =
    EgEvent TcpEvent
  | EgSend int bytes
  | EgShutdownWrite int
  | EgShutdown int
  | EgClose int
  | EgJoin nat

definition TcpEgress_init :: "TcpEgressConfig \<Rightarrow> TcpEgress" where
  "TcpEgress_init config =
     \<lparr>eg_config = config, eg_handler = False, eg_stopping = False, eg_streams = [], eg_threads = [],
      eg_objects = []\<rparr>"

definition new_stream :: "u64 \<Rightarrow> int \<Rightarrow> EgressStream" where
  "new_stream stream_id socket_fd = \<lparr>es_id = stream_id, es_fd = socket_fd, es_open = True\<rparr>"

definition eg_set_event_handler :: "TcpEgress \<Rightarrow> TcpEgress" where
  "eg_set_event_handler s = s\<lparr>eg_handler := True\<rparr>"

section \<open>Closing\<close>

definition remove_stream :: "u64 \<Rightarrow> TcpEgress \<Rightarrow> nat option \<times> TcpEgress" where
  "remove_stream stream_id s =
     (case um_find stream_id (eg_streams s) of
        None \<Rightarrow> (None, s)
      | Some stream \<Rightarrow> (Some stream, s\<lparr>eg_streams := um_erase stream_id (eg_streams s)\<rparr>))"

text \<open>\<open>open.exchange(false)\<close>: the old value.\<close>

definition exchange_open :: "nat \<Rightarrow> TcpEgress \<Rightarrow> bool \<times> TcpEgress" where
  "exchange_open stream s =
     (es_open (eg_objects s ! stream),
      s\<lparr>eg_objects := (eg_objects s)[stream := (eg_objects s ! stream)\<lparr>es_open := False\<rparr>]\<rparr>)"

definition close_fd :: "nat option \<Rightarrow> TcpEgress \<Rightarrow> eg_action list \<times> TcpEgress" where
  "close_fd stream s =
     (case stream of
        None \<Rightarrow> ([], s)
      | Some obj \<Rightarrow>
          let (was_open, s') = exchange_open obj s; fd = es_fd (eg_objects s ! obj)
          in (if was_open then [EgShutdown fd, EgClose fd] else [], s'))"

definition close_stream :: "u64 \<Rightarrow> TcpEgress \<Rightarrow> eg_action list \<times> TcpEgress" where
  "close_stream stream_id s = (let (stream, s') = remove_stream stream_id s in close_fd stream s')"

section \<open>Opening\<close>

text \<open>Any answer of \<open>poll\<close> but a timeout or an error lets the connection go on.\<close>

definition poll_reported :: "sys_answer \<Rightarrow> bool" where
  "poll_reported a = (case a of Ready _ \<Rightarrow> True | _ \<Rightarrow> False)"

definition connect_tcp ::
  "(string \<Rightarrow> 4 barr option) \<Rightarrow> Ipv4Endpoint \<Rightarrow> connect_answers \<Rightarrow> (int \<times> int list) option" where
  "connect_tcp = connect_with poll_reported"

definition open_check :: "u64 \<Rightarrow> TcpEgress \<Rightarrow> bool" where
  "open_check stream_id s \<longleftrightarrow>
     \<not> (stream_id = 0 \<or> ep_host (eg_target (eg_config s)) = [] \<or> ep_port (eg_target (eg_config s)) = 0 \<or>
        eg_stopping s) \<and>
     \<not> (um_find stream_id (eg_streams s) \<noteq> None \<or> length (eg_streams s) \<ge> eg_max_streams (eg_config s))"

text \<open>
  The second critical section, with the connected descriptor: the result, \<open>None\<close> when starting the
  thread failed and the exception is passed on.
\<close>

definition open_insert ::
  "((u64 \<times> nat) list \<Rightarrow> (u64 \<times> nat) list) \<Rightarrow> bool \<Rightarrow> u64 \<Rightarrow> int \<Rightarrow> TcpEgress \<Rightarrow>
   bool option \<times> eg_action list \<times> TcpEgress" where
  "open_insert lay spawn_ok stream_id fd s =
     (if eg_stopping s \<or> um_find stream_id (eg_streams s) \<noteq> None \<or>
         length (eg_streams s) \<ge> eg_max_streams (eg_config s)
      then (Some False, [EgClose fd], s)
      else
        let obj = length (eg_objects s);
            s' = s\<lparr>eg_objects := eg_objects s @ [new_stream stream_id fd],
                   eg_streams := um_assign lay stream_id obj (eg_streams s)\<rparr>
        in if spawn_ok then (Some True, [], s'\<lparr>eg_threads := eg_threads s' @ [obj]\<rparr>)
           else (None, [EgClose fd], snd (remove_stream stream_id s')))"

definition open_stream ::
  "(string \<Rightarrow> 4 barr option) \<Rightarrow> ((u64 \<times> nat) list \<Rightarrow> (u64 \<times> nat) list) \<Rightarrow> bool \<Rightarrow> connect_answers \<Rightarrow>
   u64 \<Rightarrow> TcpEgress \<Rightarrow> (bool option \<times> eg_action list \<times> TcpEgress) option" where
  "open_stream inet_pton lay spawn_ok a stream_id s =
     (if \<not> open_check stream_id s then Some (Some False, [], s)
      else case connect_tcp inet_pton (eg_target (eg_config s)) a of
             None \<Rightarrow> None
           | Some (fd, cls) \<Rightarrow>
               if fd < 0 then Some (Some False, map EgClose cls, s)
               else Some (open_insert lay spawn_ok stream_id fd s))"

section \<open>Sending\<close>

definition eg_send_to_stream ::
  "sys_answers \<Rightarrow> u64 \<Rightarrow> bytes \<Rightarrow> TcpEgress \<Rightarrow> (bool \<times> eg_action list \<times> TcpEgress) option" where
  "eg_send_to_stream w stream_id payload s =
     (if stream_id = 0 \<or> payload = [] \<or> eg_stopping s then Some (False, [], s)
      else case um_find stream_id (eg_streams s) of
             None \<Rightarrow> Some (False, [], s)
           | Some obj \<Rightarrow>
               if \<not> es_open (eg_objects s ! obj) then Some (False, [], s)
               else
                 (case write_all w payload of
                    None \<Rightarrow> None
                  | Some (ok, sent, _) \<Rightarrow>
                      let send = EgSend (es_fd (eg_objects s ! obj)) sent
                      in if ok then Some (True, [send], s)
                         else let (acts, s') = close_stream stream_id s in Some (False, send # acts, s')))"

definition eg_shutdown_stream_write :: "u64 \<Rightarrow> TcpEgress \<Rightarrow> eg_action list" where
  "eg_shutdown_stream_write stream_id s =
     (if stream_id = 0 then []
      else case um_find stream_id (eg_streams s) of
             None \<Rightarrow> []
           | Some obj \<Rightarrow>
               if es_open (eg_objects s ! obj) then [EgShutdownWrite (es_fd (eg_objects s ! obj))] else [])"

section \<open>Stopping\<close>

text \<open>The critical section of \<open>stop\<close>: the streams and threads it takes over.\<close>

definition stop_take :: "TcpEgress \<Rightarrow> nat list \<times> nat list \<times> TcpEgress" where
  "stop_take s = (map snd (eg_streams s), eg_threads s, s\<lparr>eg_streams := [], eg_threads := []\<rparr>)"

fun close_all :: "nat list \<Rightarrow> TcpEgress \<Rightarrow> eg_action list \<times> TcpEgress" where
  "close_all [] s = ([], s)"
| "close_all (obj # objs) s =
     (let (acts, s') = close_fd (Some obj) s; (acts', s'') = close_all objs s' in (acts @ acts', s''))"

definition eg_stop :: "TcpEgress \<Rightarrow> eg_action list \<times> TcpEgress" where
  "eg_stop s =
     (if eg_stopping s then ([], s)
      else
        let (streams, threads, s') = stop_take (s\<lparr>eg_stopping := True\<rparr>);
            (acts, s'') = close_all streams s'
        in (acts @ map EgJoin threads, s''))"

section \<open>The thread of a stream\<close>

definition read_buffer_size :: "TcpEgress \<Rightarrow> nat" where
  "read_buffer_size s =
     (if eg_recv_buffer_size (eg_config s) = 0 then 16 * 1024 else eg_recv_buffer_size (eg_config s))"

text \<open>The loop condition.\<close>

definition read_continues :: "nat \<Rightarrow> TcpEgress \<Rightarrow> bool" where
  "read_continues obj s \<longleftrightarrow> \<not> eg_stopping s \<and> es_open (eg_objects s ! obj)"

text \<open>What the loop does with an answer of \<open>recv\<close>: whether it goes on, and what it reports.\<close>

definition read_answer :: "nat \<Rightarrow> sys_answer \<Rightarrow> TcpEgress \<Rightarrow> bool \<times> eg_action list" where
  "read_answer obj a s =
     (case a of
        Interrupted \<Rightarrow> (True, [])
      | Received bs \<Rightarrow>
          if bs = [] then (False, [])
          else (True, if eg_handler s
                      then [EgEvent \<lparr>te_type = TcpData, te_source = Egress,
                                     te_stream_id = es_id (eg_objects s ! obj), te_payload = bs\<rparr>]
                      else [])
      | _ \<Rightarrow> (False, []))"

text \<open>After the loop: the exchange, the removal and the close with the notification.\<close>

definition read_exit :: "nat \<Rightarrow> TcpEgress \<Rightarrow> bool \<times> bool \<times> TcpEgress" where
  "read_exit obj s =
     (let (was_open, s') = exchange_open obj s in (was_open, was_open \<and> \<not> eg_stopping s', s'))"

definition read_finish :: "nat \<Rightarrow> bool \<Rightarrow> bool \<Rightarrow> TcpEgress \<Rightarrow> eg_action list" where
  "read_finish obj was_open should_notify s =
     (let stream = eg_objects s ! obj
      in (if was_open then [EgShutdown (es_fd stream), EgClose (es_fd stream)] else []) @
         (if should_notify \<and> eg_handler s
          then [EgEvent \<lparr>te_type = TcpClosed, te_source = Egress, te_stream_id = es_id stream,
                         te_payload = []\<rparr>]
          else []))"

definition read_end :: "nat \<Rightarrow> TcpEgress \<Rightarrow> eg_action list \<times> TcpEgress" where
  "read_end obj s =
     (let (was_open, should_notify, s') = read_exit obj s;
          s'' = snd (remove_stream (es_id (eg_objects s' ! obj)) s')
      in (read_finish obj was_open should_notify s'', s''))"

text \<open>The thread on its own: the answers of \<open>recv\<close> until the loop ends.\<close>

fun read_loop :: "nat \<Rightarrow> sys_answers \<Rightarrow> TcpEgress \<Rightarrow> (eg_action list \<times> TcpEgress) option" where
  "read_loop obj w s =
     (if \<not> read_continues obj s then Some (read_end obj s)
      else case w of
             [] \<Rightarrow> None
           | a # w' \<Rightarrow>
               let (go_on, acts) = read_answer obj a s
               in if \<not> go_on then Some (read_end obj s)
                  else (case read_loop obj w' s of
                          None \<Rightarrow> None | Some (acts', s') \<Rightarrow> Some (acts @ acts', s')))"

declare read_loop.simps [simp del]

end
