(* ===== verification/TcpEgressSteps.thy ===== *)
theory TcpEgressSteps
  imports TcpEgress
begin

text \<open>
  The TCP egress under concurrency: calls from any number of threads and the reading threads,
  interleaved at the points where the code gives up its lock or touches the atomic flag. What a
  thread still has to do is an entry of a multiset of pending work. The model also tracks which
  descriptors the system holds open for the egress, so that closing a descriptor twice, or never,
  becomes visible. Starting a thread is assumed to succeed.
\<close>

section \<open>The interleaving\<close>

datatype eg_pending =
    PConnect u64                \<comment> \<open>\<open>open_stream\<close> after its first check\<close>
  | PInsert u64 int             \<comment> \<open>\<open>open_stream\<close> with a connected descriptor\<close>
  | PRemove u64                 \<comment> \<open>\<open>close_stream\<close> called\<close>
  | PCloseFd nat                \<comment> \<open>\<open>close_fd\<close> called\<close>
  | PClose int                  \<comment> \<open>\<open>close_fd\<close> after it found the stream open\<close>
  | PStopTake                   \<comment> \<open>\<open>stop\<close> after raising the flag\<close>
  | PReadTop nat                \<comment> \<open>\<open>read_loop\<close> at its condition\<close>
  | PRecv nat                   \<comment> \<open>\<open>read_loop\<close> about to call \<open>recv\<close>\<close>
  | PReadExit nat               \<comment> \<open>\<open>read_loop\<close> after the loop\<close>
  | PReadRemove nat bool bool   \<comment> \<open>\<open>read_loop\<close> after the exchange\<close>
  | PReadFinish nat bool bool   \<comment> \<open>\<open>read_loop\<close> after removing the stream\<close>

record egress_sys =
  sy_eg :: TcpEgress
  sy_pending :: "eg_pending multiset"
  sy_live :: "int set"

definition opt_mset :: "('a \<Rightarrow> 'b) \<Rightarrow> 'a option \<Rightarrow> 'b multiset" where
  "opt_mset f x = (case x of None \<Rightarrow> {#} | Some y \<Rightarrow> {#f y#})"

inductive eg_step :: "(string \<Rightarrow> 4 barr option) \<Rightarrow> egress_sys \<Rightarrow> egress_sys \<Rightarrow> bool" for pton where
  call_open: "open_check sid s \<Longrightarrow>
    eg_step pton \<lparr>sy_eg = s, sy_pending = P, sy_live = L\<rparr> \<lparr>sy_eg = s, sy_pending = add_mset (PConnect sid) P, sy_live = L\<rparr>"
| connect_ok: "connect_tcp pton (eg_target (eg_config s)) a = Some (fd, []) \<Longrightarrow> 0 \<le> fd \<Longrightarrow> fd \<notin> L \<Longrightarrow>
    eg_step pton \<lparr>sy_eg = s, sy_pending = add_mset (PConnect sid) P, sy_live = L\<rparr>
      \<lparr>sy_eg = s, sy_pending = add_mset (PInsert sid fd) P, sy_live = insert fd L\<rparr>"
| connect_failed: "connect_tcp pton (eg_target (eg_config s)) a = Some (fd, cls) \<Longrightarrow> fd < 0 \<Longrightarrow>
    eg_step pton \<lparr>sy_eg = s, sy_pending = add_mset (PConnect sid) P, sy_live = L\<rparr> \<lparr>sy_eg = s, sy_pending = P, sy_live = L\<rparr>"
| insert_done: "is_layout lay \<Longrightarrow> open_insert lay True sid fd s = (Some True, acts, s') \<Longrightarrow>
    eg_step pton \<lparr>sy_eg = s, sy_pending = add_mset (PInsert sid fd) P, sy_live = L\<rparr>
      \<lparr>sy_eg = s', sy_pending = add_mset (PReadTop (length (eg_objects s))) P, sy_live = L\<rparr>"
| insert_refused: "open_insert lay True sid fd s = (Some False, acts, s') \<Longrightarrow>
    eg_step pton \<lparr>sy_eg = s, sy_pending = add_mset (PInsert sid fd) P, sy_live = L\<rparr>
      \<lparr>sy_eg = s', sy_pending = P, sy_live = L - {fd}\<rparr>"
| call_close: "eg_step pton \<lparr>sy_eg = s, sy_pending = P, sy_live = L\<rparr>
    \<lparr>sy_eg = s, sy_pending = add_mset (PRemove sid) P, sy_live = L\<rparr>"
| close_remove: "remove_stream sid s = (obj, s') \<Longrightarrow>
    eg_step pton \<lparr>sy_eg = s, sy_pending = add_mset (PRemove sid) P, sy_live = L\<rparr>
      \<lparr>sy_eg = s', sy_pending = opt_mset PCloseFd obj + P, sy_live = L\<rparr>"
| close_exchange: "exchange_open obj s = (was_open, s') \<Longrightarrow>
    eg_step pton \<lparr>sy_eg = s, sy_pending = add_mset (PCloseFd obj) P, sy_live = L\<rparr>
      \<lparr>sy_eg = s', sy_pending = (if was_open then {#PClose (es_fd (eg_objects s ! obj))#} else {#}) + P, sy_live = L\<rparr>"
| close_done: "eg_step pton \<lparr>sy_eg = s, sy_pending = add_mset (PClose fd) P, sy_live = L\<rparr>
    \<lparr>sy_eg = s, sy_pending = P, sy_live = L - {fd}\<rparr>"
| call_stop: "\<not> eg_stopping s \<Longrightarrow>
    eg_step pton \<lparr>sy_eg = s, sy_pending = P, sy_live = L\<rparr>
      \<lparr>sy_eg = s\<lparr>eg_stopping := True\<rparr>, sy_pending = add_mset PStopTake P, sy_live = L\<rparr>"
| stop_taken: "stop_take s = (streams, threads, s') \<Longrightarrow>
    eg_step pton \<lparr>sy_eg = s, sy_pending = add_mset PStopTake P, sy_live = L\<rparr>
      \<lparr>sy_eg = s', sy_pending = mset (map PCloseFd streams) + P, sy_live = L\<rparr>"
| read_test: "eg_step pton \<lparr>sy_eg = s, sy_pending = add_mset (PReadTop obj) P, sy_live = L\<rparr>
    \<lparr>sy_eg = s, sy_pending = add_mset (if read_continues obj s then PRecv obj else PReadExit obj) P, sy_live = L\<rparr>"
| read_recv: "read_answer obj a s = (go_on, acts) \<Longrightarrow>
    eg_step pton \<lparr>sy_eg = s, sy_pending = add_mset (PRecv obj) P, sy_live = L\<rparr>
      \<lparr>sy_eg = s, sy_pending = add_mset (if go_on then PReadTop obj else PReadExit obj) P, sy_live = L\<rparr>"
| read_exchange: "read_exit obj s = (was_open, notify, s') \<Longrightarrow>
    eg_step pton \<lparr>sy_eg = s, sy_pending = add_mset (PReadExit obj) P, sy_live = L\<rparr>
      \<lparr>sy_eg = s', sy_pending = add_mset (PReadRemove obj was_open notify) P, sy_live = L\<rparr>"
| read_remove: "remove_stream (es_id (eg_objects s ! obj)) s = (other, s') \<Longrightarrow>
    eg_step pton \<lparr>sy_eg = s, sy_pending = add_mset (PReadRemove obj was_open notify) P, sy_live = L\<rparr>
      \<lparr>sy_eg = s', sy_pending = add_mset (PReadFinish obj was_open notify) P, sy_live = L\<rparr>"
| read_done: "eg_step pton \<lparr>sy_eg = s, sy_pending = add_mset (PReadFinish obj was_open notify) P, sy_live = L\<rparr>
    \<lparr>sy_eg = s, sy_pending = P, sy_live = (if was_open then L - {es_fd (eg_objects s ! obj)} else L)\<rparr>"

inductive eg_reachable :: "(string \<Rightarrow> 4 barr option) \<Rightarrow> TcpEgressConfig \<Rightarrow> egress_sys \<Rightarrow> bool" for pton config where
  eg_start: "eg_reachable pton config
    \<lparr>sy_eg = eg_set_event_handler (TcpEgress_init config), sy_pending = {#}, sy_live = {}\<rparr>"
| eg_next: "eg_reachable pton config y \<Longrightarrow> eg_step pton y y' \<Longrightarrow> eg_reachable pton config y'"

section \<open>Who holds which descriptor\<close>

fun owned :: "int list \<Rightarrow> eg_pending \<Rightarrow> int multiset" where
  "owned fds (PInsert sid fd) = {#fd#}"
| "owned fds (PClose fd) = {#fd#}"
| "owned fds (PReadRemove obj was_open _) = (if was_open then {#fds ! obj#} else {#})"
| "owned fds (PReadFinish obj was_open _) = (if was_open then {#fds ! obj#} else {#})"
| "owned fds _ = {#}"

fun names :: "eg_pending \<Rightarrow> nat set" where
  "names (PCloseFd obj) = {obj}"
| "names (PReadTop obj) = {obj}"
| "names (PRecv obj) = {obj}"
| "names (PReadExit obj) = {obj}"
| "names (PReadRemove obj _ _) = {obj}"
| "names (PReadFinish obj _ _) = {obj}"
| "names _ = {}"

definition open_fds :: "EgressStream list \<Rightarrow> int multiset" where
  "open_fds objs = mset (map es_fd (filter es_open objs))"

definition holders :: "EgressStream list \<Rightarrow> eg_pending multiset \<Rightarrow> int multiset" where
  "holders objs P = open_fds objs + \<Sum>\<^sub># (image_mset (owned (map es_fd objs)) P)"

lemma open_fds_close:
  "obj < length objs \<Longrightarrow> open_fds objs =
     (if es_open (objs ! obj) then {#es_fd (objs ! obj)#} else {#}) +
     open_fds (objs[obj := (objs ! obj)\<lparr>es_open := False\<rparr>])"
proof (induction objs arbitrary: obj)
  case (Cons x objs)
  then show ?case by (cases obj) (auto simp: open_fds_def)
qed simp

lemma fds_close [simp]: "map es_fd (objs[obj := (objs ! obj)\<lparr>es_open := False\<rparr>]) = map es_fd objs"
  by (metis (no_types, lifting) EgressStream.select_convs(2) EgressStream.surjective EgressStream.update_convs(3)
      list_update_id map_update)

lemma holders_add [simp]: "holders objs (add_mset p P) = owned (map es_fd objs) p + holders objs P"
  by (simp add: holders_def ac_simps)

lemma holders_empty [simp]: "holders objs {#} = open_fds objs"
  by (simp add: holders_def)

lemma holders_skip:
  "(\<And>p. p \<in># Q \<Longrightarrow> owned (map es_fd objs) p = {#}) \<Longrightarrow> holders objs (Q + P) = holders objs P"
  by (induction Q) auto

lemma holders_close:
  "obj < length objs \<Longrightarrow> holders objs P =
     (if es_open (objs ! obj) then {#es_fd (objs ! obj)#} else {#}) +
     holders (objs[obj := (objs ! obj)\<lparr>es_open := False\<rparr>]) P"
  using open_fds_close [of obj objs] by (simp add: holders_def ac_simps)

lemma owned_append: "\<forall>i \<in> names p. i < length fds \<Longrightarrow> owned (fds @ [x]) p = owned fds p"
  by (cases p) (auto simp: nth_append)

lemma holders_append:
  assumes "\<forall>p \<in># P. \<forall>i \<in> names p. i < length objs"
  shows "holders (objs @ [new_stream sid fd]) P = add_mset fd (holders objs P)"
proof -
  have "image_mset (owned (map es_fd objs @ [fd])) P = image_mset (owned (map es_fd objs)) P"
    using assms by (intro image_mset_cong) (simp add: owned_append)
  then show ?thesis by (simp add: holders_def open_fds_def new_stream_def)
qed

lemma mset_set_remove:
  assumes "add_mset x M = mset_set L" and "finite L"
  shows "x \<in> L" and "M = mset_set (L - {x})"
proof -
  show x: "x \<in> L" using arg_cong [OF assms(1), of set_mset] assms(2) by auto
  show "M = mset_set (L - {x})" using assms(1) mset_set.remove [OF assms(2) x] by simp
qed

section \<open>The invariant\<close>

definition streams_in :: "nat \<Rightarrow> (u64 \<times> nat) list \<Rightarrow> bool" where
  "streams_in n m \<longleftrightarrow> (\<forall>x \<in> set m. snd x < n)"

lemma streams_in_simps [simp]:
  "streams_in n []"
  "streams_in n m \<Longrightarrow> streams_in n (um_erase k m)"
  "streams_in n m \<Longrightarrow> is_layout lay \<Longrightarrow> streams_in (Suc n) (lay ((k, n) # m))"
  by (auto simp: streams_in_def set_um_erase is_layoutD)

lemma streams_inD: "streams_in n m \<Longrightarrow> (k, v) \<in> set m \<Longrightarrow> v < n"
  by (auto simp: streams_in_def)

definition eg_inv :: "TcpEgressConfig \<Rightarrow> egress_sys \<Rightarrow> bool" where
  "eg_inv config y \<longleftrightarrow>
     eg_config (sy_eg y) = config \<and> um_ok (eg_streams (sy_eg y)) \<and>
     length (eg_streams (sy_eg y)) \<le> eg_max_streams config \<and>
     streams_in (length (eg_objects (sy_eg y))) (eg_streams (sy_eg y)) \<and>
     (\<forall>p \<in># sy_pending y. \<forall>i \<in> names p. i < length (eg_objects (sy_eg y))) \<and>
     finite (sy_live y) \<and> holders (eg_objects (sy_eg y)) (sy_pending y) = mset_set (sy_live y)"

lemma remove_stream_cases:
  assumes "remove_stream sid s = (obj, s')"
  obtains "obj = None" "s' = s"
  | k where "obj = Some k" "(sid, k) \<in> set (eg_streams s)" "s' = s\<lparr>eg_streams := um_erase sid (eg_streams s)\<rparr>"
proof (cases "um_find sid (eg_streams s)")
  case None
  show ?thesis by (rule that(1)) (use assms None in \<open>simp_all add: remove_stream_def\<close>)
next
  case (Some k)
  show ?thesis
    by (rule that(2) [of k]) (use assms Some in \<open>simp_all add: remove_stream_def um_find_SomeD\<close>)
qed

lemma open_insert_cases:
  assumes "open_insert lay True sid fd s = (r, acts, s')"
  obtains "r = Some False" "acts = [EgClose fd]" "s' = s"
  | "r = Some True" "um_find sid (eg_streams s) = None" "length (eg_streams s) < eg_max_streams (eg_config s)"
    "\<not> eg_stopping s"
    "s' = s\<lparr>eg_objects := eg_objects s @ [new_stream sid fd],
           eg_streams := lay ((sid, length (eg_objects s)) # eg_streams s),
           eg_threads := eg_threads s @ [length (eg_objects s)]\<rparr>"
proof (cases "eg_stopping s \<or> um_find sid (eg_streams s) \<noteq> None \<or>
    length (eg_streams s) \<ge> eg_max_streams (eg_config s)")
  case True
  show ?thesis by (rule that(1)) (use assms True in \<open>simp_all add: open_insert_def\<close>)
next
  case False
  show ?thesis
    by (rule that(2)) (use assms False in \<open>simp_all add: open_insert_def Let_def um_assign_def\<close>)
qed

lemma length_erase_le: "length (um_erase k m) \<le> length m"
  by (simp add: um_erase_def)

lemma eg_step_inv:
  assumes "eg_step pton y y'" and "eg_inv config y"
  shows "eg_inv config y'"
  using assms
proof (cases rule: eg_step.cases)
  case (call_open sid s P L)
  then show ?thesis using assms(2) by (simp add: eg_inv_def)
next
  case (connect_ok s a fd L sid P)
  then show ?thesis using assms(2) by (simp add: eg_inv_def)
next
  case (connect_failed s a fd cls sid P L)
  then show ?thesis using assms(2) by (simp add: eg_inv_def)
next
  case (insert_done lay sid fd s acts s' P L)
  from insert_done(4) show ?thesis
  proof (cases rule: open_insert_cases)
    case 1
    then show ?thesis by simp
  next
    case 2
    have lay: "mset (lay m) = mset m" "set (lay m) = set m" "length (lay m) = length m" for m
      using insert_done(3) by (simp_all add: is_layoutD)
    have "um_ok (lay ((sid, length (eg_objects s)) # eg_streams s))"
      using assms(2) insert_done(1,3) 2(2) is_layout_keys [OF insert_done(3)]
      by (simp add: eg_inv_def um_ok_def um_find_None_iff)
    moreover have "\<forall>p \<in># P. \<forall>i \<in> names p. i < length (eg_objects s)"
      using assms(2) insert_done(1) by (simp add: eg_inv_def)
    ultimately show ?thesis using assms(2) insert_done(1,2,3) 2
      by (auto simp: eg_inv_def lay holders_append intro: less_SucI)
  qed
next
  case (insert_refused lay sid fd s acts s' P L)
  then have "s' = s" by (auto elim: open_insert_cases)
  moreover have "add_mset fd (holders (eg_objects s) P) = mset_set L" "finite L"
    using assms(2) insert_refused(1) by (simp_all add: eg_inv_def)
  note mset_set_remove(2) [OF this]
  ultimately show ?thesis using assms(2) insert_refused(1,2) by (simp add: eg_inv_def)
next
  case (call_close s P L sid)
  then show ?thesis using assms(2) by (simp add: eg_inv_def)
next
  case (close_remove sid s obj s' P L)
  from close_remove(3) show ?thesis
    using assms(2) close_remove(1,2)
    by (cases rule: remove_stream_cases)
      (auto simp: eg_inv_def opt_mset_def intro: order_trans [OF length_erase_le] dest: streams_inD)
next
  case (close_exchange obj s was_open s' P L)
  then show ?thesis using assms(2) holders_close [of obj "eg_objects s" P]
    by (auto simp: eg_inv_def exchange_open_def)
next
  case (close_done s fd P L)
  have "add_mset fd (holders (eg_objects s) P) = mset_set L" "finite L"
    using assms(2) close_done(1) by (simp_all add: eg_inv_def)
  note mset_set_remove(2) [OF this]
  then show ?thesis using assms(2) close_done by (simp add: eg_inv_def)
next
  case (call_stop s P L)
  then show ?thesis using assms(2) by (simp add: eg_inv_def)
next
  case (stop_taken s streams threads s' P L)
  have "holders (eg_objects s) (mset (map PCloseFd streams) + P) = holders (eg_objects s) P"
    by (rule holders_skip) auto
  moreover have "i < length (eg_objects s)" if "(k, i) \<in> set (eg_streams s)" for k i
    using assms(2) stop_taken(1) that streams_inD by (auto simp: eg_inv_def)
  ultimately show ?thesis using assms(2) stop_taken by (auto simp: eg_inv_def stop_take_def um_ok_def)
next
  case (read_test s obj P L)
  then show ?thesis using assms(2) by (simp add: eg_inv_def)
next
  case (read_recv obj a s go_on acts P L)
  then show ?thesis using assms(2) by (simp add: eg_inv_def)
next
  case (read_exchange obj s was_open notify s' P L)
  then show ?thesis using assms(2) holders_close [of obj "eg_objects s" P]
    by (auto simp: eg_inv_def exchange_open_def read_exit_def)
next
  case (read_remove s obj other s' was_open notify P L)
  from read_remove(3) show ?thesis
    using assms(2) read_remove(1,2)
    by (cases rule: remove_stream_cases)
      (auto simp: eg_inv_def intro: order_trans [OF length_erase_le])
next
  case (read_done s obj was_open notify P L)
  show ?thesis
  proof (cases was_open)
    case True
    have "add_mset (es_fd (eg_objects s ! obj)) (holders (eg_objects s) P) = mset_set L" "finite L"
      using assms(2) read_done(1) True by (auto simp: eg_inv_def)
    note mset_set_remove(2) [OF this]
    then show ?thesis using assms(2) read_done True by (simp add: eg_inv_def)
  next
    case False
    then show ?thesis using assms(2) read_done by (simp add: eg_inv_def)
  qed
qed

end
