(* ===== verification/TcpEgressClaims.thy ===== *)
theory TcpEgressClaims
  imports TcpEgressSteps
begin

text \<open>
  The properties of the TCP egress: descriptors under concurrency, what a send puts on the wire,
  what the reading thread reports, and the race of a reopened stream.
\<close>

section \<open>Descriptors\<close>


lemma holders_member: "p \<in># P \<Longrightarrow> fd \<in># owned (map es_fd objs) p \<Longrightarrow> fd \<in># holders objs P"
  by (auto simp: holders_def)


definition sample_egress_config :: TcpEgressConfig where
  "sample_egress_config =
     \<lparr>eg_target = \<lparr>ep_host = ''127.0.0.1'', ep_port = 80\<rparr>, eg_recv_buffer_size = 0, eg_max_streams = 2,
      eg_connect_timeout_ms = 3000\<rparr>"


section \<open>Runs of the sample egress\<close>

definition sample_pton :: "string \<Rightarrow> 4 barr option" where
  "sample_pton host = Some (arr_of [127, 0, 0, 1])"

definition sample_connect :: "int \<Rightarrow> connect_answers" where
  "sample_connect fd = \<lparr>ca_socket = fd, ca_getfl = 2, ca_setfl = True, ca_connect = Ready True, ca_poll = [],
     ca_getsockopt = Some 0, ca_restore = True\<rparr>"

definition sample_state :: "EgressStream list \<Rightarrow> (u64 \<times> nat) list \<Rightarrow> nat list \<Rightarrow> TcpEgress" where
  "sample_state objs streams threads = \<lparr>eg_config = sample_egress_config, eg_handler = True, eg_stopping = False,
     eg_streams = streams, eg_threads = threads, eg_objects = objs\<rparr>"

abbreviation egress_at :: "TcpEgress \<Rightarrow> eg_pending multiset \<Rightarrow> int set \<Rightarrow> bool" where
  "egress_at s P L \<equiv> eg_reachable sample_pton sample_egress_config \<lparr>sy_eg = s, sy_pending = P, sy_live = L\<rparr>"

lemma sample_start: "egress_at (sample_state [] [] []) {#} {}"
  using eg_start [of sample_pton sample_egress_config]
  by (simp add: sample_state_def eg_set_event_handler_def TcpEgress_init_def)

lemma sample_connect_ok: "0 \<le> fd \<Longrightarrow> connect_tcp sample_pton (eg_target sample_egress_config) (sample_connect fd) = Some (fd, [])"
  by (simp add: connect_tcp_def connect_with_def make_sockaddr_def sample_egress_config_def sample_pton_def
      sample_connect_def finish_connect_def)

text \<open>Opening stream 5 over descriptor \<open>fd\<close>.\<close>

lemma sample_open:
  assumes r: "egress_at (sample_state objs [] ths) P L" and fd: "0 \<le> fd" "fd \<notin> L"
  shows "egress_at (sample_state (objs @ [new_stream 5 fd]) [(5, length objs)] (ths @ [length objs]))
    (add_mset (PReadTop (length objs)) P) (insert fd L)"
proof -
  let ?s = "sample_state objs [] ths"
  have "open_check 5 ?s" by (simp add: open_check_def sample_state_def sample_egress_config_def um_find_def)
  from eg_next [OF r call_open [OF this]]
  have r1: "egress_at ?s (add_mset (PConnect 5) P) L" .
  have "connect_tcp sample_pton (eg_target (eg_config ?s)) (sample_connect fd) = Some (fd, [])"
    using sample_connect_ok [OF fd(1)] by (simp add: sample_state_def)
  from eg_next [OF r1 connect_ok [OF this fd]]
  have r2: "egress_at ?s (add_mset (PInsert 5 fd) P) (insert fd L)" .
  have "open_insert (\<lambda>m. m) True 5 fd ?s =
      (Some True, [], sample_state (objs @ [new_stream 5 fd]) [(5, length objs)] (ths @ [length objs]))"
    by (simp add: open_insert_def sample_state_def sample_egress_config_def um_find_def um_assign_def Let_def)
  from eg_next [OF r2 insert_done [OF is_layout_id this]]
  show ?thesis by (simp add: sample_state_def)
qed


section \<open>Reopening a stream\<close>

definition closed_stream :: "int \<Rightarrow> EgressStream" where
  "closed_stream fd = \<lparr>es_id = 5, es_fd = fd, es_open = False\<rparr>"

text \<open>Closing stream 5 while its thread is about to read, up to the point where the thread will remove it.\<close>

lemma sample_close:
  assumes r: "egress_at (sample_state [new_stream 5 10] [(5, 0)] [0]) {#PReadTop 0#} {10}"
  shows "egress_at (sample_state [closed_stream 10] [] [0]) {#PReadRemove 0 False False#} {}"
proof -
  let ?s = "sample_state [new_stream 5 10] [(5, 0)] [0]" and ?s1 = "sample_state [new_stream 5 10] [] [0]"
  let ?s2 = "sample_state [closed_stream 10] [] [0]"
  from eg_next [OF r read_test]
  have r1: "egress_at ?s {#PRecv 0#} {10}" by (simp add: read_continues_def sample_state_def new_stream_def)
  from eg_next [OF r1 call_close [where sid = 5]]
  have r2: "egress_at ?s {#PRemove 5, PRecv 0#} {10}" .
  have "remove_stream 5 ?s = (Some 0, ?s1)" by (simp add: remove_stream_def sample_state_def um_find_def um_erase_def)
  from eg_next [OF r2 close_remove [OF this]]
  have r3: "egress_at ?s1 {#PCloseFd 0, PRecv 0#} {10}" by (simp add: opt_mset_def add_mset_commute)
  have "exchange_open 0 ?s1 = (True, ?s2)"
    by (simp add: exchange_open_def sample_state_def new_stream_def closed_stream_def)
  from eg_next [OF r3 close_exchange [OF this]]
  have r4: "egress_at ?s2 {#PClose 10, PRecv 0#} {10}"
    by (simp add: sample_state_def new_stream_def add_mset_commute)
  from eg_next [OF r4 close_done]
  have r5: "egress_at ?s2 {#PRecv 0#} {}" by simp
  have "read_answer 0 (Received []) ?s2 = (False, [])" by (simp add: read_answer_def)
  from eg_next [OF r5 read_recv [OF this]]
  have r6: "egress_at ?s2 {#PReadExit 0#} {}" by simp
  have "read_exit 0 ?s2 = (False, False, ?s2)"
    by (simp add: read_exit_def exchange_open_def sample_state_def closed_stream_def)
  from eg_next [OF r6 read_exchange [OF this]] show ?thesis .
qed

text \<open>
  C23: A stream that is closed and opened again under the same identifier can be lost. The reading
  thread of the old stream removes whatever stream the table holds under its identifier, which may
  already be the new one. Then \<open>stop\<close> finds an empty table and closes nothing, while the new
  stream's connection is still open and its thread is waiting in \<open>recv\<close>; \<open>stop\<close> then waits for
  that thread.
\<close>

theorem reopened_stream_orphaned:
  "\<exists>y. eg_reachable sample_pton sample_egress_config y \<and> eg_stopping (sy_eg y) \<and> eg_streams (sy_eg y) = [] \<and>
     sy_pending y = {#PRecv 1#} \<and> es_open (eg_objects (sy_eg y) ! 1) \<and>
     sy_live y = {es_fd (eg_objects (sy_eg y) ! 1)}"
proof -
  let ?s = "sample_state [closed_stream 10, new_stream 5 10] [(5, 1)] [0, 1]"
  let ?s1 = "sample_state [closed_stream 10, new_stream 5 10] [] [0, 1]"
  have "egress_at (sample_state [new_stream 5 10] [(5, 0)] [0]) {#PReadTop 0#} {10}"
    using sample_open [OF sample_start, of 10] by simp
  from sample_open [OF sample_close [OF this], of 10]
  have r1: "egress_at ?s {#PReadRemove 0 False False, PReadTop 1#} {10}" by (simp add: add_mset_commute)
  have "remove_stream (es_id (eg_objects ?s ! 0)) ?s = (Some 1, ?s1)"
    by (simp add: remove_stream_def sample_state_def um_find_def um_erase_def closed_stream_def)
  from eg_next [OF r1 read_remove [OF this]]
  have r2: "egress_at ?s1 {#PReadFinish 0 False False, PReadTop 1#} {10}" .
  from eg_next [OF r2 read_done]
  have r3: "egress_at ?s1 {#PReadTop 1#} {10}" by simp
  from eg_next [OF r3 read_test]
  have r4: "egress_at ?s1 {#PRecv 1#} {10}" by (simp add: read_continues_def sample_state_def new_stream_def)
  have "\<not> eg_stopping ?s1" by (simp add: sample_state_def)
  from eg_next [OF r4 call_stop [OF this]]
  have r5: "egress_at (?s1\<lparr>eg_stopping := True\<rparr>) {#PStopTake, PRecv 1#} {10}" .
  have "stop_take (?s1\<lparr>eg_stopping := True\<rparr>) = ([], [0, 1], ?s1\<lparr>eg_stopping := True, eg_threads := []\<rparr>)"
    by (simp add: stop_take_def sample_state_def)
  from eg_next [OF r5 stop_taken [OF this]]
  have "egress_at (?s1\<lparr>eg_stopping := True, eg_threads := []\<rparr>) {#PRecv 1#} {10}" by simp
  then show ?thesis
    by (intro exI [where x = "\<lparr>sy_eg = ?s1\<lparr>eg_stopping := True, eg_threads := []\<rparr>, sy_pending = {#PRecv 1#},
          sy_live = {10}\<rparr>"]) (simp add: sample_state_def new_stream_def)
qed

section \<open>Sending and reading\<close>

text \<open>
  C20: A send is all or nothing. When it reports success, exactly the payload went to the open
  connection of the stream and the egress is unchanged. When it reports failure after writing
  anything, the bytes written are a prefix of the payload and the stream is gone from the table
  with its connection shut down and closed, so nothing can follow the gap.
\<close>

theorem egress_send_exact:
  assumes "eg_send_to_stream w sid payload s = Some (ok, acts, s')"
  shows "if ok then s' = s \<and> (\<exists>obj. um_find sid (eg_streams s) = Some obj \<and> es_open (eg_objects s ! obj) \<and>
           acts = [EgSend (es_fd (eg_objects s ! obj)) payload])
         else (acts = [] \<and> s' = s) \<or> (um_find sid (eg_streams s') = None \<and>
           (\<exists>fd sent rest. payload = sent @ rest \<and> acts = [EgSend fd sent, EgShutdown fd, EgClose fd]))"
proof -
  consider (none) "ok = False" "acts = []" "s' = s"
    | (wrote) obj sent w' where "um_find sid (eg_streams s) = Some obj" "es_open (eg_objects s ! obj)"
        "write_all w payload = Some (ok, sent, w')"
        "(acts, s') = (if ok then ([EgSend (es_fd (eg_objects s ! obj)) sent], s)
           else (EgSend (es_fd (eg_objects s ! obj)) sent # fst (close_stream sid s), snd (close_stream sid s)))"
    using assms by (auto simp: eg_send_to_stream_def Let_def split_beta split: if_splits option.splits)
  then show ?thesis
  proof cases
    case none
    then show ?thesis by simp
  next
    case (wrote obj sent w')
    obtain rest where p: "payload = sent @ rest" "ok \<longrightarrow> sent = payload" using write_all_prefix [OF wrote(3)] by blast
    have "fst (close_stream sid s) = [EgShutdown (es_fd (eg_objects s ! obj)), EgClose (es_fd (eg_objects s ! obj))]" and "um_find sid (eg_streams (snd (close_stream sid s))) = None"
      using wrote(1,2) by (simp_all add: close_stream_def remove_stream_def close_fd_def exchange_open_def um_find_erase Let_def)
    note cl = this
    show ?thesis
    proof (cases ok)
      case True
      then have "sent = payload" using p(2) by simp
      then show ?thesis using True wrote(1,2,4) by simp
    next
      case False
      then show ?thesis using wrote(4) cl p(1) by auto
    qed
  qed
qed

theorem egress_send_exact_witness:
  "eg_send_to_stream [Sent 1, Sent 1] 5 [7, 8] (sample_state [new_stream 5 10] [(5, 0)] [0]) =
     Some (True, [EgSend 10 [7, 8]], sample_state [new_stream 5 10] [(5, 0)] [0]) \<and>
   (if True then (\<exists>obj. um_find 5 (eg_streams (sample_state [new_stream 5 10] [(5, 0)] [0])) = Some obj) else False)"
proof -
  have e: "eg_send_to_stream [Sent 1, Sent 1] 5 [7, 8] (sample_state [new_stream 5 10] [(5, 0)] [0]) =
     Some (True, [EgSend 10 [7, 8]], sample_state [new_stream 5 10] [(5, 0)] [0])"
    by (simp add: eg_send_to_stream_def sample_state_def um_find_def new_stream_def Let_def)
  from egress_send_exact [OF e] e show ?thesis by auto
qed




end
