(* ===== verification/Json.thy ===== *)
theory Json
  imports CString "HOL-Library.Countable"
begin

text \<open>
  The JSON library (\<open>nlohmann::json\<close>) as a parameter. \<open>json_lib\<close> collects the calls the sources
  make, \<open>json_laws\<close> states what the library's documentation promises about them; theorems on code
  that uses the library take an arbitrary \<open>J\<close> with \<open>json_laws J\<close>. A call that can throw returns
  an option, \<open>None\<close> for the exception. At the end a concrete instance shows that the laws can hold
  together.
\<close>

record 'j json_lib =
  js_parse :: "string \<Rightarrow> 'j option"            \<comment> \<open>\<open>json::parse\<close>\<close>
  js_dump :: "'j \<Rightarrow> string"                     \<comment> \<open>\<open>dump()\<close>, for documents of valid text\<close>
  js_clean :: "'j \<Rightarrow> bool"                      \<comment> \<open>all text in the document is ASCII\<close>
  js_reparse :: "'j \<Rightarrow> 'j"                      \<comment> \<open>the document read back from its text\<close>
  js_is_object :: "'j \<Rightarrow> bool"
  js_is_array :: "'j \<Rightarrow> bool"
  js_is_string :: "'j \<Rightarrow> bool"
  js_is_unsigned :: "'j \<Rightarrow> bool"                \<comment> \<open>\<open>is_number_unsigned\<close>\<close>
  js_is_integer :: "'j \<Rightarrow> bool"                 \<comment> \<open>\<open>is_number_integer\<close>\<close>
  js_find :: "'j \<Rightarrow> string \<Rightarrow> 'j option"        \<comment> \<open>\<open>find\<close>, \<open>contains\<close> and \<open>[]\<close> on a present key\<close>
  js_elems :: "'j \<Rightarrow> 'j list"                   \<comment> \<open>iteration over an array\<close>
  js_to_string :: "'j \<Rightarrow> string option"         \<comment> \<open>\<open>get<std::string>\<close>\<close>
  js_to_bool :: "'j \<Rightarrow> bool option"
  js_to_u64 :: "'j \<Rightarrow> u64 option"
  js_to_u32 :: "'j \<Rightarrow> u32 option"               \<comment> \<open>\<open>get<unsigned>\<close>, a static cast\<close>
  js_to_i64 :: "'j \<Rightarrow> int option"
  js_to_int :: "'j \<Rightarrow> int option"
  js_value_string :: "'j \<Rightarrow> string \<Rightarrow> string \<Rightarrow> string option"   \<comment> \<open>\<open>value(key, default)\<close>\<close>
  js_value_bool :: "'j \<Rightarrow> string \<Rightarrow> bool \<Rightarrow> bool option"
  js_value_u64 :: "'j \<Rightarrow> string \<Rightarrow> u64 \<Rightarrow> u64 option"
  js_value_u32 :: "'j \<Rightarrow> string \<Rightarrow> u32 \<Rightarrow> u32 option"
  js_value_i64 :: "'j \<Rightarrow> string \<Rightarrow> int \<Rightarrow> int option"
  js_value_int :: "'j \<Rightarrow> string \<Rightarrow> int \<Rightarrow> int option"
  js_null :: 'j
  js_str :: "string \<Rightarrow> 'j"
  js_bool :: "bool \<Rightarrow> 'j"
  js_u64 :: "u64 \<Rightarrow> 'j"
  js_i64 :: "int \<Rightarrow> 'j"
  js_array :: "'j list \<Rightarrow> 'j"
  js_set :: "'j \<Rightarrow> string \<Rightarrow> 'j \<Rightarrow> 'j"          \<comment> \<open>\<open>doc[key] = value\<close>, on \<open>null\<close> or an object\<close>

definition ascii :: "string \<Rightarrow> bool" where
  "ascii s \<longleftrightarrow> (\<forall>c \<in> set s. code c < 128)"

text \<open>\<open>value\<close> throws on anything but an object, falls back for a missing key and converts otherwise.\<close>

definition value_law ::
  "'j json_lib \<Rightarrow> ('j \<Rightarrow> string \<Rightarrow> 'a \<Rightarrow> 'a option) \<Rightarrow> ('j \<Rightarrow> 'a option) \<Rightarrow> bool" where
  "value_law J val conv \<longleftrightarrow> (\<forall>j k d. val j k d =
     (if \<not> js_is_object J j then None
      else case js_find J j k of None \<Rightarrow> Some d | Some v \<Rightarrow> conv v))"

definition json_value_laws :: "'j json_lib \<Rightarrow> bool" where
  "json_value_laws J \<longleftrightarrow> value_law J (js_value_string J) (js_to_string J) \<and>
     value_law J (js_value_bool J) (js_to_bool J) \<and> value_law J (js_value_u64 J) (js_to_u64 J) \<and>
     value_law J (js_value_u32 J) (js_to_u32 J) \<and> value_law J (js_value_i64 J) (js_to_i64 J) \<and>
     value_law J (js_value_int J) (js_to_int J)"

text \<open>Documents that take an assignment to a key.\<close>

definition js_container :: "'j json_lib \<Rightarrow> 'j \<Rightarrow> bool" where
  "js_container J j \<longleftrightarrow> j = js_null J \<or> js_is_object J j"

text \<open>Building and reading documents.\<close>

definition json_build_laws :: "'j json_lib \<Rightarrow> bool" where
  "json_build_laws J \<longleftrightarrow>
     (\<forall>j k v. js_container J j \<longrightarrow> js_is_object J (js_set J j k v) \<and>
        (\<forall>k'. js_find J (js_set J j k v) k' = (if k' = k then Some v else js_find J j k'))) \<and>
     (\<forall>k. js_find J (js_null J) k = None) \<and>
     (\<forall>js. js_is_array J (js_array J js) \<and> js_elems J (js_array J js) = js) \<and>
     (\<forall>s. js_is_string J (js_str J s) \<and> js_to_string J (js_str J s) = Some s \<and>
        js_to_u32 J (js_str J s) = None \<and> \<not> js_is_object J (js_str J s)) \<and>
     (\<forall>j. js_is_string J j \<longrightarrow> js_to_string J j \<noteq> None) \<and>
     (\<forall>j. js_is_unsigned J j \<longrightarrow> js_is_integer J j \<and> js_to_u64 J j \<noteq> None \<and> js_to_u32 J j = map_option ucast (js_to_u64 J j)) \<and>
     (\<forall>j. js_is_integer J j \<longrightarrow> js_to_i64 J j \<noteq> None) \<and>
     (\<forall>b. js_to_bool J (js_bool J b) = Some b) \<and>
     (\<forall>n. js_is_unsigned J (js_u64 J n) \<and> js_to_u64 J (js_u64 J n) = Some n \<and> js_to_u32 J (js_u64 J n) = Some (ucast n) \<and>
        js_to_string J (js_u64 J n) = None \<and> js_to_i64 J (js_u64 J n) = Some (sint n) \<and>
        js_to_int J (js_u64 J n) = Some (sint (ucast n :: u32))) \<and>
     (\<forall>i. - (2 ^ 63) \<le> i \<and> i < 2 ^ 63 \<longrightarrow> js_is_integer J (js_i64 J i) \<and> js_to_i64 J (js_i64 J i) = Some i)"

text \<open>
  The text of a clean document parses to the document, except that the parser makes every
  non-negative integer an unsigned one.
\<close>

definition json_text_laws :: "'j json_lib \<Rightarrow> bool" where
  "json_text_laws J \<longleftrightarrow>
     (\<forall>j. js_clean J j \<longrightarrow> js_parse J (js_dump J j) = Some (js_reparse J j) \<and> js_dump J j \<noteq> []) \<and>
     js_clean J (js_null J) \<and> (\<forall>s. ascii s \<longrightarrow> js_clean J (js_str J s)) \<and>
     (\<forall>b. js_clean J (js_bool J b)) \<and> (\<forall>n. js_clean J (js_u64 J n)) \<and> (\<forall>i. js_clean J (js_i64 J i)) \<and>
     (\<forall>js. (\<forall>j \<in> set js. js_clean J j) \<longrightarrow> js_clean J (js_array J js)) \<and>
     (\<forall>j k v. js_container J j \<and> js_clean J j \<and> ascii k \<and> js_clean J v \<longrightarrow> js_clean J (js_set J j k v)) \<and>
     (\<forall>j. js_is_object J (js_reparse J j) = js_is_object J j) \<and>
     (\<forall>j k. js_is_object J j \<longrightarrow> js_find J (js_reparse J j) k = map_option (js_reparse J) (js_find J j k)) \<and>
     (\<forall>s. js_reparse J (js_str J s) = js_str J s) \<and> (\<forall>b. js_reparse J (js_bool J b) = js_bool J b) \<and>
     (\<forall>n. js_reparse J (js_u64 J n) = js_u64 J n) \<and>
     (\<forall>i. - (2 ^ 63) \<le> i \<and> i < 2 ^ 63 \<longrightarrow>
        js_reparse J (js_i64 J i) = (if i < 0 then js_i64 J i else js_u64 J (of_int i))) \<and>
     (\<forall>js. js_reparse J (js_array J js) = js_array J (map (js_reparse J) js))"

definition json_laws :: "'j json_lib \<Rightarrow> bool" where
  "json_laws J \<longleftrightarrow> json_value_laws J \<and> json_build_laws J \<and> json_text_laws J"

section \<open>Using the laws\<close>

lemma js_container_simps [simp]: "js_container J (js_null J)" "js_is_object J j \<Longrightarrow> js_container J j"
  by (simp_all add: js_container_def)

lemma json_set:
  assumes "json_laws J" and "js_container J j"
  shows "js_is_object J (js_set J j k v)"
    and "js_find J (js_set J j k v) k' = (if k' = k then Some v else js_find J j k')"
  using assms by (simp_all add: json_laws_def json_build_laws_def)

lemma json_build:
  assumes "json_laws J"
  shows "js_find J (js_null J) k = None"
    and "js_is_array J (js_array J js)" "js_elems J (js_array J js) = js"
    and "js_is_string J (js_str J s)" "js_to_string J (js_str J s) = Some s" "js_to_u32 J (js_str J s) = None"
      "\<not> js_is_object J (js_str J s)"
    and "js_is_string J j \<Longrightarrow> \<exists>s. js_to_string J j = Some s"
    and "js_to_bool J (js_bool J b) = Some b"
    and "js_is_unsigned J (js_u64 J n)" "js_to_u64 J (js_u64 J n) = Some n" "js_to_u32 J (js_u64 J n) = Some (ucast n)"
      "js_to_string J (js_u64 J n) = None" "js_to_i64 J (js_u64 J n) = Some (sint n)"
      "js_to_int J (js_u64 J n) = Some (sint (ucast n :: u32))"
    and "- (2 ^ 63) \<le> i \<Longrightarrow> i < 2 ^ 63 \<Longrightarrow> js_is_integer J (js_i64 J i) \<and> js_to_i64 J (js_i64 J i) = Some i"
  using assms by (auto simp: json_laws_def json_build_laws_def)

lemma json_text:
  assumes "json_laws J"
  shows "js_clean J d \<Longrightarrow> js_parse J (js_dump J d) = Some (js_reparse J d)" "js_clean J d \<Longrightarrow> js_dump J d \<noteq> []"
    and "js_is_object J (js_reparse J j) = js_is_object J j"
    and "js_is_object J j \<Longrightarrow> js_find J (js_reparse J j) k = map_option (js_reparse J) (js_find J j k)"
    and "js_reparse J (js_str J s) = js_str J s" "js_reparse J (js_bool J b) = js_bool J b"
      "js_reparse J (js_u64 J n) = js_u64 J n"
    and "- (2 ^ 63) \<le> i \<Longrightarrow> i < 2 ^ 63 \<Longrightarrow>
      js_reparse J (js_i64 J i) = (if i < 0 then js_i64 J i else js_u64 J (of_int i))"
    and "js_reparse J (js_array J js) = js_array J (map (js_reparse J) js)"
  using assms by (simp_all add: json_laws_def json_text_laws_def)

lemma json_clean:
  assumes "json_laws J"
  shows "js_clean J (js_null J)" "ascii s \<Longrightarrow> js_clean J (js_str J s)" "js_clean J (js_bool J b)"
    "js_clean J (js_u64 J n)" "js_clean J (js_i64 J i)"
    "(\<And>j. j \<in> set js \<Longrightarrow> js_clean J j) \<Longrightarrow> js_clean J (js_array J js)"
    "js_container J j \<Longrightarrow> js_clean J j \<Longrightarrow> ascii k \<Longrightarrow> js_clean J v \<Longrightarrow> js_clean J (js_set J j k v)"
  using assms by (simp_all add: json_laws_def json_text_laws_def)

lemma json_value:
  assumes "json_laws J"
  shows "js_value_string J j k ds = (if \<not> js_is_object J j then None else case js_find J j k of None \<Rightarrow> Some ds | Some v \<Rightarrow> js_to_string J v)"
    "js_value_bool J j k db = (if \<not> js_is_object J j then None else case js_find J j k of None \<Rightarrow> Some db | Some v \<Rightarrow> js_to_bool J v)"
    "js_value_u64 J j k du = (if \<not> js_is_object J j then None else case js_find J j k of None \<Rightarrow> Some du | Some v \<Rightarrow> js_to_u64 J v)"
    "js_value_u32 J j k dw = (if \<not> js_is_object J j then None else case js_find J j k of None \<Rightarrow> Some dw | Some v \<Rightarrow> js_to_u32 J v)"
    "js_value_i64 J j k di = (if \<not> js_is_object J j then None else case js_find J j k of None \<Rightarrow> Some di | Some v \<Rightarrow> js_to_i64 J v)"
    "js_value_int J j k dn = (if \<not> js_is_object J j then None else case js_find J j k of None \<Rightarrow> Some dn | Some v \<Rightarrow> js_to_int J v)"
  using assms by (simp_all only: json_laws_def json_value_laws_def value_law_def)

text \<open>An object built by assignments, from the empty document.\<close>

fun js_object :: "'j json_lib \<Rightarrow> 'j \<Rightarrow> (string \<times> 'j) list \<Rightarrow> 'j" where
  "js_object J j [] = j"
| "js_object J j ((k, v) # kvs) = js_object J (js_set J j k v) kvs"

lemma js_object_shape:
  assumes "json_laws J" and "js_container J j"
  shows "(kvs \<noteq> [] \<longrightarrow> js_is_object J (js_object J j kvs)) \<and>
    js_find J (js_object J j kvs) k =
      (case map_of (rev kvs) k of None \<Rightarrow> js_find J j k | Some v \<Rightarrow> Some v)"
  using assms(2)
proof (induction kvs arbitrary: j)
  case (Cons x kvs)
  obtain k' v where x: "x = (k', v)" by (cases x)
  have set: "js_is_object J (js_set J j k' v)"
    "js_find J (js_set J j k' v) k = (if k = k' then Some v else js_find J j k)"
    using json_set [OF assms(1) Cons.prems] by simp_all
  have "js_is_object J (js_object J (js_set J j k' v) kvs)"
    using Cons.IH [of "js_set J j k' v"] set(1) by (cases kvs) (auto simp: js_container_def)
  then show ?case
    using Cons.IH [of "js_set J j k' v"] set x by (auto simp: js_container_def map_add_def split: option.splits)
qed simp

lemma js_object_find:
  assumes "json_laws J" and "distinct (map fst kvs)"
  shows "js_find J (js_object J (js_null J) kvs) k = map_of kvs k"
proof -
  have "map_of (rev kvs) k = map_of kvs k"
    using map_of_inject_set [of "rev kvs" kvs] assms(2) by (simp add: rev_map [symmetric])
  then show ?thesis
    using js_object_shape [OF assms(1), of "js_null J" kvs k] json_build(1) [OF assms(1)]
    by (simp add: js_container_def split: option.splits)
qed

lemma js_object_is_object: "json_laws J \<Longrightarrow> kvs \<noteq> [] \<Longrightarrow> js_is_object J (js_object J (js_null J) kvs)"
  using js_object_shape [of J "js_null J" kvs] by simp

lemma js_object_clean:
  assumes "json_laws J" and "\<forall>(k, v) \<in> set kvs. ascii k \<and> js_clean J v"
    and "js_container J j" and "js_clean J j"
  shows "js_clean J (js_object J j kvs)"
  using assms(2-4)
proof (induction kvs arbitrary: j)
  case (Cons x kvs)
  obtain k v where x: "x = (k, v)" by (cases x)
  have "js_is_object J (js_set J j k v)" by (rule json_set(1) [OF assms(1) Cons.prems(2)])
  moreover have "js_clean J (js_set J j k v)"
    using json_clean(7) [OF assms(1) Cons.prems(2,3)] Cons.prems(1) x by simp
  ultimately show ?case using Cons x by (simp add: js_container_def)
qed simp

text \<open>Reading back a built object from its text.\<close>

lemma js_object_reparse:
  assumes "json_laws J" and "kvs \<noteq> []" and "distinct (map fst kvs)" and "\<forall>(k, v) \<in> set kvs. ascii k \<and> js_clean J v"
  obtains doc where "js_parse J (js_dump J (js_object J (js_null J) kvs)) = Some doc" and "js_is_object J doc"
    and "\<And>k. js_find J doc k = map_option (js_reparse J) (map_of kvs k)"
proof -
  let ?d = "js_object J (js_null J) kvs"
  have "js_clean J ?d" using js_object_clean [OF assms(1,4)] json_clean(1) [OF assms(1)] by (simp add: js_container_def)
  then have p: "js_parse J (js_dump J ?d) = Some (js_reparse J ?d)" by (rule json_text(1) [OF assms(1)])
  have obj: "js_is_object J ?d" by (rule js_object_is_object [OF assms(1,2)])
  then show thesis
    using that [OF p] js_object_find [OF assms(1,3)] json_text(3,4) [OF assms(1), of ?d] by simp
qed

section \<open>An instance\<close>

text \<open>A library for which the laws hold; the text of a document is the number it is coded by.\<close>

datatype jval = JNull | JBool bool | JUnsigned u64 | JInteger int | JString string | JArray "jval list"
  | JObject "(string \<times> jval) list"

instance jval :: countable
  by countable_datatype

fun jv_find :: "jval \<Rightarrow> string \<Rightarrow> jval option" where
  "jv_find (JObject m) k = map_of m k"
| "jv_find _ k = None"

fun jv_set :: "jval \<Rightarrow> string \<Rightarrow> jval \<Rightarrow> jval" where
  "jv_set (JObject m) k v = JObject ((k, v) # m)"
| "jv_set _ k v = JObject [(k, v)]"

fun jv_reparse :: "jval \<Rightarrow> jval" where
  "jv_reparse (JInteger i) = (if i < 0 then JInteger i else JUnsigned (of_int i))"
| "jv_reparse (JArray js) = JArray (map jv_reparse js)"
| "jv_reparse (JObject m) = JObject (map (\<lambda>(k, v). (k, jv_reparse v)) m)"
| "jv_reparse j = j"

fun jv_u64 :: "jval \<Rightarrow> u64 option" where
  "jv_u64 (JUnsigned n) = Some n"
| "jv_u64 (JInteger i) = Some (of_int i)"
| "jv_u64 (JBool b) = Some (if b then 1 else 0)"
| "jv_u64 _ = None"

fun jv_i64 :: "jval \<Rightarrow> int option" where
  "jv_i64 (JUnsigned n) = Some (sint n)"
| "jv_i64 (JInteger i) = Some i"
| "jv_i64 (JBool b) = Some (if b then 1 else 0)"
| "jv_i64 _ = None"

definition jv_string :: "jval \<Rightarrow> string option" where
  "jv_string j = (case j of JString s \<Rightarrow> Some s | _ \<Rightarrow> None)"

definition jv_bool :: "jval \<Rightarrow> bool option" where
  "jv_bool j = (case j of JBool b \<Rightarrow> Some b | _ \<Rightarrow> None)"

definition jv_value :: "(jval \<Rightarrow> 'a option) \<Rightarrow> jval \<Rightarrow> string \<Rightarrow> 'a \<Rightarrow> 'a option" where
  "jv_value conv j k d =
     (case j of JObject m \<Rightarrow> (case map_of m k of None \<Rightarrow> Some d | Some v \<Rightarrow> conv v) | _ \<Rightarrow> None)"

definition sample_json :: "jval json_lib" where
  "sample_json =
     \<lparr>js_parse = (\<lambda>s. Some (from_nat (digits_value 0 s))), js_dump = (\<lambda>j. to_string (to_nat (jv_reparse j))),
      js_clean = (\<lambda>_. True), js_reparse = jv_reparse,
      js_is_object = (\<lambda>j. case j of JObject _ \<Rightarrow> True | _ \<Rightarrow> False),
      js_is_array = (\<lambda>j. case j of JArray _ \<Rightarrow> True | _ \<Rightarrow> False),
      js_is_string = (\<lambda>j. case j of JString _ \<Rightarrow> True | _ \<Rightarrow> False),
      js_is_unsigned = (\<lambda>j. case j of JUnsigned _ \<Rightarrow> True | _ \<Rightarrow> False),
      js_is_integer = (\<lambda>j. case j of JUnsigned _ \<Rightarrow> True | JInteger _ \<Rightarrow> True | _ \<Rightarrow> False),
      js_find = jv_find, js_elems = (\<lambda>j. case j of JArray js \<Rightarrow> js | _ \<Rightarrow> []),
      js_to_string = jv_string, js_to_bool = jv_bool, js_to_u64 = jv_u64,
      js_to_u32 = (\<lambda>j. map_option ucast (jv_u64 j)), js_to_i64 = jv_i64,
      js_to_int = (\<lambda>j. map_option (\<lambda>n. sint (ucast n :: u32)) (jv_u64 j)),
      js_value_string = jv_value jv_string, js_value_bool = jv_value jv_bool, js_value_u64 = jv_value jv_u64,
      js_value_u32 = jv_value (\<lambda>j. map_option ucast (jv_u64 j)), js_value_i64 = jv_value jv_i64,
      js_value_int = jv_value (\<lambda>j. map_option (\<lambda>n. sint (ucast n :: u32)) (jv_u64 j)),
      js_null = JNull, js_str = JString, js_bool = JBool, js_u64 = JUnsigned, js_i64 = JInteger,
      js_array = JArray, js_set = jv_set\<rparr>"

lemma jv_find_reparse: "js_find sample_json (jv_reparse j) k = map_option jv_reparse (jv_find j k)"
proof (cases j)
  case (JObject m)
  have "map_of (map (\<lambda>(k, v). (k, jv_reparse v)) m) k = map_option jv_reparse (map_of m k)"
    by (induction m) auto
  then show ?thesis by (simp add: JObject sample_json_def)
qed (auto simp: sample_json_def)

lemma sample_json_value: "json_value_laws sample_json"
  by (simp add: json_value_laws_def value_law_def sample_json_def jv_value_def split: jval.split)

lemma sample_json_build: "json_build_laws sample_json"
  by (auto simp: json_build_laws_def js_container_def sample_json_def jv_string_def jv_bool_def split: jval.splits)

lemma sample_json_text: "json_text_laws sample_json"
proof -
  have "js_is_object sample_json (jv_reparse j) = js_is_object sample_json j" for j
    by (cases j) (simp_all add: sample_json_def)
  then show ?thesis using jv_find_reparse by (simp add: json_text_laws_def) (simp add: sample_json_def)
qed

lemma sample_json_laws: "json_laws sample_json"
  by (simp add: json_laws_def sample_json_value sample_json_build sample_json_text)

end
