(* ===== verification/EdgeMessage.thy ===== *)
theory EdgeMessage
  imports Json EdgeFrame TunnelFrame
begin

text \<open>
  Edge data as a message (\<open>iota_proxy/src/business/EdgeDataMessage.cpp\<close>): building it from a
  frame, its JSON text, and reading messages back from Kafka. The wall clock is an argument.
\<close>

record EdgeDataMessage =
  em_mac_hex :: string
  em_mac_addr :: string
  em_timestamp_ms :: u64
  em_stream_id :: u64
  em_payload_base64 :: string
  em_payload_len :: nat
  em_origin :: string
  em_message_id :: string
  em_received_at_ms :: int

section \<open>Text\<close>

definition kAlphabet :: string where
  "kAlphabet = ''ABCDEFGHIJKLMNOPQRSTUVWXYZabcdefghijklmnopqrstuvwxyz0123456789+/''"

text \<open>The character for the sextet at a shift.\<close>

definition b64_char :: "nat \<Rightarrow> u32 \<Rightarrow> char" where
  "b64_char shift chunk = kAlphabet ! unat (drop_bit shift chunk AND 0x3f)"

definition b64_chunk :: "bytes \<Rightarrow> u32" where
  "b64_chunk data =
     (let b0 = ucast (data ! 0);
          b1 = (if 1 < length data then ucast (data ! 1) else 0);
          b2 = (if 2 < length data then ucast (data ! 2) else 0)
      in push_bit 16 b0 OR push_bit 8 b1 OR b2)"

function base64_encode :: "bytes \<Rightarrow> string" where
  "base64_encode data =
     (if data = [] then []
      else
        let chunk = b64_chunk data
        in [b64_char 18 chunk, b64_char 12 chunk,
            if 1 < length data then b64_char 6 chunk else CHR ''='',
            if 2 < length data then b64_char 0 chunk else CHR ''=''] @ base64_encode (drop 3 data))"
  by pat_completeness auto

termination base64_encode
  by (relation "measure length") auto

declare base64_encode.simps [simp del]

fun mac_pairs :: "string \<Rightarrow> string" where
  "mac_pairs [] = []"
| "mac_pairs [c] = [CHR '':'', c]"
| "mac_pairs (c # d # cs) = CHR '':'' # c # d # mac_pairs cs"

definition mac_hex_to_addr :: "string \<Rightarrow> string" where
  "mac_hex_to_addr mac_hex = drop 1 (mac_pairs mac_hex)"

definition tolower :: "char \<Rightarrow> char" where
  "tolower c = (if 65 \<le> code c \<and> code c \<le> 90 then char_of (code c + 32) else c)"

definition isxdigit :: "char \<Rightarrow> bool" where
  "isxdigit c \<longleftrightarrow> isdigit c \<or> 65 \<le> code c \<and> code c \<le> 70 \<or> 97 \<le> code c \<and> code c \<le> 102"

definition compact_mac_hex :: "string \<Rightarrow> string" where
  "compact_mac_hex value =
     (let compact = map tolower (filter (\<lambda>ch. \<not> (ch = CHR '':'' \<or> ch = CHR ''-'' \<or> isspace ch)) value)
      in if length compact \<noteq> 12 then []
         else if \<exists>ch \<in> set compact. \<not> isxdigit ch then []
         else compact)"

text \<open>\<open>text.find(pat)\<close>: the first position where the pattern starts.\<close>

fun find_sub :: "string \<Rightarrow> string \<Rightarrow> nat option" where
  "find_sub pat [] = (if pat = [] then Some 0 else None)"
| "find_sub pat (c # cs) =
     (if take (length pat) (c # cs) = pat then Some 0 else map_option Suc (find_sub pat cs))"

definition mac_from_topic :: "string \<Rightarrow> string" where
  "mac_from_topic topic =
     (let marker = ''/devices/''
      in case find_sub marker topic of
           None \<Rightarrow> []
         | Some marker_pos \<Rightarrow>
             let mac_begin = marker_pos + length marker
             in case find_char (CHR ''/'') mac_begin topic of
                  None \<Rightarrow> []
                | Some mac_end \<Rightarrow>
                    if substr mac_end 10 topic \<noteq> ''/telemetry'' then []
                    else substr mac_begin (mac_end - mac_begin) topic)"

section \<open>JSON fields\<close>

definition json_string :: "'j json_lib \<Rightarrow> 'j \<Rightarrow> string \<Rightarrow> string" where
  "json_string J doc key =
     (case js_find J doc key of
        None \<Rightarrow> []
      | Some it \<Rightarrow> if \<not> js_is_string J it then [] else (case js_to_string J it of None \<Rightarrow> [] | Some s \<Rightarrow> s))"

definition json_u64 :: "'j json_lib \<Rightarrow> 'j \<Rightarrow> string \<Rightarrow> u64" where
  "json_u64 J doc key =
     (case js_find J doc key of
        None \<Rightarrow> 0
      | Some it \<Rightarrow>
          if js_is_unsigned J it then (case js_to_u64 J it of None \<Rightarrow> 0 | Some n \<Rightarrow> n)
          else if js_is_integer J it
          then (case js_to_i64 J it of None \<Rightarrow> 0 | Some value \<Rightarrow> if value < 0 then 0 else of_int value)
          else 0)"

section \<open>Messages\<close>

definition make_edge_data_message ::
  "int \<Rightarrow> u64 \<Rightarrow> bytes \<Rightarrow> BroadcastMetadata \<Rightarrow> EdgeDataMessage option" where
  "make_edge_data_message now_ms stream_id frame metadata =
     (case decode_edge_data_frame frame of
        None \<Rightarrow> None
      | Some edge \<Rightarrow>
          let mac_hex = edge_mac_to_hex (ef_mac edge)
          in Some \<lparr>em_mac_hex = mac_hex, em_mac_addr = mac_hex_to_addr mac_hex,
                   em_timestamp_ms = ef_timestamp_ms edge, em_stream_id = stream_id,
                   em_payload_base64 = base64_encode (ef_payload edge),
                   em_payload_len = length (ef_payload edge),
                   em_origin = (if bm_valid metadata then convid_to_hex (bm_origin metadata) else []),
                   em_message_id = (if bm_valid metadata then convid_to_hex (bm_message_id metadata) else []),
                   em_received_at_ms = now_ms\<rparr>)"

definition or_else :: "string \<Rightarrow> string \<Rightarrow> string" where
  "or_else s t = (if s = [] then t else s)"

definition parse_edge_kafka_message_json ::
  "'j json_lib \<Rightarrow> int \<Rightarrow> string \<Rightarrow> BroadcastMetadata \<Rightarrow> EdgeDataMessage option" where
  "parse_edge_kafka_message_json J now_ms payload metadata =
     (if payload = [] then None
      else case js_parse J payload of
             None \<Rightarrow> None
           | Some doc \<Rightarrow>
               if \<not> js_is_object J doc then None
               else
                 let schema = json_string J doc ''schema''
                 in if schema \<noteq> [] \<and> schema \<noteq> ''iota.edge.raw.v1'' then None
                    else
                      let mac_hex = or_else (compact_mac_hex (json_string J doc ''mac_hex''))
                            (or_else (compact_mac_hex (json_string J doc ''mac_addr''))
                              (compact_mac_hex (mac_from_topic (json_string J doc ''topic''))))
                      in if mac_hex = [] then None
                         else
                           let timestamp = json_u64 J doc ''timestamp_ms'';
                               timestamp = (if timestamp = 0 then json_u64 J doc ''timestamp'' else timestamp);
                               origin = json_string J doc ''origin'';
                               message_id = or_else (json_string J doc ''message_id'')
                                 (json_string J doc ''mqtt_message_id'')
                           in Some \<lparr>em_mac_hex = mac_hex, em_mac_addr = mac_hex_to_addr mac_hex,
                                    em_timestamp_ms = timestamp,
                                    em_stream_id = json_u64 J doc ''stream_id'',
                                    em_payload_base64 = json_string J doc ''payload_base64'',
                                    em_payload_len = unat (json_u64 J doc ''payload_len''),
                                    em_origin = (if bm_valid metadata then
                                      or_else origin (convid_to_hex (bm_origin metadata)) else origin),
                                    em_message_id = (if bm_valid metadata then
                                      or_else message_id (convid_to_hex (bm_message_id metadata)) else message_id),
                                    em_received_at_ms = now_ms\<rparr>)"

definition edge_message_fields :: "'j json_lib \<Rightarrow> EdgeDataMessage \<Rightarrow> (string \<times> 'j) list" where
  "edge_message_fields J message =
     [(''schema'', js_str J ''iota.edge.raw.v1''), (''mac_hex'', js_str J (em_mac_hex message)),
      (''mac_addr'', js_str J (em_mac_addr message)), (''timestamp_ms'', js_u64 J (em_timestamp_ms message)),
      (''stream_id'', js_u64 J (em_stream_id message)),
      (''payload_base64'', js_str J (em_payload_base64 message)),
      (''payload_len'', js_u64 J (of_nat (em_payload_len message))), (''origin'', js_str J (em_origin message)),
      (''message_id'', js_str J (em_message_id message)),
      (''received_at_ms'', js_i64 J (em_received_at_ms message))]"

definition serialize_edge_data_message_json :: "'j json_lib \<Rightarrow> EdgeDataMessage \<Rightarrow> string" where
  "serialize_edge_data_message_json J message =
     js_dump J (js_object J (js_null J) (edge_message_fields J message))"

end
