(* ===== verification/Redis.thy ===== *)
theory Redis
  imports Sockets EdgeMessage
begin

text \<open>
  The Redis state cache (\<open>iota_proxy/src/business/RedisStateCache.cpp\<close>): commands in the Redis
  protocol, replies read byte by byte, one reconnection per command, and the three commands for an
  edge message. The answers of the system calls are arguments, as in \<open>Sockets\<close>; the answers to
  successive connection attempts are a second list. The time limit of a \<open>poll\<close> only decides
  whether the system may answer \<open>TimedOut\<close>.
\<close>

section \<open>Numbers in text\<close>

text \<open>
  \<open>strtol\<close> to base 10: the value, out of range the nearest limit, and the text at the end pointer;
  \<open>None\<close> when nothing was converted.
\<close>

definition long_max :: int where
  "long_max = 2 ^ 63 - 1"

definition strtol :: "string \<Rightarrow> (int \<times> string) option" where
  "strtol s =
     (let (neg, t) = sign_rest (dropWhile isspace s);
          ds = takeWhile isdigit t;
          value = (if neg then - int (digits_value 0 ds) else int (digits_value 0 ds))
      in if ds = [] then None
         else Some (if long_max < value then long_max else if value < - long_max - 1 then - long_max - 1 else value,
                    dropWhile isdigit t))"

definition crlf :: string where
  "crlf = [char_of (13 :: nat), char_of (10 :: nat)]"

section \<open>Commands\<close>

definition bulk :: "string \<Rightarrow> string" where
  "bulk value = ''$'' @ to_string (length value) @ crlf @ value @ crlf"

definition redis_command :: "string list \<Rightarrow> string" where
  "redis_command args = ''*'' @ to_string (length args) @ crlf @ concat (map bulk args)"

definition set_args :: "string \<Rightarrow> string \<Rightarrow> u32 \<Rightarrow> string list" where
  "set_args key value ttl_seconds =
     (if ttl_seconds = 0 then [''SET'', key, value]
      else [''SET'', key, value, ''EX'', to_string (unat ttl_seconds)])"

definition set_command :: "string \<Rightarrow> string \<Rightarrow> u32 \<Rightarrow> string" where
  "set_command key value ttl_seconds = redis_command (set_args key value ttl_seconds)"

definition set_nx_args :: "string \<Rightarrow> string \<Rightarrow> u32 \<Rightarrow> string list" where
  "set_nx_args key value ttl_seconds =
     (if ttl_seconds = 0 then [''SET'', key, value, ''NX'']
      else [''SET'', key, value, ''EX'', to_string (unat ttl_seconds), ''NX''])"

definition set_nx_command :: "string \<Rightarrow> string \<Rightarrow> u32 \<Rightarrow> string" where
  "set_nx_command key value ttl_seconds = redis_command (set_nx_args key value ttl_seconds)"

section \<open>Socket input and output\<close>

definition wait_fd :: "sys_answers \<Rightarrow> (bool \<times> sys_answers) option" where
  "wait_fd w = (case poll_loop w of None \<Rightarrow> None | Some (a, w') \<Rightarrow> Some (a = Ready True, w'))"

lemma poll_loop_shorter: "poll_loop w = Some (a, w') \<Longrightarrow> length w' < length w"
  by (induction w) (auto split: if_splits)

lemma wait_fd_shorter: "wait_fd w = Some (ok, w') \<Longrightarrow> length w' < length w"
  by (auto simp: wait_fd_def dest: poll_loop_shorter split: option.splits)

function redis_write_all :: "sys_answers \<Rightarrow> bytes \<Rightarrow> (bool \<times> bytes \<times> sys_answers) option" where
  "redis_write_all w data =
     (if data = [] then Some (True, [], w)
      else case wait_fd w of
             None \<Rightarrow> None
           | Some (ready, w') \<Rightarrow>
               if \<not> ready then Some (False, [], w')
               else (case w' of
                       [] \<Rightarrow> None
                     | a # w'' \<Rightarrow>
                         (case a of
                            Interrupted \<Rightarrow> redis_write_all w'' data
                          | Sent n \<Rightarrow>
                              if n = 0 then Some (False, [], w'')
                              else (case redis_write_all w'' (drop n data) of
                                      None \<Rightarrow> None
                                    | Some (ok, sent, rest) \<Rightarrow> Some (ok, take n data @ sent, rest))
                          | _ \<Rightarrow> Some (False, [], w''))))"
  by pat_completeness auto

termination redis_write_all
  by (relation "measure (\<lambda>(w, _). length w)") (auto dest!: wait_fd_shorter)

declare redis_write_all.simps [simp del]

text \<open>\<open>recv\<close> of one byte: \<open>None\<close> inside for a failure or the end of the stream.\<close>

fun recv_byte :: "sys_answers \<Rightarrow> (byte option \<times> sys_answers) option" where
  "recv_byte [] = None"
| "recv_byte (a # w) =
     (case a of
        Interrupted \<Rightarrow> recv_byte w
      | Received bs \<Rightarrow> Some (if bs = [] then None else Some (hd bs), w)
      | _ \<Rightarrow> Some (None, w))"

definition read_byte :: "sys_answers \<Rightarrow> (byte option \<times> sys_answers) option" where
  "read_byte w =
     (case wait_fd w of
        None \<Rightarrow> None
      | Some (ready, w') \<Rightarrow> if \<not> ready then Some (None, w') else recv_byte w')"

function read_line_loop :: "bytes \<Rightarrow> byte \<Rightarrow> sys_answers \<Rightarrow> (bytes option \<times> sys_answers) option" where
  "read_line_loop out previous w =
     (if length out < 1024 * 1024
      then (case read_byte w of
              None \<Rightarrow> None
            | Some (c, w') \<Rightarrow>
                (case c of
                   None \<Rightarrow> Some (None, w')
                 | Some b \<Rightarrow>
                     if previous = 13 \<and> b = 10 then Some (Some (take (length out - 1) out), w')
                     else read_line_loop (out @ [b]) b w'))
      else Some (None, w))"
  by pat_completeness auto

termination read_line_loop
  by (relation "measure (\<lambda>(out, _). 1024 * 1024 - length out)") auto

declare read_line_loop.simps [simp del]

definition read_line :: "sys_answers \<Rightarrow> (bytes option \<times> sys_answers) option" where
  "read_line w = read_line_loop [] 0 w"

text \<open>The bytes read into the buffer are returned as well; at most \<open>chunk\<close> are delivered at a time.\<close>

function discard_bytes :: "nat \<Rightarrow> sys_answers \<Rightarrow> (bool \<times> bytes \<times> sys_answers) option" where
  "discard_bytes len w =
     (if len = 0 then Some (True, [], w)
      else case wait_fd w of
             None \<Rightarrow> None
           | Some (ready, w') \<Rightarrow>
               if \<not> ready then Some (False, [], w')
               else (case w' of
                       [] \<Rightarrow> None
                     | a # w'' \<Rightarrow>
                         (case a of
                            Interrupted \<Rightarrow> discard_bytes len w''
                          | Received bs \<Rightarrow>
                              let got = take (min len 4096) bs
                              in if got = [] then Some (False, [], w'')
                                 else (case discard_bytes (len - length got) w'' of
                                         None \<Rightarrow> None
                                       | Some (ok, gone, rest) \<Rightarrow> Some (ok, got @ gone, rest))
                          | _ \<Rightarrow> Some (False, [], w''))))"
  by pat_completeness auto

termination discard_bytes
  by (relation "measure (\<lambda>(_, w). length w)") (auto dest!: wait_fd_shorter)

declare discard_bytes.simps [simp del]

section \<open>Replies\<close>

record Reply =
  rp_type :: byte
  rp_nil :: bool
  rp_text :: bytes

text \<open>The reply, \<open>None\<close> inside for a failure, and the bytes read for it by the calls that succeeded.\<close>

definition read_reply :: "sys_answers \<Rightarrow> (Reply option \<times> bytes \<times> sys_answers) option" where
  "read_reply w =
     (case read_byte w of
        None \<Rightarrow> None
      | Some (None, w1) \<Rightarrow> Some (None, [], w1)
      | Some (Some type, w1) \<Rightarrow>
          if type = 0x2b \<or> type = 0x3a \<or> type = 0x2d
          then (case read_line w1 of
                  None \<Rightarrow> None
                | Some (None, w2) \<Rightarrow> Some (None, [type], w2)
                | Some (Some line, w2) \<Rightarrow>
                    Some (Some \<lparr>rp_type = type, rp_nil = False, rp_text = line\<rparr>, type # line @ str_bytes crlf, w2))
          else if type = 0x24
          then (case read_line w1 of
                  None \<Rightarrow> None
                | Some (None, w2) \<Rightarrow> Some (None, [type], w2)
                | Some (Some line, w2) \<Rightarrow>
                    let taken = type # line @ str_bytes crlf
                    in case strtol (c_str (bytes_str line)) of
                         None \<Rightarrow> Some (None, taken, w2)
                       | Some (len, rest) \<Rightarrow>
                           if rest \<noteq> [] \<or> len < -1 then Some (None, taken, w2)
                           else if len < 0
                           then Some (Some \<lparr>rp_type = type, rp_nil = True, rp_text = []\<rparr>, taken, w2)
                           else (case discard_bytes (nat len + 2) w2 of
                                   None \<Rightarrow> None
                                 | Some (ok, body, w3) \<Rightarrow>
                                     Some (if ok then Some \<lparr>rp_type = type, rp_nil = False, rp_text = []\<rparr> else None,
                                           taken @ body, w3)))
          else Some (None, [type], w1))"

section \<open>The cache\<close>

record RedisStateCacheConfig =
  rc_endpoint :: Ipv4Endpoint
  rc_connect_timeout_ms :: u32
  rc_io_timeout_ms :: u32
  rc_device_state_ttl_seconds :: u32
  rc_device_latest_ttl_seconds :: u32
  rc_seen_ttl_seconds :: u32

definition redis_enabled :: "RedisStateCacheConfig \<Rightarrow> bool" where
  "redis_enabled config \<longleftrightarrow> ep_host (rc_endpoint config) \<noteq> [] \<and> ep_port (rc_endpoint config) \<noteq> 0"

record RedisStateCache =
  rc_config :: RedisStateCacheConfig
  rc_fd :: int

datatype rs_action =
    RsConnect int
  | RsSend int bytes
  | RsRecv int bytes
  | RsShutdown int
  | RsClose int

text \<open>What is still to come: answers to input and output, and to connection attempts.\<close>

type_synonym redis_world = "sys_answers \<times> connect_answers list"

definition RedisStateCache_init :: "RedisStateCacheConfig \<Rightarrow> RedisStateCache" where
  "RedisStateCache_init config = \<lparr>rc_config = config, rc_fd = -1\<rparr>"

definition close_locked :: "RedisStateCache \<Rightarrow> rs_action list \<times> RedisStateCache" where
  "close_locked s =
     (if 0 \<le> rc_fd s then ([RsShutdown (rc_fd s), RsClose (rc_fd s)], s\<lparr>rc_fd := -1\<rparr>) else ([], s))"

definition redis_stop :: "RedisStateCache \<Rightarrow> rs_action list \<times> RedisStateCache" where
  "redis_stop s = close_locked s"

text \<open>The attempt to connect only goes on when \<open>poll\<close> reports the descriptor writable.\<close>

definition connect_with_timeout ::
  "(string \<Rightarrow> 4 barr option) \<Rightarrow> Ipv4Endpoint \<Rightarrow> connect_answers \<Rightarrow> (int \<times> int list) option" where
  "connect_with_timeout = connect_with (\<lambda>a. a = Ready True)"

definition connect_locked ::
  "(string \<Rightarrow> 4 barr option) \<Rightarrow> connect_answers list \<Rightarrow> RedisStateCache \<Rightarrow>
   (bool \<times> rs_action list \<times> connect_answers list \<times> RedisStateCache) option" where
  "connect_locked pton cas s =
     (if \<not> redis_enabled (rc_config s) then Some (False, [], cas, s)
      else case cas of
             [] \<Rightarrow> None
           | ca # cas' \<Rightarrow>
               (case connect_with_timeout pton (rc_endpoint (rc_config s)) ca of
                  None \<Rightarrow> None
                | Some (fd, cls) \<Rightarrow>
                    if fd < 0 then Some (False, map RsClose cls, cas', s\<lparr>rc_fd := fd\<rparr>)
                    else Some (True, [RsConnect fd], cas', s\<lparr>rc_fd := fd\<rparr>)))"

definition ensure_connected ::
  "(string \<Rightarrow> 4 barr option) \<Rightarrow> connect_answers list \<Rightarrow> RedisStateCache \<Rightarrow>
   (bool \<times> rs_action list \<times> connect_answers list \<times> RedisStateCache) option" where
  "ensure_connected pton cas s =
     (if 0 \<le> rc_fd s then Some (True, [], cas, s) else connect_locked pton cas s)"

definition send_command_locked :: "string \<Rightarrow> sys_answers \<Rightarrow> RedisStateCache \<Rightarrow>
   (bool \<times> rs_action list \<times> sys_answers) option" where
  "send_command_locked cmd w s =
     (if \<not> 0 \<le> rc_fd s then Some (False, [], w)
      else case redis_write_all w (str_bytes cmd) of
             None \<Rightarrow> None
           | Some (ok, sent, w') \<Rightarrow> Some (ok, [RsSend (rc_fd s) sent], w'))"

definition read_reply_locked :: "sys_answers \<Rightarrow> RedisStateCache \<Rightarrow>
   (Reply option \<times> rs_action list \<times> sys_answers) option" where
  "read_reply_locked w s =
     (if rc_fd s < 0 then Some (None, [], w)
      else case read_reply w of
             None \<Rightarrow> None
           | Some (reply, taken, w') \<Rightarrow> Some (reply, [RsRecv (rc_fd s) taken], w'))"

text \<open>The exchange of one attempt: \<open>None\<close> inside when sending or reading failed.\<close>

definition redis_exchange :: "string \<Rightarrow> sys_answers \<Rightarrow> RedisStateCache \<Rightarrow>
   (Reply option \<times> rs_action list \<times> sys_answers) option" where
  "redis_exchange cmd w s =
     (case send_command_locked cmd w s of
        None \<Rightarrow> None
      | Some (ok, acts, w1) \<Rightarrow>
          if \<not> ok then Some (None, acts, w1)
          else case read_reply_locked w1 s of
                 None \<Rightarrow> None
               | Some (reply, acts', w2) \<Rightarrow> Some (reply, acts @ acts', w2))"

text \<open>The loop over the attempts: the reply, \<open>None\<close> inside for the result \<open>false\<close>.\<close>

fun execute_attempts ::
  "nat \<Rightarrow> (string \<Rightarrow> 4 barr option) \<Rightarrow> string \<Rightarrow> redis_world \<Rightarrow> RedisStateCache \<Rightarrow>
   (Reply option \<times> rs_action list \<times> redis_world \<times> RedisStateCache) option" where
  "execute_attempts 0 pton cmd wd s = Some (None, [], wd, s)"
| "execute_attempts (Suc n) pton cmd (w, cas) s =
     (case ensure_connected pton cas s of
        None \<Rightarrow> None
      | Some (up, acts1, cas1, s1) \<Rightarrow>
          if \<not> up then Some (None, acts1, (w, cas1), s1)
          else (case redis_exchange cmd w s1 of
                  None \<Rightarrow> None
                | Some (Some reply, acts2, w1) \<Rightarrow>
                    Some (if rp_type reply = 0x2d then None else Some reply, acts1 @ acts2, (w1, cas1), s1)
                | Some (None, acts2, w1) \<Rightarrow>
                    let (acts3, s2) = close_locked s1
                    in (case execute_attempts n pton cmd (w1, cas1) s2 of
                          None \<Rightarrow> None
                        | Some (result, acts4, wd, s3) \<Rightarrow>
                            Some (result, acts1 @ acts2 @ acts3 @ acts4, wd, s3))))"

definition execute_locked ::
  "(string \<Rightarrow> 4 barr option) \<Rightarrow> string \<Rightarrow> redis_world \<Rightarrow> RedisStateCache \<Rightarrow>
   (Reply option \<times> rs_action list \<times> redis_world \<times> RedisStateCache) option" where
  "execute_locked pton cmd wd s = execute_attempts 2 pton cmd wd s"

text \<open>Two commands one after the other, as long as they succeed.\<close>

definition record_state ::
  "(string \<Rightarrow> 4 barr option) \<Rightarrow> EdgeDataMessage \<Rightarrow> string \<Rightarrow> redis_world \<Rightarrow> RedisStateCache \<Rightarrow>
   (bool \<times> rs_action list \<times> redis_world \<times> RedisStateCache) option" where
  "record_state pton message serialized wd s =
     (let device_prefix = ''device:'' @ em_mac_hex message;
          config = rc_config s
      in case execute_locked pton (set_command (device_prefix @ '':state'') ''online''
                (rc_device_state_ttl_seconds config)) wd s of
           None \<Rightarrow> None
         | Some (None, acts, wd1, s1) \<Rightarrow> Some (False, acts, wd1, s1)
         | Some (Some _, acts, wd1, s1) \<Rightarrow>
             (case execute_locked pton (set_command (device_prefix @ '':latest'') serialized
                     (rc_device_latest_ttl_seconds config)) wd1 s1 of
                None \<Rightarrow> None
              | Some (reply, acts', wd2, s2) \<Rightarrow> Some (reply \<noteq> None, acts @ acts', wd2, s2)))"

text \<open>The result and \<open>*duplicate\<close>.\<close>

definition record_edge_message ::
  "(string \<Rightarrow> 4 barr option) \<Rightarrow> EdgeDataMessage \<Rightarrow> string \<Rightarrow> redis_world \<Rightarrow> RedisStateCache \<Rightarrow>
   (bool \<times> bool \<times> rs_action list \<times> redis_world \<times> RedisStateCache) option" where
  "record_edge_message pton message serialized wd s =
     (if \<not> redis_enabled (rc_config s) then Some (True, False, [], wd, s)
      else if em_message_id message = []
      then map_option (\<lambda>(ok, rest). (ok, False, rest)) (record_state pton message serialized wd s)
      else case execute_locked pton (set_nx_command (''seen:'' @ em_message_id message) ''1''
                  (rc_seen_ttl_seconds (rc_config s))) wd s of
             None \<Rightarrow> None
           | Some (None, acts, wd1, s1) \<Rightarrow> Some (False, False, acts, wd1, s1)
           | Some (Some reply, acts, wd1, s1) \<Rightarrow>
               if rp_nil reply then Some (True, True, acts, wd1, s1)
               else map_option (\<lambda>(ok, acts', rest). (ok, False, acts @ acts', rest))
                      (record_state pton message serialized wd1 s1))"

end
