(* ===== verification/RedisProps.thy ===== *)
theory RedisProps
  imports Redis
begin

text \<open>
  The protocol of the Redis cache: commands parse back to their arguments, a reply is read as one
  unit however the bytes arrive, and connections are used in whole exchanges.
\<close>

section \<open>A reference parser for commands\<close>

definition resp_number :: "char \<Rightarrow> string \<Rightarrow> (nat \<times> string) option" where
  "resp_number tag s =
     (case s of
        [] \<Rightarrow> None
      | c # cs \<Rightarrow>
          let ds = takeWhile isdigit cs; rest = dropWhile isdigit cs
          in if c = tag \<and> ds \<noteq> [] \<and> take 2 rest = crlf then Some (digits_value 0 ds, drop 2 rest) else None)"

definition resp_bulk :: "string \<Rightarrow> (string \<times> string) option" where
  "resp_bulk s =
     (case resp_number (CHR ''$'') s of
        None \<Rightarrow> None
      | Some (n, t) \<Rightarrow> if take 2 (drop n t) = crlf then Some (take n t, drop (n + 2) t) else None)"

primrec resp_bulks :: "nat \<Rightarrow> string \<Rightarrow> (string list \<times> string) option" where
  "resp_bulks 0 s = Some ([], s)"
| "resp_bulks (Suc n) s =
     (case resp_bulk s of
        None \<Rightarrow> None
      | Some (arg, t) \<Rightarrow> (case resp_bulks n t of None \<Rightarrow> None | Some (args, u) \<Rightarrow> Some (arg # args, u)))"

definition resp_command :: "string \<Rightarrow> (string list \<times> string) option" where
  "resp_command s = (case resp_number (CHR ''*'') s of None \<Rightarrow> None | Some (n, t) \<Rightarrow> resp_bulks n t)"

lemma crlf_facts [simp]: "length crlf = 2" "take 2 (crlf @ s) = crlf" "drop 2 (crlf @ s) = s"
  by (simp_all add: crlf_def)

lemma resp_number_to_string: "resp_number tag (tag # to_string n @ crlf @ rest) = Some (n, rest)"
proof -
  have nd: "\<not> isdigit (hd (crlf @ rest))" "crlf @ rest \<noteq> []" by (simp_all add: crlf_def isdigit_def code_def)
  have all: "\<forall>c \<in> set (to_string n). isdigit c" using isdigit_to_string by blast
  have "takeWhile isdigit (to_string n @ crlf @ rest) = to_string n"
    "dropWhile isdigit (to_string n @ crlf @ rest) = crlf @ rest"
    using all nd by (cases "crlf @ rest"; simp add: takeWhile_append dropWhile_append)+
  then show ?thesis by (simp add: resp_number_def)
qed

lemma resp_bulk_bulk: "resp_bulk (bulk v @ rest) = Some (v, rest)"
  using resp_number_to_string [of "CHR ''$''" "length v" "v @ crlf @ rest"] by (simp add: resp_bulk_def bulk_def)

lemma resp_bulks_bulks: "resp_bulks (length args) (concat (map bulk args) @ rest) = Some (args, rest)"
  by (induction args) (simp_all add: resp_bulk_bulk)

section \<open>A reference parser for replies\<close>

text \<open>The bytes before and after the first CR LF.\<close>

fun split_crlf :: "bytes \<Rightarrow> (bytes \<times> bytes) option" where
  "split_crlf (a # b # bs) =
     (if a = 13 \<and> b = 10 then Some ([], bs)
      else map_option (\<lambda>(line, rest). (a # line, rest)) (split_crlf (b # bs)))"
| "split_crlf _ = None"

text \<open>One reply at the front of a byte string, and what follows it.\<close>

definition resp_reply :: "bytes \<Rightarrow> (Reply \<times> bytes) option" where
  "resp_reply bs =
     (case bs of
        [] \<Rightarrow> None
      | type # bs' \<Rightarrow>
          (case split_crlf bs' of
             None \<Rightarrow> None
           | Some (line, rest) \<Rightarrow>
               if type \<in> set (str_bytes ''+:-'')
               then Some (\<lparr>rp_type = type, rp_nil = False, rp_text = line\<rparr>, rest)
               else if [type] = str_bytes ''$''
               then (case strtol (c_str (bytes_str line)) of
                       None \<Rightarrow> None
                     | Some (n, junk) \<Rightarrow>
                         if junk \<noteq> [] \<or> n < -1 then None
                         else if n = -1 then Some (\<lparr>rp_type = type, rp_nil = True, rp_text = []\<rparr>, rest)
                         else if length rest < nat n + 2 then None
                         else Some (\<lparr>rp_type = type, rp_nil = False, rp_text = []\<rparr>, drop (nat n + 2) rest))
               else None))"

lemma split_crlf_snoc:
  "split_crlf out = None \<Longrightarrow>
   (if out \<noteq> [] \<and> last out = 13 \<and> b = 10 then split_crlf (out @ b # rest) = Some (butlast out, rest)
    else split_crlf (out @ [b]) = None)"
proof (induction out rule: split_crlf.induct)
  case (1 a c bs)
  then show ?case by (cases bs) (auto split: if_splits)
qed auto

lemma split_crlf_join: "split_crlf bs = Some (line, rest) \<Longrightarrow> bs = line @ str_bytes crlf @ rest"
  by (induction bs arbitrary: line rule: split_crlf.induct) (auto simp: crlf_def str_bytes_def code_def split: if_splits)

lemma split_crlf_more: "split_crlf bs = Some (line, rest) \<Longrightarrow> split_crlf (bs @ xs) = Some (line, rest @ xs)"
  by (induction bs arbitrary: line rule: split_crlf.induct) (auto split: if_splits)

section \<open>Reading a line\<close>

lemma read_line_loop_sound:
  assumes "read_line_loop out previous w = Some (Some line, w')"
    and "split_crlf out = None" and "previous = (if out = [] then 0 else last out)"
  shows "split_crlf (line @ str_bytes crlf @ rest) = Some (line, rest)"
  using assms
proof (induction out previous w rule: read_line_loop.induct)
  case (1 out previous w)
  have len: "length out < 1024 * 1024" using "1.prems"(1) by (subst (asm) read_line_loop.simps) (simp split: if_splits)
  obtain c w1 where rb: "read_byte w = Some (c, w1)" and c: "c \<noteq> None"
    using "1.prems"(1) len by (subst (asm) read_line_loop.simps) (auto split: option.splits if_splits)
  then obtain b where b: "c = Some b" by blast
  show ?case
  proof (cases "previous = 13 \<and> b = 10")
    case True
    then have ne: "out \<noteq> []" "last out = 13" using "1.prems"(3) by (auto split: if_splits)
    have line: "line = take (length out - 1) out"
      using "1.prems"(1) len True by (subst (asm) read_line_loop.simps) (simp add: rb b)
    then have "line = butlast out" by (simp add: butlast_conv_take)
    then have eq: "line @ str_bytes crlf @ rest = out @ 10 # rest"
      using ne by (simp add: crlf_def str_bytes_def code_def) (metis append_butlast_last_id append_Cons append_Nil append_assoc)
    then show ?thesis
      using split_crlf_snoc [OF "1.prems"(2), of 10 rest] ne \<open>line = butlast out\<close> unfolding eq by simp
  next
    case False
    then have "read_line_loop (out @ [b]) b w1 = Some (Some line, w')"
      using "1.prems"(1) len by (subst (asm) read_line_loop.simps) (auto simp: rb b split: if_splits)
    moreover have "split_crlf (out @ [b]) = None"
      using split_crlf_snoc [OF "1.prems"(2), of b] False "1.prems"(3) by (auto split: if_splits)
    ultimately show ?thesis using "1.IH" [OF len rb _ b False] by simp
  qed
qed

lemma read_line_sound: "read_line w = Some (Some line, w') \<Longrightarrow> split_crlf (line @ str_bytes crlf @ rest) = Some (line, rest)"
  using read_line_loop_sound [of "[]" 0 w line w' rest] by (simp add: read_line_def)

lemma discard_bytes_length: "discard_bytes len w = Some (True, body, w') \<Longrightarrow> length body = len"
proof (induction len w arbitrary: body rule: discard_bytes.induct)
  case (1 len w)
  show ?case
  proof (cases "len = 0")
    case True
    then show ?thesis using "1.prems" by (subst (asm) discard_bytes.simps) simp
  next
    case False
    obtain a w2 where wf: "wait_fd w = Some (True, a # w2)"
      using "1.prems" False by (subst (asm) discard_bytes.simps) (auto split: option.splits prod.splits if_splits list.splits)
    consider (intr) "a = Interrupted" "discard_bytes len w2 = Some (True, body, w')"
      | (got) bs gone where "a = Received bs" "take (min len 4096) bs \<noteq> []"
        "discard_bytes (len - length (take (min len 4096) bs)) w2 = Some (True, gone, w')"
        "body = take (min len 4096) bs @ gone"
      using "1.prems" False
      by (subst (asm) discard_bytes.simps) (auto simp: wf Let_def split: sys_answer.splits option.splits if_splits)
    then show ?thesis
    proof cases
      case intr
      show ?thesis by (rule "1.IH"(2) [OF False wf refl _ refl intr]) simp
    next
      case got
      have "length gone = len - length (take (min len 4096) bs)"
        by (rule "1.IH"(1) [OF False wf refl _ refl got(1) refl got(2,3)]) simp
      moreover have "length (take (min len 4096) bs) \<le> len" by simp
      ultimately show ?thesis using got(4) by simp
    qed
  qed
qed

section \<open>Reading a reply\<close>

lemma str_bytes_tags: "str_bytes ''+:-'' = [0x2b, 0x3a, 0x2d]" "str_bytes ''$'' = [0x24]" "str_bytes crlf = [13, 10]"
  by code_simp+

lemma read_reply_sound:
  assumes "read_reply w = Some (Some reply, taken, w')"
  shows "resp_reply (taken @ rest) = Some (reply, rest)"
proof -
  obtain type w1 where t: "read_byte w = Some (Some type, w1)"
    using assms by (auto simp: read_reply_def split: option.splits)
  obtain line w2 where l: "read_line w1 = Some (Some line, w2)"
    using assms by (auto simp: read_reply_def t split: option.splits if_splits)
  note split = read_line_sound [OF l]
  show ?thesis
  proof (cases "type = 0x2b \<or> type = 0x3a \<or> type = 0x2d")
    case True
    then have "reply = \<lparr>rp_type = type, rp_nil = False, rp_text = line\<rparr>" "taken = type # line @ str_bytes crlf"
      using assms by (auto simp: read_reply_def t l split: if_splits)
    then show ?thesis using True split [of rest] by (auto simp: resp_reply_def str_bytes_tags)
  next
    case False
    then have d: "type = 0x24" using assms by (auto simp: read_reply_def t split: if_splits)
    obtain n where n: "strtol (c_str (bytes_str line)) = Some (n, [])" "\<not> n < -1"
      using assms d by (auto simp: read_reply_def t l Let_def split: option.splits if_splits)
    show ?thesis
    proof (cases "n < 0")
      case True
      then have "n = -1" using n(2) by simp
      then show ?thesis
        using assms d n split [of rest] by (auto simp: read_reply_def resp_reply_def str_bytes_tags t l Let_def)
    next
      case False
      then obtain body where b: "discard_bytes (nat n + 2) w2 = Some (True, body, w')"
        and r: "reply = \<lparr>rp_type = type, rp_nil = False, rp_text = []\<rparr>" "taken = type # line @ str_bytes crlf @ body"
        using assms d n by (auto simp: read_reply_def t l Let_def split: option.splits if_splits)
      have "length body = nat n + 2" by (rule discard_bytes_length [OF b])
      then show ?thesis
        using r d n False split [of "body @ rest"] by (simp add: resp_reply_def str_bytes_tags)
    qed
  qed
qed

text \<open>Answers that deliver the bytes one at a time, whenever they are asked for.\<close>

definition byte_answers :: "bytes \<Rightarrow> sys_answers" where
  "byte_answers bs = concat (map (\<lambda>b. [Ready True, Received [b]]) bs)"

lemma byte_answers_simps [simp]:
  "byte_answers [] = []" "byte_answers (b # bs) = Ready True # Received [b] # byte_answers bs"
  "byte_answers (as @ bs) = byte_answers as @ byte_answers bs"
  by (simp_all add: byte_answers_def)

lemma wait_fd_ready [simp]: "wait_fd (Ready True # w) = Some (True, w)"
  by (simp add: wait_fd_def)

lemma read_byte_ready [simp]: "read_byte (Ready True # Received [b] # w) = Some (Some b, w)"
  by (simp add: read_byte_def)

lemma read_line_loop_complete:
  assumes "split_crlf (out @ bs) = Some (line, [])" and "split_crlf out = None"
    and "previous = (if out = [] then 0 else last out)" and "length (out @ bs) \<le> 1024 * 1024"
  shows "read_line_loop out previous (byte_answers bs @ w) = Some (Some line, w)"
  using assms
proof (induction bs arbitrary: out previous)
  case (Cons b bs)
  have len: "length out < 1024 * 1024" using Cons.prems(4) by simp
  show ?case
  proof (cases "previous = 13 \<and> b = 10")
    case True
    then have ne: "out \<noteq> []" "last out = 13" using Cons.prems(3) by (auto split: if_splits)
    have "split_crlf (out @ b # bs) = Some (butlast out, bs)"
      using split_crlf_snoc [OF Cons.prems(2), of b bs] ne True by simp
    then have "bs = []" "line = butlast out" using Cons.prems(1) by simp_all
    then show ?thesis
      using True len by (subst read_line_loop.simps) (simp add: butlast_conv_take)
  next
    case False
    have "split_crlf (out @ [b]) = None"
      using split_crlf_snoc [OF Cons.prems(2), of b] False Cons.prems(3) by (auto split: if_splits)
    then have "read_line_loop (out @ [b]) b (byte_answers bs @ w) = Some (Some line, w)"
      using Cons.prems(1,4) by (intro Cons.IH) simp_all
    then show ?thesis using False len by (subst read_line_loop.simps) auto
  qed
qed simp

lemma discard_bytes_complete: "discard_bytes (length bs) (byte_answers bs @ w) = Some (True, bs, w)"
proof (induction bs)
  case Nil
  show ?case by (subst discard_bytes.simps) simp
next
  case (Cons b bs)
  then show ?case by (subst discard_bytes.simps) (simp add: Let_def min_def)
qed

lemma read_reply_complete:
  assumes "resp_reply bs = Some (reply, [])" and "length bs \<le> 1024 * 1024"
  shows "read_reply (byte_answers bs @ w) = Some (Some reply, bs, w)"
proof -
  obtain type bs' where bs: "bs = type # bs'" using assms(1) by (auto simp: resp_reply_def split: list.splits)
  obtain line rest where sp: "split_crlf bs' = Some (line, rest)"
    using assms(1) by (auto simp: resp_reply_def bs split: option.splits)
  have join: "bs' = (line @ str_bytes crlf) @ rest" using split_crlf_join [OF sp] by simp
  have "split_crlf ([] @ line @ str_bytes crlf) = Some (line, [])"
  proof -
    have "split_crlf (line @ str_bytes crlf) = Some (line, [])"
    proof (cases "split_crlf (line @ str_bytes crlf)")
      case None
      have "split_crlf (line @ [13]) = None" using None split_crlf_more [of "line @ [13]" _ _ "[10]"]
        by (cases "split_crlf (line @ [13])") (auto simp: str_bytes_tags)
      from split_crlf_snoc [OF this, of 10 "[]"] show ?thesis by (simp add: str_bytes_tags)
    next
      case (Some x)
      then show ?thesis
        using split_crlf_more [of "line @ str_bytes crlf" "fst x" "snd x" rest] sp join by (cases x) auto
    qed
    then show ?thesis by simp
  qed
  then have line: "read_line (byte_answers (line @ str_bytes crlf) @ v) = Some (Some line, v)" for v
    unfolding read_line_def using assms(2) bs join by (intro read_line_loop_complete) simp_all
  have first: "read_byte (byte_answers bs @ w) = Some (Some type, byte_answers (line @ str_bytes crlf) @ byte_answers rest @ w)"
    unfolding bs join by simp
  show ?thesis
  proof (cases "type \<in> set (str_bytes ''+:-'')")
    case True
    then have "rest = []" "reply = \<lparr>rp_type = type, rp_nil = False, rp_text = line\<rparr>"
      using assms(1) by (auto simp: resp_reply_def bs sp)
    then show ?thesis
      using True line [of w] first bs join unfolding read_reply_def by (auto simp: str_bytes_tags)
  next
    case False
    then have d: "type = 0x24" using assms(1) by (auto simp: resp_reply_def bs sp str_bytes_tags split: if_splits)
    then obtain n where n: "strtol (c_str (bytes_str line)) = Some (n, [])" "\<not> n < -1"
      using assms(1) by (auto simp: resp_reply_def bs sp str_bytes_tags split: option.splits if_splits)
    show ?thesis
    proof (cases "n = -1")
      case True
      then have "rest = []" "reply = \<lparr>rp_type = type, rp_nil = True, rp_text = []\<rparr>"
        using assms(1) d n by (auto simp: resp_reply_def bs sp str_bytes_tags)
      then show ?thesis
        using True line [of w] first bs join d n unfolding read_reply_def by (simp add: Let_def)
    next
      case False
      then have nn: "\<not> n < 0" using n(2) by simp
      have "length rest = nat n + 2" "reply = \<lparr>rp_type = type, rp_nil = False, rp_text = []\<rparr>"
        using assms(1) d n False by (auto simp: resp_reply_def bs sp str_bytes_tags split: if_splits)
      then show ?thesis
        using nn line [of "byte_answers rest @ w"] first bs join d n discard_bytes_complete [of rest w]
        unfolding read_reply_def by (simp add: Let_def)
    qed
  qed
qed

end
