(* ===== verification/RedisClaims.thy ===== *)
theory RedisClaims
  imports RedisProps
begin

text \<open>
  How the Redis cache uses its connection: only whole exchanges, a connection is closed after a
  broken one, and success means that all commands were acknowledged.
\<close>

section \<open>Sessions\<close>

text \<open>
  The abstract client: from the current connection (negative for none) through a list of actions to
  the next. It connects only without a connection; on a connection it sends a whole command and
  reads one whole reply; whatever it sends or reads otherwise ends with closing the connection.
\<close>

inductive redis_session :: "int \<Rightarrow> rs_action list \<Rightarrow> int \<Rightarrow> bool" where
  idle: "redis_session fd [] fd"
| connect: "fd < 0 \<Longrightarrow> 0 \<le> fd' \<Longrightarrow> redis_session fd' acts fd'' \<Longrightarrow> redis_session fd (RsConnect fd' # acts) fd''"
| refused: "fd < 0 \<Longrightarrow> fd' < 0 \<Longrightarrow> redis_session fd' acts fd'' \<Longrightarrow> redis_session fd (map RsClose cls @ acts) fd''"
| exchange: "0 \<le> fd \<Longrightarrow> resp_reply taken = Some (reply, []) \<Longrightarrow> redis_session fd acts fd'' \<Longrightarrow>
    redis_session fd (RsSend fd (str_bytes (redis_command args)) # RsRecv fd taken # acts) fd''"
| abandoned: "0 \<le> fd \<Longrightarrow> str_bytes (redis_command args) = sent @ unsent \<Longrightarrow>
    received = [] \<or> received = [RsRecv fd taken] \<Longrightarrow> redis_session (-1) acts fd'' \<Longrightarrow>
    redis_session fd (RsSend fd sent # received @ RsShutdown fd # RsClose fd # acts) fd''"

lemma redis_session_append:
  "redis_session a xs b \<Longrightarrow> redis_session b ys c \<Longrightarrow> redis_session a (xs @ ys) c"
proof (induction rule: redis_session.induct)
  case (refused fd fd' acts fd'' cls)
  then show ?case using redis_session.refused [of fd fd' "acts @ ys" c cls] by simp
next
  case (abandoned fd args sent unsent received taken acts fd'')
  then show ?case using redis_session.abandoned [of fd args sent unsent received taken "acts @ ys" c] by simp
qed (auto intro: redis_session.intros)

lemma redis_write_all_prefix:
  "redis_write_all w data = Some (ok, sent, w') \<Longrightarrow> (\<exists>unsent. data = sent @ unsent) \<and> (ok \<longrightarrow> sent = data)"
proof (induction w data arbitrary: sent rule: redis_write_all.induct)
  case (1 w data)
  show ?case
  proof (cases "data = []")
    case True
    then show ?thesis using "1.prems" by (subst (asm) redis_write_all.simps) simp
  next
    case False
    consider (none) "sent = []" "\<not> ok"
      | (intr) w2 where "wait_fd w = Some (True, Interrupted # w2)" "redis_write_all w2 data = Some (ok, sent, w')"
      | (part) n w2 later where "wait_fd w = Some (True, Sent n # w2)" "n \<noteq> 0"
          "redis_write_all w2 (drop n data) = Some (ok, later, w')" "sent = take n data @ later"
      using "1.prems" False
      by (subst (asm) redis_write_all.simps)
        (auto split: option.splits prod.splits if_splits list.splits sys_answer.splits)
    then show ?thesis
    proof cases
      case none
      then show ?thesis by simp
    next
      case intr
      show ?thesis by (rule "1.IH"(2) [OF False intr(1) refl _ refl refl intr(2)]) simp
    next
      case part
      have "(\<exists>unsent. drop n data = later @ unsent) \<and> (ok \<longrightarrow> later = drop n data)"
        by (rule "1.IH"(1) [OF False part(1) refl _ refl refl part(2,3)]) simp
      then show ?thesis using part(4) append_take_drop_id [of n data] by (metis append_assoc)
    qed
  qed
qed

lemma redis_exchange_cases:
  assumes "redis_exchange (redis_command args) w s = Some (result, acts, w')" and "0 \<le> rc_fd s"
  obtains (done_ok) reply taken where "result = Some reply" "resp_reply taken = Some (reply, [])"
      "acts = [RsSend (rc_fd s) (str_bytes (redis_command args)), RsRecv (rc_fd s) taken]"
    | (broken) sent unsent received taken where "result = None" "str_bytes (redis_command args) = sent @ unsent"
      "acts = RsSend (rc_fd s) sent # received" "received = [] \<or> received = [RsRecv (rc_fd s) taken]"
proof -
  obtain ok sent w1 where wr: "redis_write_all w (str_bytes (redis_command args)) = Some (ok, sent, w1)"
    using assms by (auto simp: redis_exchange_def send_command_locked_def split: option.splits)
  note pre = redis_write_all_prefix [OF wr]
  show thesis
  proof (cases ok)
    case False
    then have "result = None" "acts = [RsSend (rc_fd s) sent]"
      using assms wr by (auto simp: redis_exchange_def send_command_locked_def)
    then show thesis using broken pre by blast
  next
    case True
    obtain reply taken w2 where rd: "read_reply w1 = Some (reply, taken, w2)"
      using assms wr True
      by (auto simp: redis_exchange_def send_command_locked_def read_reply_locked_def split: option.splits)
    have acts: "result = reply" "acts = [RsSend (rc_fd s) (str_bytes (redis_command args)), RsRecv (rc_fd s) taken]"
      using assms wr True rd pre by (auto simp: redis_exchange_def send_command_locked_def read_reply_locked_def)
    show thesis
    proof (cases reply)
      case None
      then show thesis using broken [of "str_bytes (redis_command args)" "[]"] acts by blast
    next
      case (Some r)
      then show thesis using done_ok [of r taken] acts read_reply_sound [of w1 r taken w2 "[]"] rd by simp
    qed
  qed
qed

lemma ensure_connected_session:
  assumes "ensure_connected pton cas s = Some (ok, acts, cas', s')"
  shows "redis_session (rc_fd s) acts (rc_fd s')" and "ok \<Longrightarrow> 0 \<le> rc_fd s'" and "rc_config s' = rc_config s"
proof -
  consider (up) "0 \<le> rc_fd s" "s' = s" "acts = []"
    | (off) "\<not> 0 \<le> rc_fd s" "s' = s" "acts = []" "\<not> ok"
    | (fail) fd cls where "\<not> 0 \<le> rc_fd s" "fd < 0" "acts = map RsClose cls" "s' = s\<lparr>rc_fd := fd\<rparr>" "\<not> ok"
    | (new) fd where "\<not> 0 \<le> rc_fd s" "\<not> fd < 0" "acts = [RsConnect fd]" "s' = s\<lparr>rc_fd := fd\<rparr>"
    using assms by (auto simp: ensure_connected_def connect_locked_def split: if_splits list.splits option.splits)
  then have "redis_session (rc_fd s) acts (rc_fd s') \<and> (ok \<longrightarrow> 0 \<le> rc_fd s') \<and> rc_config s' = rc_config s"
  proof cases
    case fail
    then show ?thesis using redis_session.refused [of "rc_fd s" fd "[]" fd cls] redis_session.idle [of fd] by simp
  next
    case new
    then show ?thesis using redis_session.connect [of "rc_fd s" fd "[]" fd] redis_session.idle [of fd] by simp
  qed (simp_all add: redis_session.idle)
  then show "redis_session (rc_fd s) acts (rc_fd s')" and "ok \<Longrightarrow> 0 \<le> rc_fd s'" and "rc_config s' = rc_config s"
    by simp_all
qed

text \<open>A reply counts as an acknowledgement unless it is an error.\<close>

definition acknowledged :: "string list \<Rightarrow> rs_action list \<Rightarrow> Reply \<Rightarrow> bool" where
  "acknowledged args acts reply \<longleftrightarrow>
     (\<exists>before fd taken. acts = before @ [RsSend fd (str_bytes (redis_command args)), RsRecv fd taken] \<and>
        resp_reply taken = Some (reply, []) \<and> [rp_type reply] \<noteq> str_bytes ''-'')"

lemma acknowledged_prepend: "acknowledged args acts reply \<Longrightarrow> acknowledged args (before @ acts) reply"
  unfolding acknowledged_def by (metis append_assoc)

lemma execute_attempts_session:
  "execute_attempts n pton (redis_command args) wd s = Some (result, acts, wd', s') \<Longrightarrow>
   redis_session (rc_fd s) acts (rc_fd s') \<and> rc_config s' = rc_config s \<and>
   (\<forall>reply. result = Some reply \<longrightarrow> acknowledged args acts reply)"
proof (induction n arbitrary: wd s acts)
  case 0
  then show ?case by (auto intro: redis_session.idle)
next
  case (Suc n)
  obtain w cas where wd: "wd = (w, cas)" by (cases wd)
  obtain up acts1 cas1 s1 where ec: "ensure_connected pton cas s = Some (up, acts1, cas1, s1)"
    using Suc.prems by (cases "ensure_connected pton cas s") (auto simp: wd)
  note con = ensure_connected_session [OF ec]
  show ?case
  proof (cases up)
    case False
    then show ?thesis using Suc.prems con by (auto simp: wd ec)
  next
    case True
    obtain res2 acts2 w1 where ex: "redis_exchange (redis_command args) w s1 = Some (res2, acts2, w1)"
      using Suc.prems True by (cases "redis_exchange (redis_command args) w s1") (auto simp: wd ec)
    from ex con(2) [OF True] show ?thesis
    proof (cases rule: redis_exchange_cases)
      case (done_ok reply taken)
      have "redis_session (rc_fd s1) acts2 (rc_fd s1)"
        unfolding done_ok(3) by (rule redis_session.exchange [OF con(2) [OF True] done_ok(2) redis_session.idle])
      moreover have r: "acts = acts1 @ acts2" "s' = s1" "result = (if rp_type reply = 0x2d then None else Some reply)"
        using Suc.prems True by (auto simp: wd ec ex done_ok(1))
      moreover have "str_bytes ''-'' = [0x2d]" by code_simp
      ultimately show ?thesis
        using redis_session_append [OF con(1)] con(3) done_ok(2,3) by (auto simp: acknowledged_def)
    next
      case (broken sent unsent received taken)
      have cl: "close_locked s1 = ([RsShutdown (rc_fd s1), RsClose (rc_fd s1)], s1\<lparr>rc_fd := -1\<rparr>)"
        using con(2) [OF True] by (simp add: close_locked_def)
      obtain acts4 where rec: "execute_attempts n pton (redis_command args) (w1, cas1) (s1\<lparr>rc_fd := -1\<rparr>) =
          Some (result, acts4, wd', s')"
        and acts: "acts = acts1 @ acts2 @ [RsShutdown (rc_fd s1), RsClose (rc_fd s1)] @ acts4"
        using Suc.prems True
        by (cases "execute_attempts n pton (redis_command args) (w1, cas1) (s1\<lparr>rc_fd := -1\<rparr>)")
          (auto simp: wd ec ex broken(1) cl)
      note ih = Suc.IH [OF rec]
      have "redis_session (rc_fd s1) (acts2 @ [RsShutdown (rc_fd s1), RsClose (rc_fd s1)] @ acts4) (rc_fd s')"
        using redis_session.abandoned [OF con(2) [OF True] broken(2,4), of acts4 "rc_fd s'"] ih
        by (simp add: broken(3))
      then have "redis_session (rc_fd s) acts (rc_fd s')" unfolding acts by (rule redis_session_append [OF con(1)])
      then show ?thesis
        using ih con(3) acknowledged_prepend [of args acts4 _ "acts1 @ acts2 @ [RsShutdown (rc_fd s1), RsClose (rc_fd s1)]"]
        by (simp add: acts)
    qed
  qed
qed

section \<open>Recording a message\<close>

lemma execute_session:
  assumes "execute_locked pton (redis_command args) wd s = Some (result, acts, wd', s')"
  shows "redis_session (rc_fd s) acts (rc_fd s')" and "rc_config s' = rc_config s"
    and "result = Some reply \<Longrightarrow> acknowledged args acts reply"
  using execute_attempts_session [of 2 pton args wd s result acts wd' s'] assms
  by (simp_all add: execute_locked_def)

lemmas command_args = set_command_def set_nx_command_def

lemma record_state_session:
  assumes "record_state pton m text wd s = Some (ok, acts, wd', s')"
  shows "redis_session (rc_fd s) acts (rc_fd s') \<and>
    (ok \<longrightarrow> (\<exists>acts1 acts2 reply1 reply2. acts = acts1 @ acts2 \<and>
       acknowledged (set_args (''device:'' @ em_mac_hex m @ '':state'') ''online''
         (rc_device_state_ttl_seconds (rc_config s))) acts1 reply1 \<and>
       acknowledged (set_args (''device:'' @ em_mac_hex m @ '':latest'') text
         (rc_device_latest_ttl_seconds (rc_config s))) acts2 reply2))"
proof -
  let ?a1 = "set_args (''device:'' @ em_mac_hex m @ '':state'') ''online'' (rc_device_state_ttl_seconds (rc_config s))"
  let ?a2 = "set_args (''device:'' @ em_mac_hex m @ '':latest'') text (rc_device_latest_ttl_seconds (rc_config s))"
  obtain res1 acts1 wd1 s1 where e1: "execute_locked pton (redis_command ?a1) wd s = Some (res1, acts1, wd1, s1)"
    using assms by (cases "execute_locked pton (redis_command ?a1) wd s") (auto simp: record_state_def command_args)
  note h1 = execute_session [OF e1]
  show ?thesis
  proof (cases res1)
    case None
    then show ?thesis using assms e1 h1(1) by (auto simp: record_state_def command_args)
  next
    case (Some reply1)
    obtain res2 acts2 where e2: "execute_locked pton (redis_command ?a2) wd1 s1 = Some (res2, acts2, wd', s')"
      and r: "ok = (res2 \<noteq> None)" "acts = acts1 @ acts2"
      using assms Some e1
      by (cases "execute_locked pton (redis_command ?a2) wd1 s1") (auto simp: record_state_def command_args)
    note h2 = execute_session [OF e2]
    have "redis_session (rc_fd s) acts (rc_fd s')" unfolding r(2) by (rule redis_session_append [OF h1(1) h2(1)])
    then show ?thesis using h1(3) [OF Some] h2(3) r by blast
  qed
qed

text \<open>The command that claims a message identifier.\<close>

definition seen_args :: "EdgeDataMessage \<Rightarrow> RedisStateCacheConfig \<Rightarrow> string list" where
  "seen_args m config = set_nx_args (''seen:'' @ em_message_id m) ''1'' (rc_seen_ttl_seconds config)"

lemma record_cases:
  assumes "record_edge_message pton m text wd s = Some (ok, dup, acts, wd', s')"
  obtains (off) "\<not> redis_enabled (rc_config s)" "ok" "\<not> dup" "acts = []" "s' = s"
    | (plain) "redis_enabled (rc_config s)" "em_message_id m = []" "\<not> dup"
        "record_state pton m text wd s = Some (ok, acts, wd', s')"
    | (failed) "redis_enabled (rc_config s)" "em_message_id m \<noteq> []" "\<not> ok" "\<not> dup"
        "execute_locked pton (redis_command (seen_args m (rc_config s))) wd s = Some (None, acts, wd', s')"
    | (seen) reply where "redis_enabled (rc_config s)" "em_message_id m \<noteq> []" "ok" "dup" "rp_nil reply"
        "execute_locked pton (redis_command (seen_args m (rc_config s))) wd s = Some (Some reply, acts, wd', s')"
    | (fresh) reply acts1 wd1 s1 acts2 where "redis_enabled (rc_config s)" "em_message_id m \<noteq> []" "\<not> dup"
        "\<not> rp_nil reply" "acts = acts1 @ acts2"
        "execute_locked pton (redis_command (seen_args m (rc_config s))) wd s = Some (Some reply, acts1, wd1, s1)"
        "record_state pton m text wd1 s1 = Some (ok, acts2, wd', s')"
proof -
  let ?e = "execute_locked pton (redis_command (seen_args m (rc_config s))) wd s"
  note d = record_edge_message_def command_args seen_args_def
  show thesis
  proof (cases "redis_enabled (rc_config s)")
    case False
    show thesis by (rule off) (use assms False in \<open>simp_all add: d\<close>)
  next
    case en: True
    show thesis
    proof (cases "em_message_id m = []")
      case True
      then have "map_option (\<lambda>(ok, rest). (ok, False, rest)) (record_state pton m text wd s) = Some (ok, dup, acts, wd', s')"
        using assms en by (simp add: record_edge_message_def)
      then show thesis using plain [OF en True] by (cases "record_state pton m text wd s") auto
    next
      case False
      obtain res acts1 wd1 s1 where e: "?e = Some (res, acts1, wd1, s1)"
        using assms en False by (cases ?e) (auto simp: d)
      show thesis
      proof (cases res)
        case None
        show thesis by (rule failed) (use assms en False e None in \<open>simp_all add: d\<close>)
      next
        case (Some reply)
        show thesis
        proof (cases "rp_nil reply")
          case True
          show thesis by (rule seen [of reply]) (use assms en False e Some True in \<open>simp_all add: d\<close>)
        next
          case nn: False
          then have "map_option (\<lambda>(ok, acts', rest). (ok, False, acts1 @ acts', rest)) (record_state pton m text wd1 s1) =
              Some (ok, dup, acts, wd', s')"
            using assms en False e Some by (simp add: d)
          then show thesis
            using fresh [OF en False _ nn _ e [unfolded Some]] by (cases "record_state pton m text wd1 s1") auto
        qed
      qed
    qed
  qed
qed

section \<open>A sample exchange\<close>

definition redis_pton :: "string \<Rightarrow> 4 barr option" where
  "redis_pton h = Some (arr_of [127, 0, 0, 1])"

definition redis_config :: RedisStateCacheConfig where
  "redis_config =
     \<lparr>rc_endpoint = \<lparr>ep_host = ''127.0.0.1'', ep_port = 6379\<rparr>, rc_connect_timeout_ms = 1000, rc_io_timeout_ms = 1000,
      rc_device_state_ttl_seconds = 60, rc_device_latest_ttl_seconds = 86400, rc_seen_ttl_seconds = 600\<rparr>"

definition redis_up :: connect_answers where
  "redis_up =
     \<lparr>ca_socket = 9, ca_getfl = 2, ca_setfl = True, ca_connect = Ready True, ca_poll = [], ca_getsockopt = Some 0,
      ca_restore = True\<rparr>"

definition redis_message :: EdgeDataMessage where
  "redis_message =
     \<lparr>em_mac_hex = ''02005e100009'', em_mac_addr = ''02:00:5e:10:00:09'', em_timestamp_ms = 5, em_stream_id = 1,
      em_payload_base64 = ''dD0yMQ=='', em_payload_len = 4, em_origin = ''0a'', em_message_id = ''0b'',
      em_received_at_ms = 7\<rparr>"

text \<open>A command goes out in one piece and a reply comes in.\<close>

definition answered :: "string \<Rightarrow> sys_answers" where
  "answered reply = [Ready True, Sent 500] @ byte_answers (str_bytes (reply @ crlf))"

lemma redis_write_whole:
  assumes "data \<noteq> []" and "length data \<le> n"
  shows "redis_write_all (Ready True # Sent n # w) data = Some (True, data, w)"
  using assms by (cases data) (subst redis_write_all.simps, subst redis_write_all.simps, simp)+

lemma exchange_read:
  assumes "0 \<le> rc_fd s" and "cmd \<noteq> []" and "length cmd \<le> n" and "length r \<le> 100"
    and "resp_reply (str_bytes (r @ crlf)) = Some (reply, [])"
  shows "redis_exchange cmd (Ready True # Sent n # byte_answers (str_bytes (r @ crlf)) @ w) s =
    Some (Some reply, [RsSend (rc_fd s) (str_bytes cmd), RsRecv (rc_fd s) (str_bytes (r @ crlf))], w)"
proof -
  have "redis_write_all (Ready True # Sent n # v) (str_bytes cmd) = Some (True, str_bytes cmd, v)" for v
    using assms(2,3) by (intro redis_write_whole) (simp_all add: str_bytes_def)
  moreover have "read_reply (byte_answers (str_bytes (r @ crlf)) @ w) = Some (Some reply, str_bytes (r @ crlf), w)"
    using assms(4) by (intro read_reply_complete [OF assms(5)]) (simp add: str_bytes_def)
  ultimately show ?thesis
    using assms(1) by (simp add: redis_exchange_def send_command_locked_def read_reply_locked_def)
qed

lemma exchange_answered:
  assumes "0 \<le> rc_fd s" and "cmd \<noteq> []" and "length cmd \<le> 500" and "length r \<le> 100"
    and "resp_reply (str_bytes (r @ crlf)) = Some (reply, [])"
  shows "redis_exchange cmd (answered r @ w) s =
    Some (Some reply, [RsSend (rc_fd s) (str_bytes cmd), RsRecv (rc_fd s) (str_bytes (r @ crlf))], w)"
  using exchange_read [OF assms, of w] by (simp add: answered_def)

lemma redis_up_connects:
  assumes "rc_config s = redis_config" and "rc_fd s < 0"
  shows "ensure_connected redis_pton (redis_up # cas) s = Some (True, [RsConnect 9], cas, s\<lparr>rc_fd := 9\<rparr>)"
proof -
  have "connect_with_timeout redis_pton (rc_endpoint redis_config) redis_up = Some (9, [])" by code_simp
  moreover have "redis_enabled redis_config" by code_simp
  ultimately show ?thesis using assms by (simp add: ensure_connected_def connect_locked_def)
qed

lemma execute_answered:
  assumes "0 \<le> rc_fd s" and "cmd \<noteq> []" and "length cmd \<le> 500" and "length r \<le> 100"
    and "resp_reply (str_bytes (r @ crlf)) = Some (reply, [])" and "rp_type reply \<noteq> 0x2d"
  shows "execute_locked pton cmd (answered r @ w, cas) s =
    Some (Some reply, [RsSend (rc_fd s) (str_bytes cmd), RsRecv (rc_fd s) (str_bytes (r @ crlf))], (w, cas), s)"
  using exchange_answered [OF assms(1-5), of w] assms(1,6)
  by (simp add: execute_locked_def numeral_2_eq_2 ensure_connected_def)

lemma execute_answered_first:
  assumes "rc_config s = redis_config" and "rc_fd s < 0" and "cmd \<noteq> []" and "length cmd \<le> 500" and "length r \<le> 100"
    and "resp_reply (str_bytes (r @ crlf)) = Some (reply, [])" and "rp_type reply \<noteq> 0x2d"
  shows "execute_locked redis_pton cmd (answered r @ w, redis_up # cas) s =
    Some (Some reply, [RsConnect 9, RsSend 9 (str_bytes cmd), RsRecv 9 (str_bytes (r @ crlf))], (w, cas), s\<lparr>rc_fd := 9\<rparr>)"
  using exchange_answered [of "s\<lparr>rc_fd := 9\<rparr>", OF _ assms(3-6), of w] redis_up_connects [OF assms(1,2)] assms(7)
  by (simp add: execute_locked_def numeral_2_eq_2)

lemma sample_replies:
  "resp_reply (str_bytes (''+OK'' @ crlf)) = Some (\<lparr>rp_type = 0x2b, rp_nil = False, rp_text = [79, 75]\<rparr>, [])"
  "resp_reply (str_bytes (''$-1'' @ crlf)) = Some (\<lparr>rp_type = 0x24, rp_nil = True, rp_text = []\<rparr>, [])"
  by code_simp+

definition redis_trace :: "rs_action list" where
  "redis_trace =
     (let ok = RsRecv 9 (str_bytes (''+OK'' @ crlf))
      in [RsConnect 9, RsSend 9 (str_bytes (redis_command (seen_args redis_message redis_config))), ok,
          RsSend 9 (str_bytes (set_command ''device:02005e100009:state'' ''online'' 60)), ok,
          RsSend 9 (str_bytes (set_command ''device:02005e100009:latest'' ''{}'' 86400)), ok])"

lemma sample_record:
  "record_edge_message redis_pton redis_message ''{}'' (answered ''+OK'' @ answered ''+OK'' @ answered ''+OK'', [redis_up])
     (RedisStateCache_init redis_config) =
   Some (True, False, redis_trace, ([], []), (RedisStateCache_init redis_config)\<lparr>rc_fd := 9\<rparr>)"
proof -
  let ?s = "RedisStateCache_init redis_config"
  have c: "rc_config ?s = redis_config" "rc_fd ?s < 0" "redis_enabled redis_config" "em_message_id redis_message \<noteq> []"
    by code_simp+
  have p: "em_mac_hex redis_message = ''02005e100009''"
    "rc_device_state_ttl_seconds redis_config = 60" "rc_device_latest_ttl_seconds redis_config = 86400"
    by code_simp+
  have n: "redis_command as \<noteq> []" for as by (simp add: redis_command_def)
  have l: "length (redis_command (seen_args redis_message redis_config)) \<le> 500"
    "length (set_command ''device:02005e100009:state'' ''online'' 60) \<le> 500"
    "length (set_command ''device:02005e100009:latest'' ''{}'' 86400) \<le> 500"
    by (simp_all add: seen_args_def set_nx_args_def command_args set_args_def redis_command_def bulk_def crlf_def
        to_string.simps redis_message_def redis_config_def)
  have e: "execute_locked redis_pton cmd (answered ''+OK'' @ w, cas) (?s\<lparr>rc_fd := 9\<rparr>) =
      Some (Some \<lparr>rp_type = 0x2b, rp_nil = False, rp_text = [79, 75]\<rparr>,
        [RsSend 9 (str_bytes cmd), RsRecv 9 (str_bytes (''+OK'' @ crlf))], (w, cas), ?s\<lparr>rc_fd := 9\<rparr>)"
    if "cmd \<noteq> []" "length cmd \<le> 500" for cmd w cas
    using execute_answered [of "?s\<lparr>rc_fd := 9\<rparr>" cmd "''+OK''", OF _ that _ sample_replies(1)] by simp
  have st: "record_state redis_pton redis_message ''{}'' (answered ''+OK'' @ answered ''+OK'', []) (?s\<lparr>rc_fd := 9\<rparr>) =
      Some (True, drop 3 redis_trace, ([], []), ?s\<lparr>rc_fd := 9\<rparr>)"
    using e [of "set_command ''device:02005e100009:state'' ''online'' 60" "answered ''+OK''" "[]"]
      e [of "set_command ''device:02005e100009:latest'' ''{}'' 86400" "[]" "[]"] l n
    by (simp add: record_state_def p c(1) redis_trace_def set_command_def Let_def)
  have "execute_locked redis_pton (redis_command (seen_args redis_message redis_config))
      (answered ''+OK'' @ answered ''+OK'' @ answered ''+OK'', [redis_up]) ?s =
      Some (Some \<lparr>rp_type = 0x2b, rp_nil = False, rp_text = [79, 75]\<rparr>, take 3 redis_trace,
        (answered ''+OK'' @ answered ''+OK'', []), ?s\<lparr>rc_fd := 9\<rparr>)"
    using execute_answered_first [OF c(1,2) n l(1) _ sample_replies(1), of "answered ''+OK'' @ answered ''+OK''" "[]"]
    by (simp add: redis_trace_def Let_def)
  then show ?thesis using st c by (simp add: record_edge_message_def set_nx_command_def seen_args_def)
qed

section \<open>Properties\<close>

text \<open>
  C24: Recording a message keeps to the abstract client, whatever the system answers: the cache only
  connects when it has no connection, and on a connection it sends whole commands, each followed by
  exactly one whole reply. When a command or its reply breaks off, the connection is shut down and
  closed before anything else is sent, so a reply is never taken for the reply to another command,
  and no connection is lost.
\<close>

theorem redis_session_refines:
  assumes "record_edge_message pton m text wd s = Some (ok, dup, acts, wd', s')"
  shows "redis_session (rc_fd s) acts (rc_fd s')"
  using assms
proof (cases rule: record_cases)
  case off
  then show ?thesis by (simp add: redis_session.idle)
next
  case plain
  then show ?thesis using record_state_session by blast
next
  case failed
  then show ?thesis using execute_session(1) by blast
next
  case (seen reply)
  then show ?thesis using execute_session(1) by blast
next
  case (fresh reply acts1 wd1 s1 acts2)
  have "redis_session (rc_fd s1) acts2 (rc_fd s')" using record_state_session [OF fresh(7)] by simp
  then show ?thesis using redis_session_append [OF execute_session(1) [OF fresh(6)]] fresh(5) by simp
qed

theorem redis_session_refines_witness: "redis_session (-1) redis_trace 9"
  using redis_session_refines [OF sample_record] by (simp add: RedisStateCache_init_def)



text \<open>
  A command carries its arguments unharmed. A server that reads the bytes of a command by the
  rules of the protocol gets exactly the arguments, whatever characters they contain, and what
  follows the command is untouched; so no message content can forge a command.
\<close>

theorem redis_command_round_trip:
  "resp_command (redis_command args @ rest) = Some (args, rest)"
  using resp_number_to_string [of "CHR ''*''" "length args" "concat (map bulk args) @ rest"]
  by (simp add: resp_command_def redis_command_def resp_bulks_bulks)

text \<open>
  C27: A reply is read as one unit. The bytes taken from the socket for a reply, however they
  arrived, are exactly one reply of the protocol, and it is the reply returned: nothing of what
  follows is consumed. In the other direction every reply of at most a megabyte whose bytes arrive
  is read in full.
\<close>

theorem redis_reply_exact:
  "(read_reply w = Some (Some reply, taken, w') \<longrightarrow> resp_reply (taken @ rest) = Some (reply, rest)) \<and>
   (resp_reply wire = Some (reply, []) \<and> length wire \<le> 1024 * 1024 \<longrightarrow>
      read_reply (byte_answers wire @ w') = Some (Some reply, wire, w'))"
  using read_reply_sound read_reply_complete by blast

theorem redis_reply_exact_witness:
  "read_reply (byte_answers (str_bytes (''$5'' @ crlf @ ''hello'' @ crlf)) @ [Failed]) =
     Some (Some \<lparr>rp_type = 0x24, rp_nil = False, rp_text = []\<rparr>, str_bytes (''$5'' @ crlf @ ''hello'' @ crlf), [Failed]) \<and>
   resp_reply (str_bytes (''$5'' @ crlf @ ''hello'' @ crlf) @ [7]) =
     Some (\<lparr>rp_type = 0x24, rp_nil = False, rp_text = []\<rparr>, [7])"
proof -
  have "resp_reply (str_bytes (''$5'' @ crlf @ ''hello'' @ crlf)) = Some (\<lparr>rp_type = 0x24, rp_nil = False, rp_text = []\<rparr>, [])"
    "length (str_bytes (''$5'' @ crlf @ ''hello'' @ crlf)) = 11"
    by code_simp+
  then show ?thesis
    using redis_reply_exact [of "byte_answers (str_bytes (''$5'' @ crlf @ ''hello'' @ crlf)) @ [Failed]"
        "\<lparr>rp_type = 0x24, rp_nil = False, rp_text = []\<rparr>" "str_bytes (''$5'' @ crlf @ ''hello'' @ crlf)" "[Failed]" "[7]"
        "str_bytes (''$5'' @ crlf @ ''hello'' @ crlf)"]
    by simp
qed

end
