(* ===== verification/Kafka.thy ===== *)
theory Kafka
  imports CString
begin

text \<open>
  The two clients of Kafka (\<open>iota_proxy/src/business/KafkaSink.cpp\<close> and
  \<open>KafkaBroadcastSource.cpp\<close>). The library behind them is its answers: whether a setting is
  accepted, whether a handle is created, the error code of a call, the result of a poll. Logging,
  with the delivery report that only logs, is left out.
\<close>

datatype kafka_err = NoError | QueueFull | PartitionEof | KafkaTimedOut | KafkaIntr | OtherError

datatype kf_action =
    KfConf string string
  | KfConfDestroy
  | KfNew
  | KfProduce string string string
  | KfPoll nat
  | KfFlush u32
  | KfDestroy
  | KfSubscribe string
  | KfCommit nat nat
  | KfConsumerClose
  | KfSubscriptionDestroy

section \<open>Producing\<close>

record KafkaSinkConfig =
  ks_brokers :: string
  ks_topic :: string
  ks_client_id :: string
  ks_acks :: string
  ks_message_timeout_ms :: u32
  ks_flush_timeout_ms :: u32

definition kafka_enabled :: "KafkaSinkConfig \<Rightarrow> bool" where
  "kafka_enabled config \<longleftrightarrow> ks_brokers config \<noteq> [] \<and> ks_topic config \<noteq> []"

record KafkaSink =
  ks_config :: KafkaSinkConfig
  ks_producer :: bool

definition KafkaSink_init :: "KafkaSinkConfig \<Rightarrow> KafkaSink" where
  "KafkaSink_init config = \<lparr>ks_config = config, ks_producer = False\<rparr>"

text \<open>The settings one after the other, until one is refused; an empty value is skipped.\<close>

fun set_confs :: "(string \<Rightarrow> string \<Rightarrow> bool) \<Rightarrow> (string \<times> string) list \<Rightarrow> bool \<times> kf_action list" where
  "set_confs conf_ok [] = (True, [])"
| "set_confs conf_ok ((name, value) # settings) =
     (if value = [] then set_confs conf_ok settings
      else if conf_ok name value
      then (let (ok, acts) = set_confs conf_ok settings in (ok, KfConf name value # acts))
      else (False, [KfConf name value]))"

definition sink_settings :: "KafkaSinkConfig \<Rightarrow> (string \<times> string) list" where
  "sink_settings config =
     [(''bootstrap.servers'', ks_brokers config), (''client.id'', ks_client_id config),
      (''request.required.acks'', ks_acks config),
      (''message.timeout.ms'', to_string (unat (ks_message_timeout_ms config)))]"

definition ensure_started_locked ::
  "(string \<Rightarrow> string \<Rightarrow> bool) \<Rightarrow> bool \<Rightarrow> KafkaSink \<Rightarrow> bool \<times> kf_action list \<times> KafkaSink" where
  "ensure_started_locked conf_ok new_ok s =
     (if ks_producer s then (True, [], s)
      else
        let (ok, acts) = set_confs conf_ok (sink_settings (ks_config s))
        in if \<not> ok then (False, acts @ [KfConfDestroy], s)
           else if \<not> new_ok then (False, acts @ [KfNew, KfConfDestroy], s)
           else (True, acts @ [KfNew], s\<lparr>ks_producer := True\<rparr>))"

text \<open>\<open>err\<close> and \<open>err'\<close> are the answers to the first and the second attempt.\<close>

definition ks_produce ::
  "(string \<Rightarrow> string \<Rightarrow> bool) \<Rightarrow> bool \<Rightarrow> kafka_err \<Rightarrow> kafka_err \<Rightarrow> string \<Rightarrow> string \<Rightarrow> KafkaSink \<Rightarrow>
   bool \<times> kf_action list \<times> KafkaSink" where
  "ks_produce conf_ok new_ok err err' key value s =
     (if \<not> kafka_enabled (ks_config s) then (True, [], s)
      else
        let (ok, acts, s') = ensure_started_locked conf_ok new_ok s;
            produce = KfProduce (ks_topic (ks_config s)) key value
        in if \<not> ok then (False, acts, s')
           else if err = QueueFull
           then (err' = NoError, acts @ [produce, KfPoll 100, produce, KfPoll 0], s')
           else (err = NoError, acts @ [produce, KfPoll 0], s'))"

definition ks_stop :: "KafkaSink \<Rightarrow> kf_action list \<times> KafkaSink" where
  "ks_stop s =
     (if \<not> ks_producer s then ([], s)
      else ([KfFlush (ks_flush_timeout_ms (ks_config s)), KfDestroy], s\<lparr>ks_producer := False\<rparr>))"

section \<open>Consuming\<close>

record KafkaBroadcastSourceConfig =
  kb_enabled :: bool
  kb_brokers :: string
  kb_topic :: string
  kb_group_id :: string
  kb_client_id :: string
  kb_auto_offset_reset :: string
  kb_poll_timeout_ms :: u32

record KafkaBroadcastSource =
  kb_config :: KafkaBroadcastSourceConfig
  kb_sender :: bool
  kb_consumer :: bool
  kb_subscription :: bool
  kb_worker :: bool
  kb_running :: bool

definition KafkaBroadcastSource_init :: "KafkaBroadcastSourceConfig \<Rightarrow> KafkaBroadcastSource" where
  "KafkaBroadcastSource_init config =
     \<lparr>kb_config = config, kb_sender = False, kb_consumer = False, kb_subscription = False, kb_worker = False,
      kb_running = False\<rparr>"

definition kb_set_sender :: "KafkaBroadcastSource \<Rightarrow> KafkaBroadcastSource" where
  "kb_set_sender s = s\<lparr>kb_sender := True\<rparr>"

definition close_consumer :: "KafkaBroadcastSource \<Rightarrow> kf_action list \<times> KafkaBroadcastSource" where
  "close_consumer s =
     ((if kb_consumer s then [KfConsumerClose] else []) @
      (if kb_subscription s then [KfSubscriptionDestroy] else []) @
      (if kb_consumer s then [KfDestroy] else []),
      s\<lparr>kb_subscription := False, kb_consumer := False\<rparr>)"

definition source_settings :: "KafkaBroadcastSourceConfig \<Rightarrow> (string \<times> string) list" where
  "source_settings config =
     [(''bootstrap.servers'', kb_brokers config), (''group.id'', kb_group_id config),
      (''client.id'', kb_client_id config), (''enable.auto.commit'', ''false''),
      (''auto.offset.reset'', kb_auto_offset_reset config)]"

text \<open>\<open>set_conf\<close> of the consumer hands over empty values as well.\<close>

fun set_all_confs :: "(string \<Rightarrow> string \<Rightarrow> bool) \<Rightarrow> (string \<times> string) list \<Rightarrow> bool \<times> kf_action list" where
  "set_all_confs conf_ok [] = (True, [])"
| "set_all_confs conf_ok ((name, value) # settings) =
     (if conf_ok name value
      then (let (ok, acts) = set_all_confs conf_ok settings in (ok, KfConf name value # acts))
      else (False, [KfConf name value]))"

definition create_consumer ::
  "(string \<Rightarrow> string \<Rightarrow> bool) \<Rightarrow> bool \<Rightarrow> bool \<Rightarrow> KafkaBroadcastSource \<Rightarrow>
   bool \<times> kf_action list \<times> KafkaBroadcastSource" where
  "create_consumer conf_ok new_ok subscribe_ok s =
     (let (ok, acts) = set_all_confs conf_ok (source_settings (kb_config s))
      in if \<not> ok then (False, acts @ [KfConfDestroy], s)
         else if \<not> new_ok then (False, acts @ [KfNew, KfConfDestroy], s\<lparr>kb_consumer := False\<rparr>)
         else
           let s' = s\<lparr>kb_consumer := True, kb_subscription := True\<rparr>;
               acts' = acts @ [KfNew, KfSubscribe (kb_topic (kb_config s))]
           in if \<not> subscribe_ok
              then (let (cls, s'') = close_consumer s' in (False, acts' @ cls, s''))
              else (True, acts', s'))"

definition kb_start ::
  "(string \<Rightarrow> string \<Rightarrow> bool) \<Rightarrow> bool \<Rightarrow> bool \<Rightarrow> KafkaBroadcastSource \<Rightarrow>
   bool \<times> kf_action list \<times> KafkaBroadcastSource" where
  "kb_start conf_ok new_ok subscribe_ok s =
     (if \<not> kb_enabled (kb_config s) then (True, [], s)
      else if kb_running s then (True, [], s)
      else if kb_brokers (kb_config s) = [] \<or> kb_topic (kb_config s) = [] \<or> \<not> kb_sender s then (False, [], s)
      else
        let (ok, acts, s') = create_consumer conf_ok new_ok subscribe_ok s
        in if \<not> ok then (False, acts, s')
           else (True, acts, s'\<lparr>kb_running := True, kb_worker := True\<rparr>))"

text \<open>\<open>stop\<close> joins the worker, whose loop ends at its next test of the flag, and closes the consumer.\<close>

definition kb_stop :: "KafkaBroadcastSource \<Rightarrow> kf_action list \<times> KafkaBroadcastSource" where
  "kb_stop s = close_consumer (s\<lparr>kb_running := False, kb_worker := False\<rparr>)"

text \<open>A message as \<open>poll\<close> returns it.\<close>

record kafka_message =
  km_err :: kafka_err
  km_partition :: nat
  km_offset :: nat
  km_payload :: bytes

text \<open>
  What an iteration of the worker does with the answer of \<open>poll\<close>: the sender is called on its own
  state, and a message is committed when it was processed. The result of the commit is only logged.
\<close>

definition kb_iteration ::
  "(bytes \<Rightarrow> 's \<Rightarrow> nat \<times> 's) \<Rightarrow> kafka_message option \<Rightarrow> 's \<Rightarrow> kf_action list \<times> 's" where
  "kb_iteration sender polled st =
     (case polled of
        None \<Rightarrow> ([], st)
      | Some message \<Rightarrow>
          if km_err message \<noteq> NoError then ([], st)
          else
            let (processed, st') =
                  (if km_payload message \<noteq> []
                   then (let (n, st') = sender (km_payload message) st in (n \<noteq> 0, st'))
                   else (True, st))
            in if \<not> processed then ([], st')
               else ([KfCommit (km_partition message) (km_offset message)], st'))"

text \<open>The loop, over the answers of \<open>poll\<close> until \<open>running\<close> is found false.\<close>

fun kb_run :: "(bytes \<Rightarrow> 's \<Rightarrow> nat \<times> 's) \<Rightarrow> kafka_message option list \<Rightarrow> 's \<Rightarrow> kf_action list \<times> 's" where
  "kb_run sender [] st = ([], st)"
| "kb_run sender (polled # polls) st =
     (let (acts, st') = kb_iteration sender polled st; (acts', st'') = kb_run sender polls st'
      in (acts @ acts', st''))"

end
