(* ===== verification/Pipeline.thy ===== *)
theory Pipeline
  imports RedisClaims Kafka
begin

text \<open>
  The edge data pipeline (\<open>iota_proxy/src/business/EdgeDataPipeline.cpp\<close>): the Redis cache and the
  Kafka sink behind one interface.
\<close>

record EdgeDataPipelineConfig =
  ep_redis :: RedisStateCacheConfig
  ep_kafka :: KafkaSinkConfig

record EdgeDataPipeline =
  ed_config :: EdgeDataPipelineConfig
  ed_redis :: RedisStateCache
  ed_kafka :: KafkaSink

definition EdgeDataPipeline_init :: "EdgeDataPipelineConfig \<Rightarrow> EdgeDataPipeline" where
  "EdgeDataPipeline_init config =
     \<lparr>ed_config = config, ed_redis = RedisStateCache_init (ep_redis config), ed_kafka = KafkaSink_init (ep_kafka config)\<rparr>"

datatype ed_action = EdRedis rs_action | EdKafka kf_action

text \<open>The answers of Kafka to one attempt to produce.\<close>

record kafka_answers =
  ka_conf_ok :: "string \<Rightarrow> string \<Rightarrow> bool"
  ka_new_ok :: bool
  ka_err :: kafka_err
  ka_err2 :: kafka_err

definition write_edge_data ::
  "'j json_lib \<Rightarrow> (string \<Rightarrow> 4 barr option) \<Rightarrow> kafka_answers \<Rightarrow> int \<Rightarrow> u64 \<Rightarrow> bytes \<Rightarrow> BroadcastMetadata \<Rightarrow>
   redis_world \<Rightarrow> EdgeDataPipeline \<Rightarrow> (bool \<times> ed_action list \<times> redis_world \<times> EdgeDataPipeline) option" where
  "write_edge_data J pton ka now_ms stream_id payload metadata wd s =
     (if payload = [] then Some (True, [], wd, s)
      else case make_edge_data_message now_ms stream_id payload metadata of
             None \<Rightarrow> Some (False, [], wd, s)
           | Some message \<Rightarrow>
               let serialized = serialize_edge_data_message_json J message
               in case record_edge_message pton message serialized wd (ed_redis s) of
                    None \<Rightarrow> None
                  | Some (_, duplicate, acts, wd', redis) \<Rightarrow>
                      let s' = s\<lparr>ed_redis := redis\<rparr>
                      in if duplicate then Some (True, map EdRedis acts, wd', s')
                         else
                           let (ok, acts', kafka) =
                                 ks_produce (ka_conf_ok ka) (ka_new_ok ka) (ka_err ka) (ka_err2 ka)
                                   (em_mac_hex message) serialized (ed_kafka s)
                           in Some (ok, map EdRedis acts @ map EdKafka acts', wd', s'\<lparr>ed_kafka := kafka\<rparr>))"

text \<open>The result, \<open>*duplicate\<close>, and what Redis was told.\<close>

definition record_kafka_message ::
  "'j json_lib \<Rightarrow> (string \<Rightarrow> 4 barr option) \<Rightarrow> int \<Rightarrow> bytes \<Rightarrow> BroadcastMetadata \<Rightarrow>
   redis_world \<Rightarrow> EdgeDataPipeline \<Rightarrow> (bool \<times> bool \<times> rs_action list \<times> redis_world \<times> EdgeDataPipeline) option" where
  "record_kafka_message J pton now_ms payload metadata wd s =
     (if payload = [] then Some (True, False, [], wd, s)
      else case parse_edge_kafka_message_json J now_ms (bytes_str payload) metadata of
             None \<Rightarrow> Some (False, False, [], wd, s)
           | Some message \<Rightarrow>
               (case record_edge_message pton message (bytes_str payload) wd (ed_redis s) of
                  None \<Rightarrow> None
                | Some (ok, duplicate, acts, wd', redis) \<Rightarrow>
                    Some (ok, duplicate, acts, wd', s\<lparr>ed_redis := redis\<rparr>)))"

definition ed_stop :: "EdgeDataPipeline \<Rightarrow> ed_action list \<times> EdgeDataPipeline" where
  "ed_stop s =
     (let (acts, kafka) = ks_stop (ed_kafka s); (acts', redis) = redis_stop (ed_redis s)
      in (map EdKafka acts @ map EdRedis acts', s\<lparr>ed_kafka := kafka, ed_redis := redis\<rparr>))"

section \<open>What reaches Kafka\<close>

text \<open>The records handed to the producer.\<close>

fun produced :: "ed_action list \<Rightarrow> (string \<times> string \<times> string) list" where
  "produced [] = []"
| "produced (EdKafka (KfProduce topic key val) # acts) = (topic, key, val) # produced acts"
| "produced (_ # acts) = produced acts"

lemma produced_append [simp]: "produced (xs @ ys) = produced xs @ produced ys"
  by (induction xs rule: produced.induct) simp_all

lemma produced_redis [simp]: "produced (map EdRedis acts) = []"
  by (induction acts) simp_all

lemma produced_confs: "produced (map EdKafka (snd (set_confs conf_ok settings))) = []"
  by (induction conf_ok settings rule: set_confs.induct) (auto split: prod.splits)

lemma produced_started:
  assumes "ensure_started_locked conf_ok new_ok s = (ok, acts, s')"
  shows "produced (map EdKafka acts) = []" and "ok = ks_producer s'" and "ks_config s' = ks_config s"
proof -
  obtain b as where "set_confs conf_ok (sink_settings (ks_config s)) = (b, as)" by (cases "set_confs conf_ok (sink_settings (ks_config s))")
  moreover from this have "produced (map EdKafka as) = []" using produced_confs [of conf_ok "sink_settings (ks_config s)"] by simp
  ultimately show "produced (map EdKafka acts) = []" "ok = ks_producer s'" "ks_config s' = ks_config s"
    using assms by (auto simp: ensure_started_locked_def split: if_splits)
qed

lemma ks_produce_result:
  assumes "ks_produce conf_ok new_ok err err' key val s = (ok, acts, s')"
  shows "if kafka_enabled (ks_config s)
    then (ok \<longrightarrow> ks_producer s' \<and> (produced (map EdKafka acts) = [(ks_topic (ks_config s), key, val)] \<and> err = NoError \<or>
        produced (map EdKafka acts) = replicate 2 (ks_topic (ks_config s), key, val) \<and> err = QueueFull \<and> err' = NoError)) \<and>
      set (produced (map EdKafka acts)) \<subseteq> {(ks_topic (ks_config s), key, val)}
    else ok \<and> acts = [] \<and> s' = s"
proof -
  obtain ok1 acts1 s1 where e: "ensure_started_locked conf_ok new_ok s = (ok1, acts1, s1)"
    by (cases "ensure_started_locked conf_ok new_ok s")
  show ?thesis
    using assms produced_started [OF e]
    by (auto simp: ks_produce_def e Let_def numeral_2_eq_2 split: if_splits)
qed

end
