(* ===== verification/EdgeMessageProps.thy ===== *)
theory EdgeMessageProps
  imports EdgeMessage
begin

text \<open>
  Edge messages keep their data: the base64 text decodes to the payload, and a message read back
  from its JSON text is the message that was written.
\<close>

section \<open>A reference decoder for base64\<close>

definition b64_value :: "char \<Rightarrow> nat" where
  "b64_value c = length (takeWhile (\<lambda>x. x \<noteq> c) kAlphabet)"

definition b64_bytes :: "nat \<Rightarrow> bytes" where
  "b64_bytes v = [of_nat (v div 65536), of_nat (v div 256), of_nat v]"

fun base64_decode :: "string \<Rightarrow> bytes option" where
  "base64_decode [] = Some []"
| "base64_decode (a # b # c # d # rest) =
     (let v = b64_value a * 262144 + b64_value b * 4096
      in if c = CHR ''='' then Some (take 1 (b64_bytes v))
         else if d = CHR ''='' then Some (take 2 (b64_bytes (v + b64_value c * 64)))
         else map_option ((@) (b64_bytes (v + b64_value c * 64 + b64_value d))) (base64_decode rest))"
| "base64_decode _ = None"

lemma b64_value_alphabet: "n < 64 \<Longrightarrow> b64_value (kAlphabet ! n) = n \<and> kAlphabet ! n \<noteq> CHR ''='' \<and> code (kAlphabet ! n) < 128"
proof -
  have "list_all (\<lambda>n. b64_value (kAlphabet ! n) = n \<and> kAlphabet ! n \<noteq> CHR ''='' \<and> code (kAlphabet ! n) < 128) [0..<64]"
    by code_simp
  then show "n < 64 \<Longrightarrow> ?thesis" by (simp add: list_all_iff)
qed

lemma unat_sextet: "unat (drop_bit s c AND 0x3f :: u32) = unat c div 2 ^ s mod 64"
proof -
  have "(0x3f :: u32) = mask 6" by (simp add: mask_eq_exp_minus_1)
  then have "unat (drop_bit s c AND 0x3f) = take_bit 6 (drop_bit s (unat c))"
    by (simp only: take_bit_eq_mask [symmetric] unsigned_take_bit_eq unat_drop_bit_eq)
  also have "\<dots> = unat c div 2 ^ s mod 64" by (simp add: take_bit_eq_mod drop_bit_eq_div)
  finally show ?thesis .
qed

lemma b64_char_value:
  "b64_value (b64_char s c) = unat c div 2 ^ s mod 64" "b64_char s c \<noteq> CHR ''=''" "code (b64_char s c) < 128"
  using b64_value_alphabet [of "unat c div 2 ^ s mod 64"] by (simp_all add: b64_char_def unat_sextet)

lemma or_shift_nat:
  fixes x y :: nat
  assumes "y < 2 ^ n"
  shows "push_bit n x OR y = x * 2 ^ n + y"
proof -
  have t: "take_bit n y = y" using assms by (simp add: take_bit_nat_eq_self_iff)
  have "\<not> bit (push_bit n x) k \<or> \<not> bit y k" for k
    by (subst t [symmetric]) (auto simp: bit_push_bit_iff bit_take_bit_iff)
  from disjunctive_add [OF this] show ?thesis by (simp add: push_bit_eq_mult)
qed

lemma unat_or_shift:
  fixes a b :: u32
  assumes "unat a * 2 ^ n < 2 ^ 32" and "unat b < 2 ^ n"
  shows "unat (push_bit n a OR b) = unat a * 2 ^ n + unat b"
proof -
  have "unat (push_bit n a) = push_bit n (unat a)"
    using assms(1) by (simp only: unsigned_push_bit_eq) (simp add: take_bit_nat_eq_self_iff push_bit_eq_mult)
  then show ?thesis using or_shift_nat [OF assms(2), of "unat a"] by (simp only: unsigned_or_eq)
qed

lemma unat_byte: "unat (ucast (b :: byte) :: u32) = unat b" "unat (b :: byte) < 256"
  using unsigned_less [of b, where 'a = nat] by (simp_all add: unsigned_ucast_eq take_bit_nat_eq_self_iff)

lemma unat_chunk3: "unat (b64_chunk (b0 # b1 # b2 # rest)) = unat b0 * 65536 + unat b1 * 256 + unat b2"
proof -
  have inner: "unat (push_bit 8 (ucast b1) OR ucast b2 :: u32) = unat b1 * 256 + unat b2"
    using unat_or_shift [of "ucast b1" 8 "ucast b2"] unat_byte(2) [of b1] unat_byte(2) [of b2]
    by (simp add: unat_byte)
  show ?thesis
    using unat_or_shift [of "ucast b0" 16 "push_bit 8 (ucast b1) OR ucast b2"] unat_byte(2) [of b0]
      unat_byte(2) [of b1] unat_byte(2) [of b2]
    by (simp add: b64_chunk_def inner unat_byte)
qed

lemma unat_chunk_short:
  "unat (b64_chunk [b0]) = unat b0 * 65536" "unat (b64_chunk [b0, b1]) = unat b0 * 65536 + unat b1 * 256"
  using unat_chunk3 [of b0 0 0 "[]"] unat_chunk3 [of b0 b1 0 "[]"] by (simp_all add: b64_chunk_def)

lemma digits_join: "(((a :: nat) * 64 + b) * 64 + c) * 64 + d = a * 262144 + b * 4096 + c * 64 + d"
  by (simp add: distrib_right)

lemma sextets_join:
  fixes v :: nat
  assumes "v < 16777216"
  shows "v div 262144 mod 64 * 262144 + v div 4096 mod 64 * 4096 + v div 64 mod 64 * 64 + v mod 64 = v"
proof -
  have "v div 262144 < 64" using assms by (simp add: div_less_iff_less_mult)
  then have m: "v div 262144 mod 64 = v div 262144" by (rule mod_less)
  have d: "v div 4096 = v div 64 div 64" "v div 262144 = v div 64 div 64 div 64"
    by (simp_all add: div_mult2_eq [symmetric])
  show ?thesis unfolding m unfolding d unfolding digits_join [symmetric] div_mult_mod_eq ..
qed

lemma b64_bytes_join:
  "b64_bytes (unat b0 * 65536 + unat b1 * 256 + unat b2) = [b0, b1, b2]"
proof -
  have "(256 :: byte) = 0" by simp
  then have z: "(of_nat (x * 256 + y) :: byte) = of_nat y" for x y
    by (simp only: of_nat_add of_nat_mult of_nat_numeral mult_zero_right add_0_left)
  have eq: "unat b0 * 65536 + unat b1 * 256 + unat b2 = (unat b0 * 256 + unat b1) * 256 + unat b2" by simp
  have "(of_nat (unat b0 * 65536 + unat b1 * 256 + unat b2) :: byte) = of_nat (unat b2)" unfolding eq by (rule z)
  moreover have "(unat b0 * 65536 + unat b1 * 256 + unat b2) div 65536 = unat b0"
    "(unat b0 * 65536 + unat b1 * 256 + unat b2) div 256 = unat b0 * 256 + unat b1"
    using unat_byte(2) [of b1] unat_byte(2) [of b2] by auto
  ultimately show ?thesis by (simp add: b64_bytes_def z del: of_nat_add)
qed

lemma base64_encode_Nil [simp]: "base64_encode [] = []"
  by (simp add: base64_encode.simps)

lemma base64_encode_steps:
  "base64_encode [b0] = [b64_char 18 (b64_chunk [b0]), b64_char 12 (b64_chunk [b0]), CHR ''='', CHR ''='']"
  "base64_encode [b0, b1] = [b64_char 18 (b64_chunk [b0, b1]), b64_char 12 (b64_chunk [b0, b1]),
     b64_char 6 (b64_chunk [b0, b1]), CHR ''='']"
  "base64_encode (b0 # b1 # b2 # rest) =
     (let c = b64_chunk (b0 # b1 # b2 # rest)
      in b64_char 18 c # b64_char 12 c # b64_char 6 c # b64_char 0 c # base64_encode rest)"
  by (subst base64_encode.simps; simp add: Let_def)+

lemma decode_quad:
  assumes "unat c < 16777216"
  shows "base64_decode (b64_char 18 c # b64_char 12 c # b64_char 6 c # b64_char 0 c # rest) =
    map_option ((@) (b64_bytes (unat c))) (base64_decode rest)"
    and "unat c mod 64 = 0 \<Longrightarrow>
      base64_decode [b64_char 18 c, b64_char 12 c, b64_char 6 c, CHR ''=''] = Some (take 2 (b64_bytes (unat c)))"
    and "unat c mod 4096 = 0 \<Longrightarrow>
      base64_decode [b64_char 18 c, b64_char 12 c, CHR ''='', CHR ''=''] = Some (take 1 (b64_bytes (unat c)))"
proof -
  note j = sextets_join [OF assms]
  have v: "b64_value (b64_char 18 c) = unat c div 262144 mod 64" "b64_value (b64_char 12 c) = unat c div 4096 mod 64"
    "b64_value (b64_char 6 c) = unat c div 64 mod 64" "b64_value (b64_char 0 c) = unat c mod 64"
    using b64_char_value(1) [of 18 c] b64_char_value(1) [of 12 c] b64_char_value(1) [of 6 c] b64_char_value(1) [of 0 c]
    by simp_all
  show "base64_decode (b64_char 18 c # b64_char 12 c # b64_char 6 c # b64_char 0 c # rest) =
    map_option ((@) (b64_bytes (unat c))) (base64_decode rest)"
    by (simp only: base64_decode.simps Let_def v j b64_char_value(2) if_False)
  show "base64_decode [b64_char 18 c, b64_char 12 c, b64_char 6 c, CHR ''=''] = Some (take 2 (b64_bytes (unat c)))"
    if z: "unat c mod 64 = 0"
  proof -
    have "unat c div 262144 mod 64 * 262144 + unat c div 4096 mod 64 * 4096 + unat c div 64 mod 64 * 64 = unat c"
      using j unfolding z by (simp only: add_0_right)
    then show ?thesis by (simp only: base64_decode.simps Let_def v b64_char_value(2) if_False if_True simp_thms)
  qed
  show "base64_decode [b64_char 18 c, b64_char 12 c, CHR ''='', CHR ''=''] = Some (take 1 (b64_bytes (unat c)))"
    if z: "unat c mod 4096 = 0"
  proof -
    have "unat c mod 64 = 0" using z mod_mod_cancel [of 64 4096 "unat c"] by simp
    moreover have "unat c div 64 mod 64 = 0" using z mod_mult2_eq [of "unat c" 64 64] by simp
    ultimately have "unat c div 262144 mod 64 * 262144 + unat c div 4096 mod 64 * 4096 = unat c"
      using j by (simp only: add_0_right mult_zero_left)
    then show ?thesis by (simp only: base64_decode.simps Let_def v if_True simp_thms)
  qed
qed

text \<open>The base64 text of any bytes decodes to them.\<close>

lemma base64_decode_encode: "base64_decode (base64_encode data) = Some data"
proof (induction data rule: base64_encode.induct)
  case (1 data)
  have small: "unat b0 * 65536 + unat b1 * 256 + unat b2 < 16777216" for b0 b1 b2 :: byte
    using unat_byte(2) [of b0] unat_byte(2) [of b1] unat_byte(2) [of b2] by simp
  show ?case
  proof (cases "length data < 3")
    case True
    then consider "data = []" | (one) b0 where "data = [b0]" | (two) b0 b1 where "data = [b0, b1]"
      by (cases data rule: remdups_adj.cases) auto
    then show ?thesis
    proof cases
      case (one b0)
      show ?thesis unfolding one base64_encode_steps
        by (subst decode_quad(3)) (use small [of b0 0 0] b64_bytes_join [of b0 0 0] in \<open>auto simp: unat_chunk_short\<close>)
    next
      case (two b0 b1)
      show ?thesis unfolding two base64_encode_steps
        by (subst decode_quad(2)) (use small [of b0 b1 0] b64_bytes_join [of b0 b1 0] in \<open>auto simp: unat_chunk_short\<close>)
    qed simp
  next
    case False
    then obtain b0 b1 b2 rest where three: "data = b0 # b1 # b2 # rest"
      by (auto simp: not_less numeral_3_eq_3 Suc_le_length_iff)
    then have "base64_decode (base64_encode rest) = Some rest" using 1 by simp
    then show ?thesis unfolding three base64_encode_steps Let_def
      by (subst decode_quad(1)) (use small [of b0 b1 b2] b64_bytes_join [of b0 b1 b2] in \<open>auto simp: unat_chunk3\<close>)
  qed
qed

section \<open>The text of a MAC address\<close>

lemma hex_digit_text:
  "n < 16 \<Longrightarrow> isxdigit (hex_digits ! n) \<and> tolower (hex_digits ! n) = hex_digits ! n \<and> \<not> isspace (hex_digits ! n) \<and>
     hex_digits ! n \<noteq> CHR '':'' \<and> hex_digits ! n \<noteq> CHR ''-'' \<and> code (hex_digits ! n) < 128"
proof -
  have "list_all (\<lambda>n. isxdigit (hex_digits ! n) \<and> tolower (hex_digits ! n) = hex_digits ! n \<and> \<not> isspace (hex_digits ! n) \<and>
     hex_digits ! n \<noteq> CHR '':'' \<and> hex_digits ! n \<noteq> CHR ''-'' \<and> code (hex_digits ! n) < 128) [0..<16]"
    by code_simp
  then show "n < 16 \<Longrightarrow> ?thesis" by (simp add: list_all_iff)
qed

lemma hex_text:
  assumes "c \<in> set (concat (map hex_byte bs))"
  shows "isxdigit c" "tolower c = c" "\<not> isspace c" "c \<noteq> CHR '':''" "c \<noteq> CHR ''-''" "code c < 128"
proof -
  obtain n where "n < 16" and "c = hex_digits ! n"
    using assms unat_nibble_less by (auto simp: hex_byte_def)
  then show "isxdigit c" "tolower c = c" "\<not> isspace c" "c \<noteq> CHR '':''" "c \<noteq> CHR ''-''" "code c < 128"
    using hex_digit_text [of n] by simp_all
qed

lemma ascii_hex: "ascii (concat (map hex_byte bs))"
  using hex_text(6) by (auto simp: ascii_def simp del: set_concat)

lemma compact_mac_hex_id: "compact_mac_hex (edge_mac_to_hex mac) = edge_mac_to_hex mac"
proof -
  let ?t = "edge_mac_to_hex mac"
  have t: "c \<in> set ?t \<Longrightarrow> isxdigit c \<and> tolower c = c \<and> \<not> isspace c \<and> c \<noteq> CHR '':'' \<and> c \<noteq> CHR ''-''" for c
    using hex_text [of c "arr_bytes mac"] unfolding edge_mac_to_hex_def by simp
  have "filter (\<lambda>ch. \<not> (ch = CHR '':'' \<or> ch = CHR ''-'' \<or> isspace ch)) ?t = ?t"
    using t by (intro filter_True) blast
  moreover have "map tolower ?t = ?t" using t by (intro map_idI) blast
  moreover have "length ?t = 12" by (simp add: edge_mac_to_hex_def length_hex_bytes)
  moreover have "\<not> (\<exists>c \<in> set ?t. \<not> isxdigit c)" using t by blast
  ultimately show ?thesis by (simp only: compact_mac_hex_def Let_def) simp
qed

lemma edge_mac_to_hex_not_Nil: "edge_mac_to_hex mac \<noteq> []"
proof -
  have "length (edge_mac_to_hex mac) = 12" by (simp add: edge_mac_to_hex_def length_hex_bytes)
  then show ?thesis by auto
qed

lemma mac_pairs_set: "set (mac_pairs s) \<subseteq> insert (CHR '':'') (set s)"
  by (induction s rule: mac_pairs.induct) auto

lemma ascii_mac_addr: "ascii s \<Longrightarrow> ascii (mac_hex_to_addr s)"
  using mac_pairs_set [of s] set_drop_subset [of 1 "mac_pairs s"]
  by (auto simp: ascii_def mac_hex_to_addr_def code_def)

lemma ascii_base64: "ascii (base64_encode data)"
proof (induction data rule: base64_encode.induct)
  case (1 data)
  then show ?case
    by (subst base64_encode.simps) (auto simp: ascii_def Let_def b64_char_value(3) [unfolded code_def] code_def)
qed

lemma ascii_convid: "ascii (convid_to_hex c)"
  by (simp add: convid_to_hex_eq hex_256_def ascii_hex)

lemma ascii_Nil [simp]: "ascii []"
  by (simp add: ascii_def)

section \<open>Messages as JSON text\<close>

lemma edge_fields_clean:
  assumes "json_laws J" and "ascii (em_mac_hex m)" and "ascii (em_mac_addr m)" and "ascii (em_payload_base64 m)"
    and "ascii (em_origin m)" and "ascii (em_message_id m)"
  shows "\<forall>(k, v) \<in> set (edge_message_fields J m). ascii k \<and> js_clean J v"
  using json_clean [OF assms(1)] assms(2-6) by (simp add: edge_message_fields_def ascii_def code_def)

lemma json_string_str:
  assumes "json_laws J" and "js_find J doc k = Some (js_str J s)"
  shows "json_string J doc k = s"
  using assms(2) json_build(4,5) [OF assms(1)] by (simp add: json_string_def)

lemma json_string_none: "js_find J doc k = None \<Longrightarrow> json_string J doc k = []"
  by (simp add: json_string_def)

lemma json_u64_u64:
  assumes "json_laws J" and "js_find J doc k = Some (js_u64 J n)"
  shows "json_u64 J doc k = n"
  using assms(2) json_build(10,11) [OF assms(1)] by (simp add: json_u64_def)

lemma json_u64_none: "js_find J doc k = None \<Longrightarrow> json_u64 J doc k = 0"
  by (simp add: json_u64_def)

lemma edge_message_reparse:
  assumes "json_laws J" and "ascii (em_mac_hex m)" and "ascii (em_mac_addr m)" and "ascii (em_payload_base64 m)"
    and "ascii (em_origin m)" and "ascii (em_message_id m)"
  obtains doc where "js_parse J (serialize_edge_data_message_json J m) = Some doc" and "js_is_object J doc"
    and "serialize_edge_data_message_json J m \<noteq> []"
    and "\<And>k. js_find J doc k = map_option (js_reparse J) (map_of (edge_message_fields J m) k)"
proof -
  note clean = edge_fields_clean [OF assms]
  have f: "edge_message_fields J m \<noteq> []" "distinct (map fst (edge_message_fields J m))"
    by (simp_all add: edge_message_fields_def)
  have "js_clean J (js_object J (js_null J) (edge_message_fields J m))"
    using js_object_clean [OF assms(1) clean] json_clean(1) [OF assms(1)] by simp
  then have ne: "serialize_edge_data_message_json J m \<noteq> []"
    unfolding serialize_edge_data_message_json_def by (rule json_text(2) [OF assms(1)])
  show thesis
    using js_object_reparse [OF assms(1) f clean] that [OF _ _ ne] unfolding serialize_edge_data_message_json_def by blast
qed

lemma parse_serialized_message:
  assumes J: "json_laws J" and m: "ascii (em_mac_hex m)" "ascii (em_mac_addr m)" "ascii (em_payload_base64 m)"
    "ascii (em_origin m)" "ascii (em_message_id m)"
    and mac: "compact_mac_hex (em_mac_hex m) = em_mac_hex m" "em_mac_hex m \<noteq> []"
      "em_mac_addr m = mac_hex_to_addr (em_mac_hex m)"
    and len: "em_payload_len m < 2 ^ 64"
  shows "parse_edge_kafka_message_json J now (serialize_edge_data_message_json J m) metadata =
    Some (m\<lparr>em_received_at_ms := now,
            em_origin := if bm_valid metadata then or_else (em_origin m) (convid_to_hex (bm_origin metadata)) else em_origin m,
            em_message_id := if bm_valid metadata then or_else (em_message_id m) (convid_to_hex (bm_message_id metadata))
                             else em_message_id m\<rparr>)"
proof -
  obtain doc where doc: "js_parse J (serialize_edge_data_message_json J m) = Some doc" "js_is_object J doc"
    "serialize_edge_data_message_json J m \<noteq> []"
    and look: "\<And>k. js_find J doc k = map_option (js_reparse J) (map_of (edge_message_fields J m) k)"
    using edge_message_reparse [OF J m] by blast
  have s: "json_string J doc ''schema'' = ''iota.edge.raw.v1''" "json_string J doc ''mac_hex'' = em_mac_hex m"
    "json_string J doc ''payload_base64'' = em_payload_base64 m" "json_string J doc ''origin'' = em_origin m"
    "json_string J doc ''message_id'' = em_message_id m"
    by (rule json_string_str [OF J], simp add: look edge_message_fields_def json_text(5) [OF J])+
  have u: "json_u64 J doc ''timestamp_ms'' = em_timestamp_ms m" "json_u64 J doc ''stream_id'' = em_stream_id m"
    "json_u64 J doc ''payload_len'' = of_nat (em_payload_len m)"
    by (rule json_u64_u64 [OF J], simp add: look edge_message_fields_def json_text(7) [OF J])+
  have a: "json_string J doc ''mqtt_message_id'' = []" "json_u64 J doc ''timestamp'' = 0"
    by (rule json_string_none json_u64_none, simp add: look edge_message_fields_def)+
  have "unat (of_nat (em_payload_len m) :: u64) = em_payload_len m"
    using len by (intro unat_of_nat_small) simp
  then show ?thesis
    using mac unfolding parse_edge_kafka_message_json_def
    by (auto simp: doc s u a Let_def or_else_def intro!: EdgeDataMessage.equality)
qed

section \<open>Properties\<close>

lemma made_message:
  assumes "make_edge_data_message now stream_id frame metadata = Some m"
  obtains edge where "decode_edge_data_frame frame = Some edge" and "em_mac_hex m = edge_mac_to_hex (ef_mac edge)"
    and "em_mac_addr m = mac_hex_to_addr (em_mac_hex m)" and "em_payload_base64 m = base64_encode (ef_payload edge)"
    and "em_payload_len m = length (ef_payload edge)"
    and "em_origin m = (if bm_valid metadata then convid_to_hex (bm_origin metadata) else [])"
    and "em_message_id m = (if bm_valid metadata then convid_to_hex (bm_message_id metadata) else [])"
  using assms by (cases "decode_edge_data_frame frame") (auto simp: make_edge_data_message_def Let_def)

lemma parse_made_message:
  assumes "json_laws J" and "make_edge_data_message now stream_id frame metadata = Some m"
  shows "parse_edge_kafka_message_json J later (serialize_edge_data_message_json J m) metadata' =
      Some (m\<lparr>em_received_at_ms := later,
              em_origin := if bm_valid metadata' then or_else (em_origin m) (convid_to_hex (bm_origin metadata'))
                           else em_origin m,
              em_message_id := if bm_valid metadata' then or_else (em_message_id m) (convid_to_hex (bm_message_id metadata'))
                               else em_message_id m\<rparr>)"
proof -
  obtain edge where edge: "decode_edge_data_frame frame = Some edge"
    and m: "em_mac_hex m = edge_mac_to_hex (ef_mac edge)" "em_mac_addr m = mac_hex_to_addr (em_mac_hex m)"
    "em_payload_base64 m = base64_encode (ef_payload edge)" "em_payload_len m = length (ef_payload edge)"
    "em_origin m = (if bm_valid metadata then convid_to_hex (bm_origin metadata) else [])"
    "em_message_id m = (if bm_valid metadata then convid_to_hex (bm_message_id metadata) else [])"
    by (rule made_message [OF assms(2)])
  have hex: "ascii (em_mac_hex m)" unfolding m(1) edge_mac_to_hex_def by (rule ascii_hex)
  have text64: "ascii (em_payload_base64 m)" unfolding m(3) by (rule ascii_base64)
  have ids: "ascii (em_origin m)" "ascii (em_message_id m)" unfolding m(5,6) by (simp_all add: ascii_convid)
  have len: "em_payload_len m < 2 ^ 64" using decode_edge_imp_wire(2) [OF edge] by (simp add: m(4))
  show ?thesis
    by (rule parse_serialized_message [OF assms(1) hex _ text64 ids _ _ m(2) len])
      (simp_all add: m(2) hex ascii_mac_addr, simp_all add: m(1) compact_mac_hex_id edge_mac_to_hex_not_Nil)
qed

text \<open>
  C18: The message made for a frame of a device survives its trip through Kafka. Its JSON text parses
  to the same MAC address, time stamp, stream and payload, with origin and message identifier as
  written or, if they were empty, from the metadata of the reader; and the payload text decodes to
  the bytes the device sent. The JSON library is any that satisfies \<open>json_laws\<close>.
\<close>

theorem edge_message_round_trip:
  assumes "json_laws J" and "make_edge_data_message now stream_id frame metadata = Some m"
  shows "parse_edge_kafka_message_json J later (serialize_edge_data_message_json J m) metadata' =
      Some (m\<lparr>em_received_at_ms := later,
              em_origin := if bm_valid metadata' then or_else (em_origin m) (convid_to_hex (bm_origin metadata'))
                           else em_origin m,
              em_message_id := if bm_valid metadata' then or_else (em_message_id m) (convid_to_hex (bm_message_id metadata'))
                               else em_message_id m\<rparr>) \<and>
    map_option ef_payload (decode_edge_data_frame frame) = base64_decode (em_payload_base64 m)"
  using parse_made_message [OF assms, of later metadata'] made_message [OF assms(2)] base64_decode_encode
  by (metis (no_types, lifting) option.simps(9))

definition sample_edge_frame :: bytes where
  "sample_edge_frame = [2, 0, 94, 16, 0, 9] @ [0, 0, 1, 140, 37, 10, 99, 0] @ [0, 0, 0, 4] @ [116, 61, 50, 49]"

theorem edge_message_round_trip_witness:
  "\<exists>m. make_edge_data_message 7 5 sample_edge_frame BroadcastMetadata_init = Some m \<and>
     em_mac_addr m = ''02:00:5e:10:00:09'' \<and> em_payload_base64 m = ''dD0yMQ=='' \<and>
     parse_edge_kafka_message_json sample_json 8 (serialize_edge_data_message_json sample_json m) BroadcastMetadata_init =
       Some (m\<lparr>em_received_at_ms := 8\<rparr>) \<and>
     base64_decode ''dD0yMQ=='' = Some [116, 61, 50, 49]"
proof -
  obtain m where m: "make_edge_data_message 7 5 sample_edge_frame BroadcastMetadata_init = Some m"
    "em_mac_addr m = ''02:00:5e:10:00:09''" "em_payload_base64 m = ''dD0yMQ==''"
  proof -
    have "map_option em_mac_addr (make_edge_data_message 7 5 sample_edge_frame BroadcastMetadata_init) =
        Some ''02:00:5e:10:00:09''"
      "map_option em_payload_base64 (make_edge_data_message 7 5 sample_edge_frame BroadcastMetadata_init) =
        Some ''dD0yMQ==''" by code_simp+
    then show thesis using that by auto
  qed
  have "\<not> bm_valid BroadcastMetadata_init" by (simp add: BroadcastMetadata_init_def)
  moreover have "map_option ef_payload (decode_edge_data_frame sample_edge_frame) = Some [116, 61, 50, 49]" by code_simp
  ultimately show ?thesis
    using edge_message_round_trip [OF sample_json_laws m(1), of 8 BroadcastMetadata_init] m by auto
qed

end
