(* ===== verification/PipelineClaims.thy ===== *)
theory PipelineClaims
  imports Pipeline EdgeMessageProps
begin

text \<open>
  What the pipeline does with edge data: everything that Redis does not report as seen goes to
  Kafka, and how a lost reply of Redis makes a new message look seen.
\<close>

section \<open>The Redis server\<close>

text \<open>
  What the theorems need of Redis: executing a command in a state gives a new state and a reply line,
  and \<open>SET ... NX\<close> stores a missing key and answers \<open>OK\<close>, and answers nil for a key that exists.
\<close>

record 'st redis_server =
  srv_exec :: "'st \<Rightarrow> string list \<Rightarrow> 'st \<times> string"
  srv_has :: "'st \<Rightarrow> string \<Rightarrow> bool"

definition nx_law :: "'st redis_server \<Rightarrow> bool" where
  "nx_law srv \<longleftrightarrow> (\<forall>st key val ttl. let (st', reply) = srv_exec srv st (set_nx_args key val ttl)
     in if srv_has srv st key then st' = st \<and> reply = ''$-1'' else srv_has srv st' key \<and> reply = ''+OK'')"

lemma nx_missing:
  assumes "nx_law srv" and "\<not> srv_has srv st key" and "srv_exec srv st (set_nx_args key val ttl) = (st', reply)"
  shows "srv_has srv st' key" and "reply = ''+OK''"
  using assms by (auto simp: nx_law_def split: prod.splits)

lemma nx_present:
  assumes "nx_law srv" and "srv_has srv st key" and "srv_exec srv st (set_nx_args key val ttl) = (st', reply)"
  shows "st' = st" and "reply = ''$-1''"
  using assms by (auto simp: nx_law_def split: prod.splits)

text \<open>A server that stores the keys of all \<open>SET\<close> commands and never forgets.\<close>

definition sample_server :: "string set redis_server" where
  "sample_server =
     \<lparr>srv_exec = (\<lambda>st args. if 2 \<le> length args
         then (if args ! 1 \<in> st \<and> last args = ''NX'' then (st, ''$-1'') else (insert (args ! 1) st, ''+OK''))
         else (st, ''-ERR'')),
      srv_has = (\<lambda>st key. key \<in> st)\<rparr>"

lemma sample_server_nx: "nx_law sample_server"
  by (simp add: nx_law_def sample_server_def set_nx_args_def)

section \<open>A reply that is lost\<close>

lemma exchange_lost:
  assumes "0 \<le> rc_fd s" and "cmd \<noteq> []" and "length cmd \<le> n"
  shows "redis_exchange cmd (Ready True # Sent n # TimedOut # w) s =
    Some (None, [RsSend (rc_fd s) (str_bytes cmd), RsRecv (rc_fd s) []], w)"
proof -
  have "read_reply (TimedOut # w) = Some (None, [], w)"
    by (simp add: read_reply_def read_byte_def wait_fd_def)
  moreover have "redis_write_all (Ready True # Sent n # TimedOut # w) (str_bytes cmd) = Some (True, str_bytes cmd, TimedOut # w)"
    using assms(2,3) by (intro redis_write_whole) (simp_all add: str_bytes_def)
  ultimately show ?thesis
    using assms(1) by (simp add: redis_exchange_def send_command_locked_def read_reply_locked_def)
qed

lemma execute_retried:
  assumes "0 \<le> rc_fd s" and "redis_enabled (rc_config s)" and "cmd \<noteq> []" and "length cmd \<le> n" and "length r \<le> 100"
    and "resp_reply (str_bytes (r @ crlf)) = Some (reply, [])" and "rp_type reply \<noteq> 0x2d"
    and "connect_with_timeout pton (rc_endpoint (rc_config s)) ca = Some (fd, [])" and "0 \<le> fd"
  obtains acts where "execute_locked pton cmd
      ([Ready True, Sent n, TimedOut, Ready True, Sent n] @ byte_answers (str_bytes (r @ crlf)) @ w, ca # cas) s =
    Some (Some reply, acts, (w, cas), s\<lparr>rc_fd := fd\<rparr>)"
proof -
  have lost: "redis_exchange cmd (Ready True # Sent n # TimedOut # v) s =
      Some (None, [RsSend (rc_fd s) (str_bytes cmd), RsRecv (rc_fd s) []], v)" for v
    by (rule exchange_lost [OF assms(1,3,4)])
  have got: "redis_exchange cmd (Ready True # Sent n # byte_answers (str_bytes (r @ crlf)) @ w) (s\<lparr>rc_fd := fd\<rparr>) =
      Some (Some reply, [RsSend fd (str_bytes cmd), RsRecv fd (str_bytes (r @ crlf))], w)"
    using exchange_read [of "s\<lparr>rc_fd := fd\<rparr>", OF _ assms(3-6), of w] assms(9) by simp
  have con: "ensure_connected pton (ca # cas) s = Some (True, [], ca # cas, s)"
    "ensure_connected pton (ca # cas) (s\<lparr>rc_fd := -1\<rparr>) = Some (True, [RsConnect fd], cas, s\<lparr>rc_fd := fd\<rparr>)"
    using assms(1,2,8,9) by (simp_all add: ensure_connected_def connect_locked_def)
  have cl: "close_locked s = ([RsShutdown (rc_fd s), RsClose (rc_fd s)], s\<lparr>rc_fd := -1\<rparr>)"
    using assms(1) by (simp add: close_locked_def)
  show thesis
    using that lost got con cl assms(7) by (simp add: execute_locked_def numeral_2_eq_2)
qed

section \<open>A sample\<close>

definition sample_pipeline :: EdgeDataPipeline where
  "sample_pipeline =
     \<lparr>ed_config = \<lparr>ep_redis = redis_config, ep_kafka = \<lparr>ks_brokers = ''k:9092'', ks_topic = ''edge'', ks_client_id = ''p'',
        ks_acks = ''all'', ks_message_timeout_ms = 5000, ks_flush_timeout_ms = 5000\<rparr>\<rparr>,
      ed_redis = \<lparr>rc_config = redis_config, rc_fd = 8\<rparr>,
      ed_kafka = KafkaSink_init \<lparr>ks_brokers = ''k:9092'', ks_topic = ''edge'', ks_client_id = ''p'',
        ks_acks = ''all'', ks_message_timeout_ms = 5000, ks_flush_timeout_ms = 5000\<rparr>\<rparr>"

definition kafka_ok :: kafka_answers where
  "kafka_ok = \<lparr>ka_conf_ok = (\<lambda>_ _. True), ka_new_ok = True, ka_err = NoError, ka_err2 = NoError\<rparr>"



definition sample_metadata :: BroadcastMetadata where
  "sample_metadata = \<lparr>bm_valid = True, bm_ttl = 3, bm_origin = from_uint32 7, bm_message_id = from_uint32 8\<rparr>"

lemma sample_edge_message:
  obtains m where "make_edge_data_message 7 5 sample_edge_frame sample_metadata = Some m"
    and "em_message_id m = convid_to_hex (from_uint32 8)" and "em_mac_hex m = ''02005e100009''"
proof -
  have "map_option em_mac_hex (make_edge_data_message 7 5 sample_edge_frame sample_metadata) = Some ''02005e100009''"
    by code_simp
  moreover have "bm_valid sample_metadata" "bm_message_id sample_metadata = from_uint32 8"
    by (simp_all add: sample_metadata_def)
  ultimately show thesis
    using that by (auto simp: make_edge_data_message_def Let_def split: option.splits)
qed

lemma length_claim:
  assumes "em_message_id m = convid_to_hex c" and "rc_seen_ttl_seconds config = 600"
  shows "length (redis_command (seen_args m config)) \<le> 500"
proof -
  have "length (convid_to_hex c) = 64" by (simp add: convid_to_hex_eq hex_256_def length_hex_bytes)
  then show ?thesis
    using assms by (simp add: seen_args_def set_nx_args_def redis_command_def bulk_def crlf_def to_string.simps)
qed

section \<open>Properties\<close>



text \<open>
  C28: A lost reply of Redis loses the message. Redis has never seen the identifier of a message; it
  executes the claim, but the reply does not arrive in time. The cache sends the claim again on a
  new connection, Redis answers nil because of the first one, and the pipeline reports success
  without handing anything to Kafka.
\<close>

theorem lost_reply_drops_message:
  assumes "nx_law srv" and "\<not> srv_has srv st (''seen:'' @ em_message_id m)"
    and "srv_exec srv st (seen_args m (rc_config (ed_redis s))) = (st1, r1)"
    and "srv_exec srv st1 (seen_args m (rc_config (ed_redis s))) = (st2, r2)"
    and "make_edge_data_message now sid frame metadata = Some m" and "frame \<noteq> []" and "em_message_id m \<noteq> []"
    and "redis_enabled (rc_config (ed_redis s))" and "0 \<le> rc_fd (ed_redis s)"
    and "length (redis_command (seen_args m (rc_config (ed_redis s)))) \<le> n"
    and "connect_with_timeout pton (rc_endpoint (rc_config (ed_redis s))) ca = Some (fd, [])" and "0 \<le> fd"
  shows "\<exists>acts. write_edge_data J pton ka now sid frame metadata
      ([Ready True, Sent n, TimedOut, Ready True, Sent n] @ byte_answers (str_bytes (r2 @ crlf)) @ w, ca # cas) s =
    Some (True, map EdRedis acts, (w, cas), s\<lparr>ed_redis := (ed_redis s)\<lparr>rc_fd := fd\<rparr>\<rparr>)"
proof -
  let ?cmd = "redis_command (seen_args m (rc_config (ed_redis s)))"
  have "srv_has srv st1 (''seen:'' @ em_message_id m)"
    using nx_missing(1) [OF assms(1,2)] assms(3) by (simp add: seen_args_def)
  then have r2: "r2 = ''$-1''" using nx_present(2) [OF assms(1)] assms(4) by (simp add: seen_args_def)
  have ne: "?cmd \<noteq> []" by (simp add: redis_command_def)
  have short: "length r2 \<le> 100" by (simp add: r2)
  have reply: "resp_reply (str_bytes (r2 @ crlf)) = Some (\<lparr>rp_type = 0x24, rp_nil = True, rp_text = []\<rparr>, [])"
    unfolding r2 by (rule sample_replies(2))
  obtain acts where ex: "execute_locked pton ?cmd
      ([Ready True, Sent n, TimedOut, Ready True, Sent n] @ byte_answers (str_bytes (r2 @ crlf)) @ w, ca # cas) (ed_redis s) =
    Some (Some \<lparr>rp_type = 0x24, rp_nil = True, rp_text = []\<rparr>, acts, (w, cas), (ed_redis s)\<lparr>rc_fd := fd\<rparr>)"
    by (rule execute_retried [OF assms(9,8) ne assms(10) short reply _ assms(11,12)]) auto
  have "record_edge_message pton m doc ([Ready True, Sent n, TimedOut, Ready True, Sent n] @
      byte_answers (str_bytes (r2 @ crlf)) @ w, ca # cas) (ed_redis s) =
    Some (True, True, acts, (w, cas), (ed_redis s)\<lparr>rc_fd := fd\<rparr>)" for doc
    using ex assms(7,8) by (simp add: record_edge_message_def set_nx_command_def seen_args_def)
  then show ?thesis using assms(5,6) by (intro exI [of _ acts]) (simp add: write_edge_data_def Let_def)
qed

theorem lost_reply_drops_message_witness:
  "\<exists>m acts st1 r1 st2 r2. make_edge_data_message 7 5 sample_edge_frame sample_metadata = Some m \<and>
     srv_exec sample_server {} (seen_args m redis_config) = (st1, r1) \<and>
     srv_exec sample_server st1 (seen_args m redis_config) = (st2, r2) \<and>
     write_edge_data sample_json redis_pton kafka_ok 7 5 sample_edge_frame sample_metadata
       ([Ready True, Sent 500, TimedOut, Ready True, Sent 500] @ byte_answers (str_bytes (r2 @ crlf)), [redis_up])
       sample_pipeline =
     Some (True, map EdRedis acts, ([], []), sample_pipeline\<lparr>ed_redis := \<lparr>rc_config = redis_config, rc_fd = 9\<rparr>\<rparr>)"
proof -
  obtain m where m: "make_edge_data_message 7 5 sample_edge_frame sample_metadata = Some m"
    "em_message_id m = convid_to_hex (from_uint32 8)" "em_mac_hex m = ''02005e100009''" by (rule sample_edge_message)
  obtain st1 r1 where e1: "srv_exec sample_server {} (seen_args m redis_config) = (st1, r1)" by fastforce
  obtain st2 r2 where e2: "srv_exec sample_server st1 (seen_args m redis_config) = (st2, r2)" by fastforce
  have c: "rc_config (ed_redis sample_pipeline) = redis_config" "rc_fd (ed_redis sample_pipeline) = 8"
    "redis_enabled redis_config" "sample_edge_frame \<noteq> []" "rc_seen_ttl_seconds redis_config = 600"
    "connect_with_timeout redis_pton (rc_endpoint redis_config) redis_up = Some (9, [])" by code_simp+
  have "length (convid_to_hex (from_uint32 8)) = 64" by (simp add: convid_to_hex_eq hex_256_def length_hex_bytes)
  then have id: "em_message_id m \<noteq> []" using m(2) by auto
  show ?thesis
    using lost_reply_drops_message [of sample_server "{}" m sample_pipeline st1 r1 st2 r2 7 5 sample_edge_frame sample_metadata
        500 redis_pton redis_up 9 sample_json kafka_ok "[]" "[]"]
      sample_server_nx e1 e2 m id c length_claim [OF m(2) c(5)]
    by (auto simp: sample_server_def sample_pipeline_def)
qed

end
