(* ===== verification/DiscoveryJson.thy ===== *)
theory DiscoveryJson
  imports Json RouteManager "HOL-Library.Monad_Syntax"
begin

text \<open>
  Nodes, capabilities and routes as JSON, in the versions of
  \<open>iota_proxy/src/discovery/DiscoveryService.cpp\<close> (messages between nodes) and of
  \<open>iota_proxy/src/discovery/RouteManager.cpp\<close> (the table's file). A function that calls \<open>value\<close>
  can throw: its outer option is \<open>None\<close> for the exception.
\<close>

section \<open>Writing\<close>

definition capability_fields :: "'j json_lib \<Rightarrow> NodeCapability \<Rightarrow> (string \<times> 'j) list" where
  "capability_fields J capability =
     [(''accepting_ingress'', js_bool J (cap_accepting_ingress capability)),
      (''max_kcp_links'', js_u64 J (of_nat (cap_max_kcp_links capability))),
      (''current_kcp_links'', js_u64 J (of_nat (cap_current_kcp_links capability))),
      (''max_ingress_streams'', js_u64 J (of_nat (cap_max_ingress_streams capability))),
      (''current_ingress_streams'', js_u64 J (of_nat (cap_current_ingress_streams capability))),
      (''max_ingress_bytes_per_second'', js_u64 J (cap_max_ingress_bytes_per_second capability)),
      (''current_ingress_bytes_per_second'', js_u64 J (cap_current_ingress_bytes_per_second capability)),
      (''updated_at_ms'', js_i64 J (cap_updated_at_ms capability))]"

definition capability_to_json :: "'j json_lib \<Rightarrow> NodeCapability \<Rightarrow> 'j" where
  "capability_to_json J capability = js_object J (js_null J) (capability_fields J capability)"

definition node_fields :: "'j json_lib \<Rightarrow> NodeAddress \<Rightarrow> (string \<times> 'j) list" where
  "node_fields J node =
     [(''host'', js_str J (ep_host (node_endpoint node))),
      (''port'', js_u64 J (ucast (ep_port (node_endpoint node)))),
      (''public_key'', js_str J (convid_to_hex (node_id node)))]"

text \<open>The node of the table's file, and of the messages: with the capability if it is present.\<close>

definition route_node_to_json :: "'j json_lib \<Rightarrow> NodeAddress \<Rightarrow> 'j" where
  "route_node_to_json J node = js_object J (js_null J) (node_fields J node)"

definition capability_field :: "'j json_lib \<Rightarrow> NodeCapability option \<Rightarrow> (string \<times> 'j) list" where
  "capability_field J capability =
     (case capability of
        None \<Rightarrow> []
      | Some cap \<Rightarrow> if cap_present cap then [(''capability'', capability_to_json J cap)] else [])"

definition node_to_json :: "'j json_lib \<Rightarrow> NodeAddress \<Rightarrow> NodeCapability option \<Rightarrow> 'j" where
  "node_to_json J node capability =
     js_object J (js_null J) (node_fields J node @ capability_field J capability)"

definition route_to_json :: "'j json_lib \<Rightarrow> RouteEntry \<Rightarrow> 'j" where
  "route_to_json J route =
     js_set J (node_to_json J (re_node route) (Some (re_capability route)))
       ''hop_count'' (js_u64 J (ucast (re_hop_count route)))"

section \<open>Reading\<close>

text \<open>The text of the first key that holds a string.\<close>

fun first_string :: "'j json_lib \<Rightarrow> 'j \<Rightarrow> string list \<Rightarrow> string option" where
  "first_string J item [] = None"
| "first_string J item (key # keys) =
     (case js_find J item key of
        None \<Rightarrow> first_string J item keys
      | Some v \<Rightarrow> if js_is_string J v then js_to_string J v else first_string J item keys)"

definition node_from_keys :: "'j json_lib \<Rightarrow> string list \<Rightarrow> 'j \<Rightarrow> NodeAddress option" where
  "node_from_keys J keys item =
     (if \<not> js_is_object J item then None
      else case (js_find J item ''host'', js_find J item ''port'') of
             (Some h, Some p) \<Rightarrow>
               if \<not> js_is_string J h \<or> \<not> js_is_unsigned J p then None
               else (case first_string J item keys of
                       None \<Rightarrow> None
                     | Some id_text \<Rightarrow>
                         (case (js_to_string J h, js_to_u32 J p) of
                            (Some host_text, Some port_value) \<Rightarrow>
                              if port_value = 0 \<or> port_value > 65535 then None
                              else map_option (\<lambda>nid. \<lparr>node_endpoint = \<lparr>ep_host = host_text, ep_port = ucast port_value\<rparr>,
                                                      node_id = nid\<rparr>) (parse_convid_hex id_text)
                          | _ \<Rightarrow> None))
           | _ \<Rightarrow> None)"

definition node_from_json :: "'j json_lib \<Rightarrow> 'j \<Rightarrow> NodeAddress option" where
  "node_from_json J item = node_from_keys J [''public_key'', ''id''] item"

definition route_node_from_json :: "'j json_lib \<Rightarrow> 'j \<Rightarrow> NodeAddress option" where
  "route_node_from_json J item = node_from_keys J [''public_key'', ''id'', ''convid''] item"

definition json_size_value :: "'j json_lib \<Rightarrow> 'j \<Rightarrow> string \<Rightarrow> u64" where
  "json_size_value J item key =
     (case js_find J item key of
        None \<Rightarrow> 0
      | Some v \<Rightarrow> if \<not> js_is_unsigned J v then 0 else (case js_to_u64 J v of None \<Rightarrow> 0 | Some n \<Rightarrow> n))"

definition make_capability :: "bool \<Rightarrow> u64 \<Rightarrow> u64 \<Rightarrow> u64 \<Rightarrow> u64 \<Rightarrow> u64 \<Rightarrow> u64 \<Rightarrow> int \<Rightarrow> NodeCapability" where
  "make_capability accepting max_links links max_streams streams max_rate rate updated =
     \<lparr>cap_present = True, cap_accepting_ingress = accepting, cap_max_kcp_links = unat max_links,
      cap_current_kcp_links = unat links, cap_max_ingress_streams = unat max_streams,
      cap_current_ingress_streams = unat streams, cap_max_ingress_bytes_per_second = max_rate,
      cap_current_ingress_bytes_per_second = rate, cap_updated_at_ms = updated\<rparr>"

text \<open>\<open>Some None\<close> is the result \<open>false\<close>: the argument is not an object.\<close>

definition capability_from_json :: "'j json_lib \<Rightarrow> 'j \<Rightarrow> NodeCapability option option" where
  "capability_from_json J item =
     (if \<not> js_is_object J item then Some None
      else do {
        accepting \<leftarrow> js_value_bool J item ''accepting_ingress'' True;
        max_links \<leftarrow> js_value_u64 J item ''max_kcp_links'' 0;
        links \<leftarrow> js_value_u64 J item ''current_kcp_links'' 0;
        max_streams \<leftarrow> js_value_u64 J item ''max_ingress_streams'' 0;
        streams \<leftarrow> js_value_u64 J item ''current_ingress_streams'' 0;
        max_rate \<leftarrow> js_value_u64 J item ''max_ingress_bytes_per_second'' 0;
        rate \<leftarrow> js_value_u64 J item ''current_ingress_bytes_per_second'' 0;
        updated \<leftarrow> js_value_i64 J item ''updated_at_ms'' 0;
        Some (Some (make_capability accepting max_links links max_streams streams max_rate rate updated))
      })"

definition route_capability_from_json :: "'j json_lib \<Rightarrow> 'j \<Rightarrow> NodeCapability option option" where
  "route_capability_from_json J item =
     (if \<not> js_is_object J item then Some None
      else do {
        accepting \<leftarrow> js_value_bool J item ''accepting_ingress'' True;
        updated \<leftarrow> js_value_i64 J item ''updated_at_ms'' 0;
        Some (Some (make_capability accepting (json_size_value J item ''max_kcp_links'')
          (json_size_value J item ''current_kcp_links'') (json_size_value J item ''max_ingress_streams'')
          (json_size_value J item ''current_ingress_streams'') (json_size_value J item ''max_ingress_bytes_per_second'')
          (json_size_value J item ''current_ingress_bytes_per_second'') updated))
      })"

definition node_capability_from_json :: "'j json_lib \<Rightarrow> 'j \<Rightarrow> NodeCapability option option" where
  "node_capability_from_json J item =
     (if \<not> js_is_object J item then Some None
      else case js_find J item ''capability'' of
             None \<Rightarrow> Some None
           | Some v \<Rightarrow> capability_from_json J v)"

definition route_hop_count_from_json :: "'j json_lib \<Rightarrow> 'j \<Rightarrow> u8 option" where
  "route_hop_count_from_json J item =
     do {
       n \<leftarrow> js_value_u32 J item ''hop_count'' 0;
       Some (ucast (min n 255))
     }"

section \<open>Every accepted node is usable\<close>

text \<open>A node read from JSON has a port and an identifier; only its host may be empty.\<close>

lemma node_from_keys_valid:
  assumes "node_from_keys J keys item = Some node"
  shows "ep_port (node_endpoint node) \<noteq> 0" and "\<not> conv_empty (node_id node)"
proof -
  obtain h p id_text host_text port_value nid where d: "parse_convid_hex id_text = Some nid"
    "\<not> (port_value = 0 \<or> port_value > (65535 :: u32))"
    "node = \<lparr>node_endpoint = \<lparr>ep_host = host_text, ep_port = ucast port_value\<rparr>, node_id = nid\<rparr>"
    using assms unfolding node_from_keys_def by (auto split: if_splits option.splits)
  have "\<not> conv_empty nid" using d(1) by (auto simp: parse_convid_hex_def Let_def split: option.splits if_splits)
  then show "\<not> conv_empty (node_id node)" by (simp add: d(3))
  have "unat port_value \<le> 65535" "unat port_value \<noteq> 0" using d(2) by (auto simp: word_less_nat_alt unat_eq_zero)
  then have "unat (ucast port_value :: u16) = unat port_value"
    by (simp add: unsigned_ucast_eq take_bit_nat_eq_self_iff)
  then have "unat (ucast port_value :: u16) \<noteq> 0" using \<open>unat port_value \<noteq> 0\<close> by simp
  then show "ep_port (node_endpoint node) \<noteq> 0" by (auto simp: d(3))
qed

end
