(* ===== verification/DiscoveryJsonProps.thy ===== *)
theory DiscoveryJsonProps
  imports DiscoveryJson
begin

text \<open>
  Reading back what was written: nodes, capabilities and routes survive their text.
\<close>

section \<open>Documents read back\<close>

lemma built_reparse:
  assumes "json_laws J" and "kvs \<noteq> []" and "distinct (map fst kvs)"
  shows "js_is_object J (js_object J (js_null J) kvs)"
    and "js_is_object J (js_reparse J (js_object J (js_null J) kvs))"
    and "js_find J (js_reparse J (js_object J (js_null J) kvs)) k = map_option (js_reparse J) (map_of kvs k)"
  using js_object_is_object [OF assms(1,2)] js_object_find [OF assms(1,3)] json_text(3,4) [OF assms(1)] by simp_all

text \<open>Time stamps fit into 64 bits.\<close>

abbreviation i64 :: "int \<Rightarrow> bool" where
  "i64 t \<equiv> - (2 ^ 63) \<le> t \<and> t < 2 ^ 63"

lemma reparse_i64:
  assumes "json_laws J" and "i64 t"
  shows "js_to_i64 J (js_reparse J (js_i64 J t)) = Some t"
proof (cases "t < 0")
  case True
  then show ?thesis using json_text(8) [OF assms(1), of t] json_build(16) [OF assms(1), of t] assms(2) by simp
next
  case False
  have "sint (of_int t :: u64) = t"
    using assms(2) False by (simp add: signed_of_int signed_take_bit_int_eq_self)
  then show ?thesis
    using json_text(8) [OF assms(1), of t] json_build(14) [OF assms(1), of "of_int t"] assms(2) False by simp
qed

lemma js_value_found:
  assumes "json_laws J" and "js_is_object J j" and "js_find J j k = Some v"
  shows "js_value_bool J j k db = js_to_bool J v" "js_value_u64 J j k du = js_to_u64 J v"
    "js_value_u32 J j k dw = js_to_u32 J v" "js_value_i64 J j k di = js_to_i64 J v"
    "js_value_string J j k ds = js_to_string J v" "js_value_int J j k dn = js_to_int J v"
  by (simp_all add: json_value [OF assms(1)] assms(2,3))

lemma js_value_absent:
  assumes "json_laws J" and "js_is_object J j" and "js_find J j k = None"
  shows "js_value_bool J j k db = Some db" "js_value_u64 J j k du = Some du"
    "js_value_u32 J j k dw = Some dw" "js_value_i64 J j k di = Some di"
    "js_value_string J j k ds = Some ds" "js_value_int J j k dn = Some dn"
  by (simp_all add: json_value [OF assms(1)] assms(2,3))

section \<open>Capabilities\<close>

text \<open>The sizes fit into \<open>size_t\<close> and the time stamp into 64 bits.\<close>

definition cap_range :: "NodeCapability \<Rightarrow> bool" where
  "cap_range c \<longleftrightarrow> cap_max_kcp_links c < 2 ^ 64 \<and> cap_current_kcp_links c < 2 ^ 64 \<and>
     cap_max_ingress_streams c < 2 ^ 64 \<and> cap_current_ingress_streams c < 2 ^ 64 \<and> i64 (cap_updated_at_ms c)"

lemma capability_made:
  assumes "cap_range c"
  shows "make_capability (cap_accepting_ingress c) (of_nat (cap_max_kcp_links c)) (of_nat (cap_current_kcp_links c))
    (of_nat (cap_max_ingress_streams c)) (of_nat (cap_current_ingress_streams c)) (cap_max_ingress_bytes_per_second c)
    (cap_current_ingress_bytes_per_second c) (cap_updated_at_ms c) = c\<lparr>cap_present := True\<rparr>"
proof -
  have "n < 2 ^ 64 \<Longrightarrow> unat (of_nat n :: u64) = n" for n by (rule unat_of_nat_small) simp
  then show ?thesis using assms by (simp add: make_capability_def cap_range_def)
qed

lemma capability_keys: "capability_fields J c \<noteq> []" "distinct (map fst (capability_fields J c))"
  by (simp_all add: capability_fields_def)

lemma capability_read:
  assumes "json_laws J" and "cap_range c"
  defines "d \<equiv> js_reparse J (capability_to_json J c)"
  shows "js_is_object J d"
    and "js_value_bool J d ''accepting_ingress'' b = Some (cap_accepting_ingress c)"
    and "js_find J d ''max_kcp_links'' = Some (js_u64 J (of_nat (cap_max_kcp_links c)))"
    and "js_find J d ''current_kcp_links'' = Some (js_u64 J (of_nat (cap_current_kcp_links c)))"
    and "js_find J d ''max_ingress_streams'' = Some (js_u64 J (of_nat (cap_max_ingress_streams c)))"
    and "js_find J d ''current_ingress_streams'' = Some (js_u64 J (of_nat (cap_current_ingress_streams c)))"
    and "js_find J d ''max_ingress_bytes_per_second'' = Some (js_u64 J (cap_max_ingress_bytes_per_second c))"
    and "js_find J d ''current_ingress_bytes_per_second'' = Some (js_u64 J (cap_current_ingress_bytes_per_second c))"
    and "js_value_i64 J d ''updated_at_ms'' t = Some (cap_updated_at_ms c)"
proof -
  note look = built_reparse [OF assms(1) capability_keys [of J c], folded capability_to_json_def, folded d_def]
  show obj: "js_is_object J d" by (rule look(2))
  have f: "js_find J d k = map_option (js_reparse J) (map_of (capability_fields J c) k)" for k by (rule look(3))
  have b: "js_find J d ''accepting_ingress'' = Some (js_bool J (cap_accepting_ingress c))"
    by (simp add: f capability_fields_def json_text(6) [OF assms(1)])
  then show "js_value_bool J d ''accepting_ingress'' b = Some (cap_accepting_ingress c)"
    using js_value_found(1) [OF assms(1) obj b] json_build(9) [OF assms(1)] by simp
  have "js_find J d ''updated_at_ms'' = Some (js_reparse J (js_i64 J (cap_updated_at_ms c)))"
    by (simp add: f capability_fields_def)
  then show "js_value_i64 J d ''updated_at_ms'' t = Some (cap_updated_at_ms c)"
    using js_value_found(4) [OF assms(1) obj] reparse_i64 [OF assms(1)] assms(2) by (simp add: cap_range_def)
qed (simp_all add: built_reparse(3) [OF assms(1) capability_keys [of J c], folded capability_to_json_def]
    d_def capability_fields_def json_text(7) [OF assms(1)])

lemma capability_round_trip:
  assumes "json_laws J" and "cap_range c"
  shows "capability_from_json J (js_reparse J (capability_to_json J c)) = Some (Some (c\<lparr>cap_present := True\<rparr>))"
    and "route_capability_from_json J (js_reparse J (capability_to_json J c)) = Some (Some (c\<lparr>cap_present := True\<rparr>))"
proof -
  let ?d = "js_reparse J (capability_to_json J c)"
  note r = capability_read [OF assms]
  note u = js_value_found(2) [OF assms(1) r(1)] json_build(11) [OF assms(1)]
  have size: "js_find J ?d k = Some (js_u64 J n) \<Longrightarrow> json_size_value J ?d k = n" for k n
    using json_build(10,11) [OF assms(1)] by (simp add: json_size_value_def)
  show "capability_from_json J ?d = Some (Some (c\<lparr>cap_present := True\<rparr>))"
    by (simp add: capability_from_json_def r u(1) [OF r(3)] u(1) [OF r(4)] u(1) [OF r(5)] u(1) [OF r(6)] u(1) [OF r(7)]
        u(1) [OF r(8)] u(2) capability_made [OF assms(2)])
  show "route_capability_from_json J ?d = Some (Some (c\<lparr>cap_present := True\<rparr>))"
    by (simp add: route_capability_from_json_def r size [OF r(3)] size [OF r(4)] size [OF r(5)] size [OF r(6)]
        size [OF r(7)] size [OF r(8)] capability_made [OF assms(2)])
qed

section \<open>Nodes\<close>

text \<open>What a document must hold to be read as a node.\<close>

lemma node_read:
  assumes "json_laws J" and "js_is_object J d" and "js_find J d ''host'' = Some (js_str J (ep_host (node_endpoint node)))"
    and "js_find J d ''port'' = Some (js_u64 J (ucast (ep_port (node_endpoint node))))"
    and "js_find J d ''public_key'' = Some (js_str J (convid_to_hex (node_id node)))"
    and "ep_port (node_endpoint node) \<noteq> 0" and "\<not> conv_empty (node_id node)"
  shows "node_from_keys J (''public_key'' # keys) d = Some node"
proof -
  let ?p = "ep_port (node_endpoint node)"
  have u: "unat (ucast (ucast ?p :: u64) :: u32) = unat ?p"
  proof -
    have "unat ?p < 2 ^ 16" using unsigned_less [of ?p, where 'a = nat] by simp
    moreover from this have "unat (ucast ?p :: u64) = unat ?p" by (simp add: unsigned_ucast_eq take_bit_nat_eq_self_iff)
    ultimately show ?thesis
      by (simp only: unsigned_ucast_eq [of "ucast ?p :: u64"]) (simp add: take_bit_nat_eq_self_iff)
  qed
  have "unat ?p < 65536" using unsigned_less [of ?p, where 'a = nat] by simp
  moreover have "unat ?p \<noteq> 0" using assms(6) by (simp add: unat_eq_zero)
  ultimately have ok: "\<not> ((ucast (ucast ?p :: u64) :: u32) = 0 \<or> (ucast (ucast ?p :: u64) :: u32) > 65535)"
    using u by (auto simp: word_less_nat_alt)
  have "unat (ucast (ucast (ucast ?p :: u64) :: u32) :: u16) = unat ?p"
    using u \<open>unat ?p < 65536\<close>
    by (simp only: unsigned_ucast_eq [of "ucast (ucast ?p :: u64) :: u32"]) (simp add: take_bit_nat_eq_self_iff)
  then have port: "(ucast (ucast (ucast ?p :: u64) :: u32) :: u16) = ?p" by (simp only: word_unat_eq_iff)
  note b = json_build [OF assms(1)]
  show ?thesis
    using assms(2-5,7) ok b(4,5,10,12)
    by (simp add: node_from_keys_def parse_convid_hex_hex port)
qed

lemma node_keys:
  "distinct (map fst (node_fields J node @ capability_field J cap))" "node_fields J node @ capability_field J cap \<noteq> []"
  by (auto simp: node_fields_def capability_field_def split: option.splits)

lemma node_round_trip:
  assumes "json_laws J" and "ep_port (node_endpoint node) \<noteq> 0" and "\<not> conv_empty (node_id node)"
  shows "node_from_json J (js_reparse J (node_to_json J node cap)) = Some node"
    and "route_node_from_json J (js_reparse J (route_node_to_json J node)) = Some node"
proof -
  note t = json_text(5,7) [OF assms(1)]
  note l = built_reparse [OF assms(1) node_keys(2) [of J node cap] node_keys(1) [of J node cap], folded node_to_json_def]
  show "node_from_json J (js_reparse J (node_to_json J node cap)) = Some node"
    unfolding node_from_json_def
    by (rule node_read [OF assms(1) l(2) _ _ _ assms(2,3)]) (simp_all add: l(3) node_fields_def t)
  have k: "distinct (map fst (node_fields J node))" "node_fields J node \<noteq> []" by (simp_all add: node_fields_def)
  note r = built_reparse [OF assms(1) k(2,1), folded route_node_to_json_def]
  show "route_node_from_json J (js_reparse J (route_node_to_json J node)) = Some node"
    unfolding route_node_from_json_def
    by (rule node_read [OF assms(1) r(2) _ _ _ assms(2,3)]) (simp_all add: r(3) node_fields_def t)
qed

lemma node_capability_round_trip:
  assumes "json_laws J" and "cap_present c" and "cap_range c"
  shows "node_capability_from_json J (js_reparse J (node_to_json J node (Some c))) = Some (Some c)"
proof -
  note l = built_reparse [OF assms(1) node_keys(2) [of J node "Some c"] node_keys(1) [of J node "Some c"], folded node_to_json_def]
  have "js_find J (js_reparse J (node_to_json J node (Some c))) ''capability'' = Some (js_reparse J (capability_to_json J c))"
    by (simp add: l(3) node_fields_def capability_field_def assms(2))
  then show ?thesis
    using capability_round_trip(1) [OF assms(1,3)] assms(2) by (simp add: node_capability_from_json_def l(2))
qed

lemma node_no_capability:
  assumes "json_laws J" and "\<not> cap_present c"
  shows "node_capability_from_json J (js_reparse J (node_to_json J node (Some c))) = Some None"
proof -
  note l = built_reparse [OF assms(1) node_keys(2) [of J node "Some c"] node_keys(1) [of J node "Some c"], folded node_to_json_def]
  have "js_find J (js_reparse J (node_to_json J node (Some c))) ''capability'' = None"
    by (simp add: l(3) node_fields_def capability_field_def assms(2))
  then show ?thesis by (simp add: node_capability_from_json_def l(2))
qed

section \<open>Routes\<close>

lemma route_keys:
  "distinct (map fst (node_fields J node @ capability_field J cap @ [(''hop_count'', h)]))"
  "node_fields J node @ capability_field J cap @ [(''hop_count'', h)] \<noteq> []"
  by (auto simp: node_fields_def capability_field_def split: option.splits)

lemma js_object_append: "js_object J j (xs @ ys) = js_object J (js_object J j xs) ys"
  by (induction J j xs rule: js_object.induct) simp_all

lemma route_to_json_object:
  "route_to_json J r = js_object J (js_null J) (node_fields J (re_node r) @ capability_field J (Some (re_capability r)) @
     [(''hop_count'', js_u64 J (ucast (re_hop_count r)))])"
  by (simp add: route_to_json_def node_to_json_def js_object_append)

lemma route_round_trip:
  assumes "json_laws J" and "valid_route_node (re_node r)" and "cap_range (re_capability r)"
  defines "d \<equiv> js_reparse J (route_to_json J r)"
  shows "node_from_json J d = Some (re_node r)"
    and "node_capability_from_json J d = Some (if cap_present (re_capability r) then Some (re_capability r) else None)"
    and "route_hop_count_from_json J d = Some (re_hop_count r)"
proof -
  note t = json_text(5,7) [OF assms(1)]
  have obj: "js_is_object J d"
    and f: "\<And>k. js_find J d k = map_option (js_reparse J) (map_of (node_fields J (re_node r) @
      capability_field J (Some (re_capability r)) @ [(''hop_count'', js_u64 J (ucast (re_hop_count r)))]) k)"
    unfolding d_def route_to_json_object by (rule built_reparse(2,3) [OF assms(1) route_keys(2,1)])+
  show "node_from_json J d = Some (re_node r)"
    unfolding node_from_json_def
    by (rule node_read [OF assms(1) obj]) (use assms(2) in \<open>simp_all add: f node_fields_def t valid_route_node_def\<close>)
  show "node_capability_from_json J d = Some (if cap_present (re_capability r) then Some (re_capability r) else None)"
    using capability_round_trip(1) [OF assms(1,3)]
    by (simp add: node_capability_from_json_def obj f node_fields_def capability_field_def)
  have hc: "js_find J d ''hop_count'' = Some (js_u64 J (ucast (re_hop_count r)))"
    by (simp add: f node_fields_def capability_field_def t)
  let ?h = "ucast (ucast (re_hop_count r) :: u64) :: u32"
  have r: "unat (re_hop_count r) < 256" using unsigned_less [of "re_hop_count r", where 'a = nat] by simp
  moreover from this have "unat (ucast (re_hop_count r) :: u64) = unat (re_hop_count r)"
    by (simp add: unsigned_ucast_eq take_bit_nat_eq_self_iff)
  ultimately have h: "unat ?h = unat (re_hop_count r)"
    by (simp only: unsigned_ucast_eq [of "ucast (re_hop_count r) :: u64"]) (simp add: take_bit_nat_eq_self_iff)
  then have "min ?h 255 = ?h" using r by (simp add: min_def word_le_nat_alt)
  moreover have "unat (ucast ?h :: u8) = unat (re_hop_count r)"
    using h r by (simp only: unsigned_ucast_eq [of ?h]) (simp add: take_bit_nat_eq_self_iff)
  then have "(ucast ?h :: u8) = re_hop_count r" by (simp only: word_unat_eq_iff)
  ultimately show "route_hop_count_from_json J d = Some (re_hop_count r)"
    using js_value_found(3) [OF assms(1) obj hc] json_build(12) [OF assms(1)] by (simp add: route_hop_count_from_json_def)
qed

end
