(* ===== verification/RouteFile.thy ===== *)
theory RouteFile
  imports DiscoveryJsonProps
begin

text \<open>
  The file of the route table (\<open>load_json_file\<close> and \<open>save_json_file\<close> of
  \<open>iota_proxy/src/discovery/RouteManager.cpp\<close>). Reading the file is an argument: \<open>None\<close> if it
  cannot be opened, \<open>Some None\<close> if its text does not parse. The file system is a map from paths to
  contents; the answers of its operations are arguments.
\<close>

section \<open>Loading\<close>

text \<open>The source of an entry: what \<open>node_from_json\<close> stored, and whether it counts.\<close>

definition load_source :: "'j json_lib \<Rightarrow> KcpConv \<Rightarrow> KcpConv \<Rightarrow> 'j \<Rightarrow> NodeAddress \<times> bool" where
  "load_source J local_id nid item =
     (case js_find J item ''source'' of
        None \<Rightarrow> (NodeAddress_init, False)
      | Some v \<Rightarrow>
          (case route_node_from_json J v of
             None \<Rightarrow> (NodeAddress_init, False)
           | Some src \<Rightarrow> (src, node_id src \<noteq> nid \<and> node_id src \<noteq> local_id)))"

text \<open>One item: \<open>None\<close> if reading it throws, \<open>Some None\<close> if it is skipped.\<close>

definition load_entry ::
  "'j json_lib \<Rightarrow> RouteManagerConfig \<Rightarrow> int \<Rightarrow> KcpConv \<Rightarrow> 'j \<Rightarrow> RouteEntry option option" where
  "load_entry J config now_ms local_id item =
     (case (if js_is_object J item then js_find J item ''node'' else None) of
        None \<Rightarrow> Some None
      | Some nd \<Rightarrow>
          (case route_node_from_json J nd of
             None \<Rightarrow> Some None
           | Some node \<Rightarrow>
               if node_id node = local_id \<or> conv_empty (node_id node) then Some None
               else do {
                 state_text \<leftarrow> js_value_string J item ''state'' ''new'';
                 attempts \<leftarrow> js_value_u32 J item ''attempts'' 0;
                 failures \<leftarrow> js_value_u32 J item ''failures'' 0;
                 capability \<leftarrow> (case js_find J item ''capability'' of
                   None \<Rightarrow> Some None | Some v \<Rightarrow> route_capability_from_json J v);
                 hops \<leftarrow> js_value_u32 J item ''hop_count'' 0;
                 seen \<leftarrow> js_value_i64 J item ''last_seen_ms'' now_ms;
                 tried \<leftarrow> js_value_i64 J item ''last_try_ms'' 0;
                 success \<leftarrow> js_value_i64 J item ''last_success_ms'' 0;
                 let (source, has_source) = load_source J local_id (node_id node) item;
                 let entry = RouteEntry_init\<lparr>re_node := node, re_state := route_state_from_string state_text,
                       re_attempts := attempts, re_failures := failures,
                       re_capability := (case capability of None \<Rightarrow> NodeCapability_init | Some c \<Rightarrow> c),
                       re_hop_count := ucast (min hops (ucast (max_route_hops config))),
                       re_last_seen_ms := seen, re_last_try_ms := tried, re_last_success_ms := success,
                       re_source := source, re_has_source := has_source\<rparr>;
                 let entry = (if re_last_seen_ms entry = 0 then entry\<lparr>re_last_seen_ms := now_ms\<rparr> else entry);
                 let entry = (if re_state entry = Tried \<and> re_last_success_ms entry = 0
                              then entry\<lparr>re_state := New\<rparr> else entry);
                 Some (if re_hop_count entry > max_route_hops config then None else Some entry)
               }))"

fun load_entries ::
  "'j json_lib \<Rightarrow> layout \<Rightarrow> int \<Rightarrow> KcpConv \<Rightarrow> 'j list \<Rightarrow> RouteManager \<Rightarrow> RouteManager option" where
  "load_entries J lay now_ms local_id [] s = Some s"
| "load_entries J lay now_ms local_id (item # items) s =
     (case load_entry J (rm_config s) now_ms local_id item of
        None \<Rightarrow> None
      | Some None \<Rightarrow> load_entries J lay now_ms local_id items s
      | Some (Some entry) \<Rightarrow>
          load_entries J lay now_ms local_id items
            (s\<lparr>routes := um_assign lay (node_id (re_node entry)) entry (routes s)\<rparr>))"

definition load_json_file ::
  "'j json_lib \<Rightarrow> pow_fun \<Rightarrow> layout \<Rightarrow> int \<Rightarrow> string \<Rightarrow> 'j option option \<Rightarrow> KcpConv \<Rightarrow> RouteManager \<Rightarrow>
   (bool \<times> RouteManager) option" where
  "load_json_file J pow lay now_ms path file local_id s =
     (if path = [] then Some (True, s)
      else case file of
             None \<Rightarrow> Some (True, s)
           | Some None \<Rightarrow> Some (False, s)
           | Some (Some doc) \<Rightarrow>
               if \<not> js_is_object J doc then Some (False, s)
               else do {
                 version \<leftarrow> js_value_int J doc ''version'' 0;
                 case (if version \<noteq> 1 then None else js_find J doc ''entries'') of
                   None \<Rightarrow> Some (False, s)
                 | Some entries \<Rightarrow>
                     if \<not> js_is_array J entries then Some (False, s)
                     else do {
                       s' \<leftarrow> load_entries J lay now_ms local_id (js_elems J entries) s;
                       Some (True, trim_if_needed pow now_ms s')
                     }
               })"

section \<open>Saving\<close>

definition route_fields :: "'j json_lib \<Rightarrow> RouteEntry \<Rightarrow> (string \<times> 'j) list" where
  "route_fields J entry =
     [(''node'', route_node_to_json J (re_node entry)),
      (''state'', js_str J (route_state_to_string (re_state entry))),
      (''attempts'', js_u64 J (ucast (re_attempts entry))), (''failures'', js_u64 J (ucast (re_failures entry)))] @
     (if cap_present (re_capability entry)
      then [(''capability'', capability_to_json J (re_capability entry))] else []) @
     [(''hop_count'', js_u64 J (ucast (re_hop_count entry))), (''last_seen_ms'', js_i64 J (re_last_seen_ms entry)),
      (''last_try_ms'', js_i64 J (re_last_try_ms entry)),
      (''last_success_ms'', js_i64 J (re_last_success_ms entry))] @
     (if re_has_source entry \<and> valid_route_node (re_source entry)
      then [(''source'', route_node_to_json J (re_source entry))] else [])"

definition saved_entries :: "'j json_lib \<Rightarrow> KcpConv \<Rightarrow> RouteManager \<Rightarrow> 'j list" where
  "saved_entries J local_id s =
     map (\<lambda>(_, entry). js_object J (js_null J) (route_fields J entry))
       (filter (\<lambda>(_, entry). \<not> (node_id (re_node entry) = local_id \<or> \<not> valid_route_node (re_node entry))) (routes s))"

definition saved_doc :: "'j json_lib \<Rightarrow> KcpConv \<Rightarrow> RouteManager \<Rightarrow> 'j" where
  "saved_doc J local_id s =
     js_object J (js_null J) [(''version'', js_i64 J 1), (''entries'', js_array J (saved_entries J local_id s))]"

text \<open>\<open>parent_path\<close>: what precedes the last slash, without the slashes that separate it.\<close>

definition parent_path :: "string \<Rightarrow> string" where
  "parent_path path =
     (let upto = dropWhile (\<lambda>c. c \<noteq> CHR ''/'') (rev path); bare = dropWhile (\<lambda>c. c = CHR ''/'') upto
      in if upto = [] then [] else if bare = [] then ''/'' else rev bare)"

record save_answers =
  sa_mkdir :: bool
  sa_open :: bool
  sa_write :: "string option"    \<comment> \<open>\<open>None\<close> when all was written, otherwise what is in the file\<close>
  sa_rename :: bool
  sa_pid :: nat

type_synonym file_system = "string \<rightharpoonup> string"

text \<open>\<open>pretty\<close> is \<open>dump(2)\<close>.\<close>

definition save_json_file ::
  "'j json_lib \<Rightarrow> ('j \<Rightarrow> string) \<Rightarrow> save_answers \<Rightarrow> string \<Rightarrow> KcpConv \<Rightarrow> RouteManager \<Rightarrow> file_system \<Rightarrow>
   bool \<times> file_system" where
  "save_json_file J pretty a path local_id s fs =
     (if path = [] then (True, fs)
      else if parent_path path \<noteq> [] \<and> \<not> sa_mkdir a then (False, fs)
      else
        let temp = path @ ''.tmp.'' @ to_string (sa_pid a);
            content = pretty (saved_doc J local_id s) @ [char_of (10 :: nat)]
        in if \<not> sa_open a then (False, fs)
           else case sa_write a of
                  Some part \<Rightarrow> (False, fs(temp \<mapsto> part))
                | None \<Rightarrow>
                    if sa_rename a then (True, (fs(temp := None))(path \<mapsto> content))
                    else (False, fs(temp := None)))"

end
