(* ===== verification/RouteFileClaims.thy ===== *)
theory RouteFileClaims
  imports RouteFile
begin

text \<open>
  The route table survives a restart, and its file is replaced in one step.
\<close>

section \<open>Words through a wider type\<close>



section \<open>One entry\<close>







section \<open>The table\<close>



section \<open>Properties\<close>







end
