(* ===== verification/Outcome.thy ===== *)
theory Outcome
  imports Prelude
begin

text \<open>
  How a call of a component ends: waiting for the peer, with an exception that leaves the function, or with a
  result.
\<close>

datatype 'a outcome = Blocked | Threw | Done 'a

definition obind :: "'a outcome \<Rightarrow> ('a \<Rightarrow> 'b outcome) \<Rightarrow> 'b outcome" where
  "obind x f = (case x of Blocked \<Rightarrow> Blocked | Threw \<Rightarrow> Threw | Done a \<Rightarrow> f a)"

definition io :: "'a option \<Rightarrow> 'a outcome" where
  "io x = (case x of None \<Rightarrow> Blocked | Some a \<Rightarrow> Done a)"

definition throwing :: "'a option \<Rightarrow> 'a outcome" where
  "throwing x = (case x of None \<Rightarrow> Threw | Some a \<Rightarrow> Done a)"

lemma obind_simps [simp]: "obind Blocked f = Blocked" "obind Threw f = Threw" "obind (Done a) f = f a"
  by (simp_all add: obind_def)

lemma obind_Done_iff: "obind x f = Done b \<longleftrightarrow> (\<exists>a. x = Done a \<and> f a = Done b)"
  by (cases x) simp_all

lemma io_throwing_simps [simp]:
  "io None = Blocked" "io (Some a) = Done a" "throwing None = Threw" "throwing (Some a) = Done a"
  by (simp_all add: io_def throwing_def)

text \<open>A call that works on a state.\<close>

type_synonym ('e, 'a) call = "'e \<Rightarrow> ('a \<times> 'e) outcome"

text \<open>A callback that may be unset, called for its effect.\<close>

definition opt_call :: "'f option \<Rightarrow> ('f \<Rightarrow> ('e, 'a) call) \<Rightarrow> ('e, unit) call" where
  "opt_call cb use e = (case cb of None \<Rightarrow> Done ((), e) | Some f \<Rightarrow> obind (use f e) (\<lambda>(_, e'). Done ((), e')))"

lemma opt_call_simps [simp]:
  "opt_call None use e = Done ((), e)" "opt_call (Some f) use e = obind (use f e) (\<lambda>(_, e'). Done ((), e'))"
  by (simp_all add: opt_call_def)

end
