(* ===== verification/Discovery.thy ===== *)
theory Discovery
  imports RouteFile Sockets Outcome
begin

text \<open>
  The discovery service (\<open>iota_proxy/src/discovery/DiscoveryService.cpp\<close>): signed hello messages
  over TCP, the exchange of routes, the negotiation of KCP links and the control messages. The
  route table is the component \<open>RouteManager\<close>. What the service calls back (clock, random bytes,
  KCP links, broadcasts, capability and admission) is the environment \<open>'e\<close>, with one function for
  each callback; the libraries (JSON, OpenSSL, \<open>inet_pton\<close>, the hash table's layout, the shuffle
  and \<open>std::pow\<close>) are a record of functions. Socket input and output are as in \<open>Sockets\<close>.
\<close>

section \<open>Data\<close>

record DiscoveryConfig =
  dc_identity :: NodeIdentity
  dc_local_endpoint :: Ipv4Endpoint
  dc_bootstrap_nodes :: "NodeAddress list"
  dc_max_kcp_links :: nat
  dc_listen_backlog :: int
  dc_route_feeler_interval_seconds :: u32
  dc_route_table_file :: string
  dc_route_manager :: RouteManagerConfig

record DiscoveryService =
  ds_config :: DiscoveryConfig
  ds_running :: bool
  ds_listen_fd :: int
  ds_threads :: bool
  ds_routes :: RouteManager

record 'e disc_env =
  cb_now :: "'e \<Rightarrow> int \<times> 'e"                                      \<comment> \<open>\<open>route_time_now_ms\<close>\<close>
  cb_rand :: "'e \<Rightarrow> Key256 option \<times> 'e"                           \<comment> \<open>\<open>RAND_bytes\<close>\<close>
  cb_link :: "(NodeAddress \<Rightarrow> KcpConv \<Rightarrow> 'e \<Rightarrow> bool \<times> 'e) option"   \<comment> \<open>\<open>kcp_link_callback_\<close>\<close>
  cb_broadcast :: "(bytes \<Rightarrow> 'e \<Rightarrow> 'e) option"                     \<comment> \<open>\<open>control_broadcast_\<close>\<close>
  cb_capability :: "('e \<Rightarrow> NodeCapability \<times> 'e) option"           \<comment> \<open>\<open>capability_provider_\<close>\<close>
  cb_admission :: "(NodeAddress \<Rightarrow> 'e \<Rightarrow> bool \<times> 'e) option"        \<comment> \<open>\<open>kcp_admission_callback_\<close>\<close>

record 'j disc_lib =
  dl_json :: "'j json_lib"
  dl_pton :: "string \<Rightarrow> 4 barr option"
  dl_pow :: pow_fun
  dl_lay :: layout
  dl_shuffle :: "RouteEntry list \<Rightarrow> RouteEntry list"
  dl_rng :: "nat \<Rightarrow> u64"
  dl_sign :: "Key256 \<Rightarrow> bytes \<Rightarrow> Signature512 option"       \<comment> \<open>\<open>sign_node_message\<close>\<close>
  dl_verify :: "Key256 \<Rightarrow> bytes \<Rightarrow> Signature512 \<Rightarrow> bool"     \<comment> \<open>\<open>verify_node_message\<close>\<close>

datatype ds_action =
    DsSend int bytes
  | DsClose int
  | DsShutdown int
  | DsListen int
  | DsSession int string
  | DsJoin

text \<open>The service and its environment.\<close>

type_synonym 'e world = "DiscoveryService \<times> 'e"

section \<open>Lines\<close>

definition ds_write_all :: "sys_answers \<Rightarrow> bytes \<Rightarrow> (bool \<times> bytes \<times> sys_answers) option" where
  "ds_write_all = write_all"

definition write_json_line ::
  "'j json_lib \<Rightarrow> 'j \<Rightarrow> sys_answers \<Rightarrow> (bool \<times> bytes \<times> sys_answers) option" where
  "write_json_line J doc w = ds_write_all w (str_bytes (js_dump J doc @ [char_of (10 :: nat)]))"

fun ds_read_line :: "bytes \<Rightarrow> sys_answers \<Rightarrow> (bytes option \<times> sys_answers) option" where
  "ds_read_line out [] = None"
| "ds_read_line out (a # w) =
     (case a of
        Interrupted \<Rightarrow> ds_read_line out w
      | Received bs \<Rightarrow>
          if bs = [] then Some (if out = [] then None else Some out, w)
          else if hd bs = 10 then Some (Some out, w)
          else if length out > 1024 * 1024 then Some (None, w)
          else ds_read_line (out @ [hd bs]) w
      | _ \<Rightarrow> Some (None, w))"

section \<open>Connecting\<close>

text \<open>The answers to \<open>socket\<close> and \<open>connect\<close>, then to the calls on the connection.\<close>

record dial_answers =
  da_socket :: int
  da_connect :: bool
  da_io :: sys_answers

definition ds_connect_tcp :: "(string \<Rightarrow> 4 barr option) \<Rightarrow> Ipv4Endpoint \<Rightarrow> dial_answers \<Rightarrow> int \<times> ds_action list" where
  "ds_connect_tcp pton endpoint a =
     (if da_socket a < 0 then (-1, [])
      else case make_sockaddr pton endpoint of
             None \<Rightarrow> (-1, [DsClose (da_socket a)])
           | Some _ \<Rightarrow> if \<not> da_connect a then (-1, [DsClose (da_socket a)]) else (da_socket a, []))"

record listen_answers =
  la_socket :: int
  la_bind :: bool
  la_listen :: bool

definition create_tcp_listener ::
  "(string \<Rightarrow> 4 barr option) \<Rightarrow> Ipv4Endpoint \<Rightarrow> listen_answers \<Rightarrow> int \<times> ds_action list" where
  "create_tcp_listener pton endpoint a =
     (if la_socket a < 0 then (-1, [])
      else if \<not> (ep_host endpoint = [] \<or> ep_host endpoint = ''0.0.0.0'') \<and> pton (c_str (ep_host endpoint)) = None
      then (-1, [DsClose (la_socket a)])
      else if \<not> la_bind a \<or> \<not> la_listen a then (-1, [DsClose (la_socket a)])
      else (la_socket a, [DsListen (la_socket a)]))"

section \<open>Hello messages\<close>

definition kHelloClockSkewMs :: int where
  "kHelloClockSkewMs = 10 * 60 * 1000"

definition nl :: string where
  "nl = [char_of (10 :: nat)]"

definition hello_signing_payload :: "NodeAddress \<Rightarrow> KcpConv \<Rightarrow> int \<Rightarrow> string \<Rightarrow> string" where
  "hello_signing_payload node target_id timestamp_ms nonce_hex =
     ''iota-discovery-v1'' @ nl @ convid_to_hex target_id @ nl @ convid_to_hex (node_id node) @ nl @
     ep_host (node_endpoint node) @ nl @ to_string (unat (ep_port (node_endpoint node))) @ nl @
     to_string_int timestamp_ms @ nl @ nonce_hex"

definition self_node :: "DiscoveryConfig \<Rightarrow> NodeAddress" where
  "self_node config = \<lparr>node_endpoint = dc_local_endpoint config, node_id = identity_id (dc_identity config)\<rparr>"

text \<open>The fields added to a hello, \<open>None\<close> if there are no random bytes or no signature.\<close>

definition attach_hello_signature ::
  "'j disc_lib \<Rightarrow> 'e disc_env \<Rightarrow> DiscoveryConfig \<Rightarrow> NodeAddress \<Rightarrow> KcpConv \<Rightarrow> 'e \<Rightarrow>
   (string \<times> 'j) list option \<times> 'e" where
  "attach_hello_signature L E config node target_id e =
     (case cb_rand E e of
        (None, e) \<Rightarrow> (None, e)
      | (Some nonce, e) \<Rightarrow>
          let (timestamp_ms, e) = cb_now E e;
              nonce_hex = hex_256 nonce;
              payload = hello_signing_payload node target_id timestamp_ms nonce_hex
          in (case dl_sign L (private_key (key_pair (dc_identity config))) (str_bytes payload) of
                None \<Rightarrow> (None, e)
              | Some signature \<Rightarrow>
                  (Some [(''timestamp_ms'', js_i64 (dl_json L) timestamp_ms), (''nonce'', js_str (dl_json L) nonce_hex),
                         (''signature'', js_str (dl_json L) (hex_512 signature))], e)))"

text \<open>The three signed fields with the types the check asks for.\<close>

definition hello_fields :: "'j json_lib \<Rightarrow> 'j \<Rightarrow> (int \<times> string \<times> string) option" where
  "hello_fields J hello =
     (case (js_find J hello ''timestamp_ms'', js_find J hello ''nonce'', js_find J hello ''signature'') of
        (Some t, Some n, Some sg) \<Rightarrow>
          if \<not> js_is_integer J t \<or> \<not> js_is_string J n \<or> \<not> js_is_string J sg then None
          else (case (js_to_i64 J t, js_to_string J n, js_to_string J sg) of
                  (Some timestamp_ms, Some nonce_hex, Some sig_hex) \<Rightarrow> Some (timestamp_ms, nonce_hex, sig_hex)
                | _ \<Rightarrow> None)
      | _ \<Rightarrow> None)"

definition check_hello ::
  "'j disc_lib \<Rightarrow> DiscoveryConfig \<Rightarrow> NodeAddress \<Rightarrow> int \<Rightarrow> int \<times> string \<times> string \<Rightarrow> bool" where
  "check_hello L config peer now_ms hf =
     (let (timestamp_ms, nonce_hex, sig_hex) = hf
      in if timestamp_ms < now_ms - kHelloClockSkewMs \<or> timestamp_ms > now_ms + kHelloClockSkewMs then False
         else if parse_hex_256 nonce_hex = None then False
         else case (parse_hex_512 sig_hex, public_key_from_node_id (node_id peer)) of
                (Some signature, Some key) \<Rightarrow>
                  dl_verify L key
                    (str_bytes (hello_signing_payload peer (identity_id (dc_identity config)) timestamp_ms nonce_hex)) signature
              | _ \<Rightarrow> False)"

definition verify_hello_signature ::
  "'j disc_lib \<Rightarrow> 'e disc_env \<Rightarrow> 'j \<Rightarrow> DiscoveryConfig \<Rightarrow> NodeAddress \<Rightarrow> 'e \<Rightarrow> bool \<times> 'e" where
  "verify_hello_signature L E hello config peer e =
     (case hello_fields (dl_json L) hello of
        None \<Rightarrow> (False, e)
      | Some hf \<Rightarrow> let (now_ms, e) = cb_now E e in (check_hello L config peer now_ms hf, e))"

definition local_capability :: "'e disc_env \<Rightarrow> 'e \<Rightarrow> NodeCapability \<times> 'e" where
  "local_capability E e =
     (case cb_capability E of
        Some provider \<Rightarrow>
          let (capability, e) = provider e; capability = capability\<lparr>cap_present := True\<rparr>
          in if cap_updated_at_ms capability = 0
             then (let (now_ms, e) = cb_now E e in (capability\<lparr>cap_updated_at_ms := now_ms\<rparr>, e))
             else (capability, e)
      | None \<Rightarrow>
          let (now_ms, e) = cb_now E e
          in (NodeCapability_init\<lparr>cap_present := True, cap_updated_at_ms := now_ms\<rparr>, e))"

definition route_manager_config :: "DiscoveryConfig \<Rightarrow> RouteManagerConfig" where
  "route_manager_config config = (dc_route_manager config)\<lparr>max_kcp_links := dc_max_kcp_links config\<rparr>"

definition encode_ipv4_endpoint_half :: "(string \<Rightarrow> 4 barr option) \<Rightarrow> Ipv4Endpoint \<Rightarrow> bytes" where
  "encode_ipv4_endpoint_half pton endpoint =
     (case pton (c_str (ep_host endpoint)) of None \<Rightarrow> replicate 4 0 | Some addr \<Rightarrow> arr_bytes addr) @
     [ucast (drop_bit 8 (ep_port endpoint)), ucast (ep_port endpoint)] @ replicate 10 0"

definition derive_kcp_convid :: "(string \<Rightarrow> 4 barr option) \<Rightarrow> Ipv4Endpoint \<Rightarrow> Ipv4Endpoint \<Rightarrow> KcpConv" where
  "derive_kcp_convid pton peer local =
     arr_of (encode_ipv4_endpoint_half pton peer @ encode_ipv4_endpoint_half pton local)"

definition DiscoveryService_init :: "DiscoveryConfig \<Rightarrow> DiscoveryService" where
  "DiscoveryService_init config =
     \<lparr>ds_config = config, ds_running = False, ds_listen_fd = -1, ds_threads = False,
      ds_routes = RouteManager_init (route_manager_config config)\<rparr>"

section \<open>Calls on the route table\<close>

text \<open>Each call of the table reads the clock.\<close>

definition at_now :: "'e disc_env \<Rightarrow> (int \<Rightarrow> RouteManager \<Rightarrow> bool \<times> RouteManager) \<Rightarrow> 'e world \<Rightarrow> 'e world" where
  "at_now E f x =
     (let (s, e) = x; (now_ms, e) = cb_now E e
      in (s\<lparr>ds_routes := snd (f now_ms (ds_routes s))\<rparr>, e))"

definition ds_add_route ::
  "'j disc_lib \<Rightarrow> 'e disc_env \<Rightarrow> NodeAddress \<Rightarrow> NodeAddress option \<Rightarrow> bool \<Rightarrow> u8 \<Rightarrow> NodeCapability option \<Rightarrow>
   'e world \<Rightarrow> 'e world" where
  "ds_add_route L E node source kcp_connected advertised_hop_count capability x =
     (if ep_host (node_endpoint node) = [] \<or> ep_port (node_endpoint node) = 0 \<or> conv_empty (node_id node) \<or>
         node_id node = identity_id (dc_identity (ds_config (fst x)))
      then x
      else at_now E (\<lambda>now_ms. add_route (dl_pow L) (dl_lay L) now_ms node source kcp_connected
                               advertised_hop_count capability) x)"

definition ds_mark_attempt :: "'e disc_env \<Rightarrow> KcpConv \<Rightarrow> 'e world \<Rightarrow> 'e world" where
  "ds_mark_attempt E nid = at_now E (\<lambda>now_ms. mark_attempt now_ms nid)"

definition ds_mark_success :: "'e disc_env \<Rightarrow> KcpConv \<Rightarrow> bool \<Rightarrow> 'e world \<Rightarrow> 'e world" where
  "ds_mark_success E nid kcp_connected = at_now E (\<lambda>now_ms. mark_success now_ms nid kcp_connected)"

definition ds_mark_failure :: "'e disc_env \<Rightarrow> KcpConv \<Rightarrow> 'e world \<Rightarrow> 'e world" where
  "ds_mark_failure E nid = at_now E (\<lambda>now_ms. mark_failure now_ms nid)"

definition announce_route :: "'j disc_lib \<Rightarrow> 'e disc_env \<Rightarrow> RouteEntry \<Rightarrow> 'e world \<Rightarrow> 'e world" where
  "announce_route L E route x =
     (case cb_broadcast E of
        None \<Rightarrow> x
      | Some broadcast \<Rightarrow>
          let J = dl_json L;
              message = js_object J (js_null J) [(''type'', js_str J ''node''), (''node'', route_to_json J route)]
          in (fst x, broadcast (str_bytes (js_dump J message)) (snd x)))"

text \<open>The announcement of a node that has just been connected.\<close>

definition announce_connected :: "'j disc_lib \<Rightarrow> 'e disc_env \<Rightarrow> KcpConv \<Rightarrow> 'e world \<Rightarrow> 'e world" where
  "announce_connected L E nid x =
     (case find_route nid (ds_routes (fst x)) of None \<Rightarrow> x | Some entry \<Rightarrow> announce_route L E entry x)"

section \<open>Serving a session\<close>

definition routes_message :: "'j json_lib \<Rightarrow> KcpConv \<Rightarrow> RouteEntry list \<Rightarrow> 'j" where
  "routes_message J self snapshot =
     js_object J (js_null J) [(''type'', js_str J ''routes''),
       (''entries'', js_array J (map (route_to_json J) (filter (\<lambda>entry. node_id (re_node entry) \<noteq> self) snapshot)))]"

definition send_routes ::
  "'j disc_lib \<Rightarrow> 'e disc_env \<Rightarrow> int \<Rightarrow> sys_answers \<Rightarrow> 'e world \<Rightarrow> (ds_action list \<times> sys_answers \<times> 'e world) outcome" where
  "send_routes L E fd w x =
     (let (s, e) = x; (now_ms, e) = cb_now E e;
          message = routes_message (dl_json L) (identity_id (dc_identity (ds_config s)))
                      (select_routes_for_response (dl_shuffle L) now_ms (ds_routes s))
      in obind (io (write_json_line (dl_json L) message w)) (\<lambda>(_, sent, w'). Done ([DsSend fd sent], w', (s, e))))"

definition reject_message :: "'j json_lib \<Rightarrow> 'j" where
  "reject_message J =
     js_object J (js_null J) [(''type'', js_str J ''admission_rejected''), (''reason'', js_str J ''kcp capacity exhausted'')]"

definition conv_message :: "'j json_lib \<Rightarrow> NodeAddress \<Rightarrow> NodeCapability \<Rightarrow> KcpConv \<Rightarrow> 'j" where
  "conv_message J self capability conv =
     js_object J (js_null J) [(''type'', js_str J ''kcp_conv''), (''node'', node_to_json J self (Some capability)),
       (''convid'', js_str J (convid_to_hex conv))]"

text \<open>\<open>Some True\<close> or an unset callback let the link go on.\<close>

definition ask_admission :: "'e disc_env \<Rightarrow> NodeAddress \<Rightarrow> 'e \<Rightarrow> bool \<times> 'e" where
  "ask_admission E peer e = (case cb_admission E of None \<Rightarrow> (True, e) | Some admit \<Rightarrow> admit peer e)"

definition ask_link :: "'e disc_env \<Rightarrow> NodeAddress \<Rightarrow> KcpConv \<Rightarrow> 'e \<Rightarrow> bool \<times> 'e" where
  "ask_link E peer conv e = (case cb_link E of None \<Rightarrow> (True, e) | Some link \<Rightarrow> link peer conv e)"

definition negotiate_kcp_link ::
  "'j disc_lib \<Rightarrow> 'e disc_env \<Rightarrow> NodeAddress \<Rightarrow> int \<Rightarrow> sys_answers \<Rightarrow> 'e world \<Rightarrow>
   (ds_action list \<times> sys_answers \<times> 'e world) outcome" where
  "negotiate_kcp_link L E peer fd w x =
     (let J = dl_json L; (s, e) = x in
      if \<not> can_add_kcp_link (ds_routes s) then Done ([], w, x)
      else
        let (admitted, e) = ask_admission E peer e
        in if \<not> admitted
           then obind (io (write_json_line J (reject_message J) w)) (\<lambda>(_, sent, w'). Done ([DsSend fd sent], w', (s, e)))
           else
             let conv = derive_kcp_convid (dl_pton L) (node_endpoint peer) (dc_local_endpoint (ds_config s));
                 (linked, e) = ask_link E peer conv e
             in if \<not> linked then Done ([], w, ds_mark_failure E (node_id peer) (s, e))
                else
                  let x = announce_connected L E (node_id peer)
                            (ds_mark_success E (node_id peer) True (ds_add_route L E peer None True 0 None (s, e)));
                      (capability, e) = local_capability E (snd x)
                  in obind (io (write_json_line J (conv_message J (self_node (ds_config s)) capability conv) w))
                       (\<lambda>(_, sent, w'). Done ([DsSend fd sent], w', (fst x, e))))"

text \<open>The tests on the head of a hello; reading a field of the wrong type throws.\<close>

definition hello_head :: "'j json_lib \<Rightarrow> DiscoveryConfig \<Rightarrow> 'j \<Rightarrow> bool option" where
  "hello_head J config hello =
     (if \<not> js_is_object J hello then Some False
      else do {
        type \<leftarrow> js_value_string J hello ''type'' [];
        if type \<noteq> ''hello'' then Some False
        else do {
          version \<leftarrow> js_value_int J hello ''version'' 0;
          if version \<noteq> 1 then Some False
          else do {
            target \<leftarrow> js_value_string J hello ''target_public_key'' [];
            Some (target = convid_to_hex (identity_id (dc_identity config)))
          }
        }
      })"

definition fix_host :: "string \<Rightarrow> NodeAddress \<Rightarrow> NodeAddress" where
  "fix_host host_text peer =
     (if ep_host (node_endpoint peer) = [] \<or> ep_host (node_endpoint peer) = ''0.0.0.0''
      then peer\<lparr>node_endpoint := (node_endpoint peer)\<lparr>ep_host := host_text\<rparr>\<rparr> else peer)"

text \<open>What follows a hello that was accepted.\<close>

definition welcome_peer ::
  "'j disc_lib \<Rightarrow> 'e disc_env \<Rightarrow> int \<Rightarrow> NodeAddress \<Rightarrow> NodeCapability option \<Rightarrow> sys_answers \<Rightarrow> 'e world \<Rightarrow>
   (ds_action list \<times> 'e world) outcome" where
  "welcome_peer L E fd peer capability w x =
     obind (send_routes L E fd w (ds_add_route L E peer None False 0 capability x))
       (\<lambda>(acts, w', x'). obind (negotiate_kcp_link L E peer fd w' x')
         (\<lambda>(acts', _, x''). Done (acts @ acts' @ [DsClose fd], x'')))"

definition handle_tcp_session ::
  "'j disc_lib \<Rightarrow> 'e disc_env \<Rightarrow> int \<Rightarrow> string \<Rightarrow> sys_answers \<Rightarrow> 'e world \<Rightarrow> (ds_action list \<times> 'e world) outcome" where
  "handle_tcp_session L E fd remote_host w x =
     obind (io (ds_read_line [] w)) (\<lambda>(line, w').
       let J = dl_json L; config = ds_config (fst x); refuse = Done ([DsClose fd], x) in
       case line of
         None \<Rightarrow> refuse
       | Some text \<Rightarrow>
           (case js_parse J (bytes_str text) of
              None \<Rightarrow> refuse
            | Some hello \<Rightarrow>
                obind (throwing (hello_head J config hello)) (\<lambda>ok.
                  if \<not> ok then refuse
                  else case js_find J hello ''node'' of
                         None \<Rightarrow> refuse
                       | Some nd \<Rightarrow>
                           (case node_from_json J nd of
                              None \<Rightarrow> refuse
                            | Some peer \<Rightarrow>
                                obind (throwing (node_capability_from_json J nd)) (\<lambda>capability.
                                  let (valid, e) = verify_hello_signature L E hello config peer (snd x)
                                  in if \<not> valid then Done ([DsClose fd], (fst x, e))
                                     else welcome_peer L E fd (fix_host remote_host peer) capability w' (fst x, e))))))"

section \<open>Connecting to a node\<close>

text \<open>A node in a message: nothing if it does not parse, otherwise a route learnt from \<open>source\<close>.\<close>

definition learn_route ::
  "'j disc_lib \<Rightarrow> 'e disc_env \<Rightarrow> NodeAddress option \<Rightarrow> 'j \<Rightarrow> 'e world \<Rightarrow> 'e world outcome" where
  "learn_route L E source item x =
     (let J = dl_json L in
      case node_from_json J item of
        None \<Rightarrow> Done x
      | Some route \<Rightarrow>
          obind (throwing (node_capability_from_json J item)) (\<lambda>capability.
            obind (throwing (route_hop_count_from_json J item)) (\<lambda>hops.
              Done (ds_add_route L E route source False hops capability x))))"

fun learn_routes ::
  "'j disc_lib \<Rightarrow> 'e disc_env \<Rightarrow> NodeAddress option \<Rightarrow> 'j list \<Rightarrow> 'e world \<Rightarrow> 'e world outcome" where
  "learn_routes L E source [] x = Done x"
| "learn_routes L E source (item # items) x = obind (learn_route L E source item x) (learn_routes L E source items)"

definition link_conv ::
  "'j disc_lib \<Rightarrow> 'e disc_env \<Rightarrow> NodeAddress \<Rightarrow> NodeAddress \<Rightarrow> NodeCapability option \<Rightarrow> KcpConv \<Rightarrow> 'e world \<Rightarrow> 'e world" where
  "link_conv L E node peer capability conv x =
     (let (linked, e) = (case cb_link E of None \<Rightarrow> (False, snd x) | Some link \<Rightarrow> link peer conv (snd x));
          x = (fst x, e)
      in if linked
         then announce_connected L E (node_id peer) (ds_mark_success E (node_id peer) True
                (ds_add_route L E peer (Some node) True 0 capability x))
         else ds_mark_failure E (node_id peer) x)"

definition accept_conv ::
  "'j disc_lib \<Rightarrow> 'e disc_env \<Rightarrow> NodeAddress \<Rightarrow> 'j \<Rightarrow> 'e world \<Rightarrow> 'e world outcome" where
  "accept_conv L E node message x =
     (let J = dl_json L in
      case js_find J message ''node'' of
        None \<Rightarrow> Done x
      | Some nd \<Rightarrow>
          (case (node_from_json J nd, js_find J message ''convid'') of
             (Some peer, Some cv) \<Rightarrow>
               (case (if js_is_string J cv then Option.bind (js_to_string J cv) parse_convid_hex else None) of
                  None \<Rightarrow> Done x
                | Some conv \<Rightarrow>
                    obind (throwing (node_capability_from_json J nd)) (\<lambda>capability.
                      let peer = fix_host (ep_host (node_endpoint node)) peer;
                          peer = (if ep_port (node_endpoint peer) = 0
                                  then peer\<lparr>node_endpoint := (node_endpoint peer)\<lparr>ep_port := ep_port (node_endpoint node)\<rparr>\<rparr>
                                  else peer)
                      in Done (link_conv L E node peer capability conv x)))
           | _ \<Rightarrow> Done x))"

definition bootstrap_message ::
  "'j disc_lib \<Rightarrow> 'e disc_env \<Rightarrow> NodeAddress \<Rightarrow> 'j \<Rightarrow> 'e world \<Rightarrow> 'e world outcome" where
  "bootstrap_message L E node message x =
     (let J = dl_json L in
      obind (throwing (js_value_string J message ''type'' [])) (\<lambda>type.
        let entries = js_find J message ''entries'' in
        if type = ''routes'' \<and> entries \<noteq> None \<and> js_is_array J (the entries)
        then learn_routes L E (Some node) (js_elems J (the entries)) x
        else if type = ''node''
        then (case js_find J message ''node'' of None \<Rightarrow> Done x | Some nd \<Rightarrow> learn_route L E (Some node) nd x)
        else if type = ''kcp_conv'' then accept_conv L E node message x
        else Done x))"

lemma ds_read_line_shorter: "ds_read_line out w = Some (r, w') \<Longrightarrow> length w' < length w"
  by (induction out w rule: ds_read_line.induct) (auto split: sys_answer.splits if_splits)

text \<open>The loop over the lines of the peer, until the connection ends.\<close>

function bootstrap_read ::
  "'j disc_lib \<Rightarrow> 'e disc_env \<Rightarrow> NodeAddress \<Rightarrow> sys_answers \<Rightarrow> 'e world \<Rightarrow> 'e world outcome" where
  "bootstrap_read L E node w x =
     (case ds_read_line [] w of
        None \<Rightarrow> Blocked
      | Some (None, w') \<Rightarrow> Done x
      | Some (Some line, w') \<Rightarrow>
          (case js_parse (dl_json L) (bytes_str line) of
             None \<Rightarrow> bootstrap_read L E node w' x
           | Some message \<Rightarrow>
               (case bootstrap_message L E node message x of
                  Blocked \<Rightarrow> Blocked
                | Threw \<Rightarrow> Threw
                | Done x' \<Rightarrow> bootstrap_read L E node w' x')))"
  by pat_completeness auto

termination bootstrap_read
  by (relation "measure (\<lambda>(_, _, _, w, _). length w)") (auto dest: ds_read_line_shorter)

declare bootstrap_read.simps [simp del]

definition hello_message ::
  "'j json_lib \<Rightarrow> NodeAddress \<Rightarrow> NodeCapability \<Rightarrow> KcpConv \<Rightarrow> (string \<times> 'j) list \<Rightarrow> 'j" where
  "hello_message J self capability target_id signature =
     js_object J (js_null J) ([(''type'', js_str J ''hello''), (''version'', js_i64 J 1),
       (''target_public_key'', js_str J (convid_to_hex target_id)),
       (''node'', node_to_json J self (Some capability))] @ signature)"

definition connect_bootstrap_node ::
  "'j disc_lib \<Rightarrow> 'e disc_env \<Rightarrow> NodeAddress \<Rightarrow> dial_answers \<Rightarrow> 'e world \<Rightarrow> (ds_action list \<times> 'e world) outcome" where
  "connect_bootstrap_node L E node a x =
     (let J = dl_json L;
          x = ds_mark_attempt E (node_id node) (ds_add_route L E node None False 0 None x);
          (fd, cls) = ds_connect_tcp (dl_pton L) (node_endpoint node) a
      in if fd < 0 then Done (cls, ds_mark_failure E (node_id node) x)
         else
           let config = ds_config (fst x);
               (capability, e) = local_capability E (snd x)
           in case attach_hello_signature L E config (self_node config) (node_id node) e of
                (None, e) \<Rightarrow> Done ([DsClose fd], ds_mark_failure E (node_id node) (fst x, e))
              | (Some signature, e) \<Rightarrow>
                  obind (io (write_json_line J
                    (hello_message J (self_node config) capability (node_id node) signature) (da_io a)))
                  (\<lambda>(ok, sent, w).
                    if \<not> ok then Done ([DsSend fd sent, DsClose fd], ds_mark_failure E (node_id node) (fst x, e))
                    else obind (bootstrap_read L E node w (ds_mark_success E (node_id node) False (fst x, e)))
                           (\<lambda>x. Done ([DsSend fd sent, DsClose fd], x))))"

section \<open>Control messages\<close>

definition handle_control_json :: "'j disc_lib \<Rightarrow> 'e disc_env \<Rightarrow> string \<Rightarrow> 'e world \<Rightarrow> 'e world outcome" where
  "handle_control_json L E payload x =
     (let J = dl_json L in
      case js_parse J payload of
        None \<Rightarrow> Done x
      | Some message \<Rightarrow>
          obind (throwing (js_value_string J message ''type'' [])) (\<lambda>type.
            if type = ''node''
            then (case js_find J message ''node'' of None \<Rightarrow> Done x | Some nd \<Rightarrow> learn_route L E None nd x)
            else Done x))"

definition on_kcp_control :: "'j disc_lib \<Rightarrow> 'e disc_env \<Rightarrow> bytes \<Rightarrow> 'e world \<Rightarrow> 'e world outcome" where
  "on_kcp_control L E payload x = (if payload = [] then Done x else handle_control_json L E (bytes_str payload) x)"

section \<open>Threads\<close>

text \<open>The nodes of the configuration, one after the other; one list of answers for each attempt.\<close>

fun bootstrap_configured ::
  "'j disc_lib \<Rightarrow> 'e disc_env \<Rightarrow> NodeAddress list \<Rightarrow> dial_answers list \<Rightarrow> 'e world \<Rightarrow>
   (ds_action list \<times> dial_answers list \<times> 'e world) outcome" where
  "bootstrap_configured L E [] ds x = Done ([], ds, x)"
| "bootstrap_configured L E (node # nodes) ds x =
     (if \<not> ds_running (fst x) then Done ([], ds, x)
      else if node_id node = identity_id (dc_identity (ds_config (fst x))) then bootstrap_configured L E nodes ds x
      else case ds of
             [] \<Rightarrow> Blocked
           | d # ds' \<Rightarrow>
               obind (connect_bootstrap_node L E node d x) (\<lambda>(acts, x').
                 obind (bootstrap_configured L E nodes ds' x') (\<lambda>(acts', ds'', x''). Done (acts @ acts', ds'', x''))))"

definition persisted_less :: "RouteEntry \<Rightarrow> RouteEntry \<Rightarrow> bool" where
  "persisted_less lhs rhs =
     (if re_state lhs \<noteq> re_state rhs then re_state lhs = Tried
      else re_last_success_ms lhs > re_last_success_ms rhs)"

fun bootstrap_persisted ::
  "'j disc_lib \<Rightarrow> 'e disc_env \<Rightarrow> RouteEntry list \<Rightarrow> dial_answers list \<Rightarrow> 'e world \<Rightarrow>
   (ds_action list \<times> 'e world) outcome" where
  "bootstrap_persisted L E [] ds x = Done ([], x)"
| "bootstrap_persisted L E (entry # entries) ds x =
     (if \<not> ds_running (fst x) \<or> \<not> can_add_kcp_link (ds_routes (fst x)) then Done ([], x)
      else if re_kcp_connected entry \<or> node_id (re_node entry) = identity_id (dc_identity (ds_config (fst x))) \<or>
              re_state entry = Bad
      then bootstrap_persisted L E entries ds x
      else case ds of
             [] \<Rightarrow> Blocked
           | d # ds' \<Rightarrow>
               obind (connect_bootstrap_node L E (re_node entry) d x) (\<lambda>(acts, x').
                 obind (bootstrap_persisted L E entries ds' x') (\<lambda>(acts', x''). Done (acts @ acts', x''))))"

definition bootstrap_loop ::
  "'j disc_lib \<Rightarrow> 'e disc_env \<Rightarrow> dial_answers list \<Rightarrow> 'e world \<Rightarrow> (ds_action list \<times> 'e world) outcome" where
  "bootstrap_loop L E ds x =
     obind (bootstrap_configured L E (dc_bootstrap_nodes (ds_config (fst x))) ds x) (\<lambda>(acts, ds', x').
       obind (bootstrap_persisted L E (std_sort persisted_less (route_snapshot (ds_routes (fst x')))) ds' x')
         (\<lambda>(acts', x''). Done (acts @ acts', x'')))"

text \<open>One round of the feeler, between two pauses.\<close>

definition feeler_round ::
  "'j disc_lib \<Rightarrow> 'e disc_env \<Rightarrow> dial_answers \<Rightarrow> 'e world \<Rightarrow> (ds_action list \<times> 'e world) outcome" where
  "feeler_round L E d x =
     (let (capability, e) = local_capability E (snd x);
          x = announce_route L E (RouteEntry_init\<lparr>re_node := self_node (ds_config (fst x)),
                re_capability := capability, re_kcp_connected := True\<rparr>) (fst x, e)
      in if can_add_kcp_link (ds_routes (fst x))
         then
           let (now_ms, e) = cb_now E (snd x)
           in (case select_for_feeler (dl_pow L) (dl_rng L) now_ms (ds_routes (fst x)) of
                 Some candidate \<Rightarrow>
                   if node_id (re_node candidate) \<noteq> identity_id (dc_identity (ds_config (fst x)))
                   then connect_bootstrap_node L E (re_node candidate) d (fst x, e)
                   else Done ([], (fst x, e))
               | None \<Rightarrow> Done ([], (fst x, e)))
         else Done ([], x))"

datatype accept_answer = Accepted int string | AcceptBroken | AcceptRetry

text \<open>
  \<open>AcceptBroken\<close> is \<open>EBADF\<close> or \<open>EINVAL\<close>; the host is the text of the peer's address. Every accepted
  connection is served by a thread of its own.
\<close>

fun accept_loop :: "accept_answer list \<Rightarrow> DiscoveryService \<Rightarrow> ds_action list" where
  "accept_loop [] s = []"
| "accept_loop (a # answers) s =
     (if \<not> ds_running s then []
      else case a of
             Accepted fd remote_host \<Rightarrow> DsSession fd remote_host # accept_loop answers s
           | AcceptBroken \<Rightarrow> []
           | AcceptRetry \<Rightarrow> accept_loop answers s)"

section \<open>Starting and stopping\<close>

text \<open>\<open>None\<close> is the exception of \<open>load_json_file\<close>.\<close>

definition load_route_table ::
  "'j disc_lib \<Rightarrow> 'e disc_env \<Rightarrow> 'j option option \<Rightarrow> 'e world \<Rightarrow> 'e world option" where
  "load_route_table L E file x =
     (let (s, e) = x; path = dc_route_table_file (ds_config s) in
      if path = [] then Some x
      else
        let (now_ms, e) = cb_now E e
        in map_option (\<lambda>(_, routes'). (s\<lparr>ds_routes := routes'\<rparr>, e))
             (load_json_file (dl_json L) (dl_pow L) (dl_lay L) now_ms path file
               (identity_id (dc_identity (ds_config s))) (ds_routes s)))"

definition save_route_table ::
  "'j disc_lib \<Rightarrow> ('j \<Rightarrow> string) \<Rightarrow> save_answers \<Rightarrow> DiscoveryService \<Rightarrow> file_system \<Rightarrow> file_system" where
  "save_route_table L pretty a s fs =
     (let path = dc_route_table_file (ds_config s) in
      if path = [] then fs
      else snd (save_json_file (dl_json L) pretty a path (identity_id (dc_identity (ds_config s))) (ds_routes s) fs))"

definition start_listener :: "'j disc_lib \<Rightarrow> listen_answers \<Rightarrow> DiscoveryService \<Rightarrow> bool \<times> ds_action list \<times> DiscoveryService" where
  "start_listener L a s =
     (let (fd, acts) = create_tcp_listener (dl_pton L) (dc_local_endpoint (ds_config s)) a
      in (0 \<le> fd, acts, s\<lparr>ds_listen_fd := fd\<rparr>))"

definition ds_start ::
  "'j disc_lib \<Rightarrow> 'e disc_env \<Rightarrow> 'j option option \<Rightarrow> listen_answers \<Rightarrow> 'e world \<Rightarrow>
   (bool \<times> ds_action list \<times> 'e world) option" where
  "ds_start L E file a x =
     (if ds_running (fst x) then Some (True, [], x)
      else case load_route_table L E file ((fst x)\<lparr>ds_running := True\<rparr>, snd x) of
             None \<Rightarrow> None
           | Some (s, e) \<Rightarrow>
               let (capability, e) = local_capability E e;
                   (s, e) = ds_add_route L E (self_node (ds_config s)) None True 0 (Some capability) (s, e);
                   (ok, acts, s) = start_listener L a s
               in if \<not> ok then Some (False, acts, (s\<lparr>ds_running := False\<rparr>, e))
                  else Some (True, acts, (s\<lparr>ds_threads := True\<rparr>, e)))"

definition ds_stop ::
  "'j disc_lib \<Rightarrow> ('j \<Rightarrow> string) \<Rightarrow> save_answers \<Rightarrow> DiscoveryService \<Rightarrow> file_system \<Rightarrow>
   ds_action list \<times> DiscoveryService \<times> file_system" where
  "ds_stop L pretty a s fs =
     (if \<not> ds_running s then ([], s, fs)
      else
        let s' = s\<lparr>ds_running := False, ds_listen_fd := -1, ds_threads := False\<rparr>
        in ((if 0 \<le> ds_listen_fd s then [DsShutdown (ds_listen_fd s), DsClose (ds_listen_fd s)] else []) @
            (if ds_threads s then [DsJoin] else []), s', save_route_table L pretty a s' fs))"

definition ds_select_default_next_hop :: "'j disc_lib \<Rightarrow> 'e disc_env \<Rightarrow> 'e world \<Rightarrow> RouteNextHop option \<times> 'e world" where
  "ds_select_default_next_hop L E x =
     (let (s, e) = x; (now_ms, e) = cb_now E e in (select_default_next_hop (dl_pow L) now_ms (ds_routes s), (s, e)))"

end
