(* ===== verification/DiscoveryProps.thy ===== *)
theory DiscoveryProps
  imports Discovery RouteInvariant
begin

text \<open>
  What the discovery service keeps of the route table. The service changes the table only through
  four of its operations, and only adds nodes that are valid and not the service itself; whatever
  these operations keep, every handler of the service keeps. The contract is a locale, with the
  invariant of the table and the absence of the own node as instances.
\<close>

section \<open>How a session ends\<close>

text \<open>A hello that passed every test, and what was read from it.\<close>

definition accepted_hello ::
  "'j disc_lib \<Rightarrow> 'e disc_env \<Rightarrow> sys_answers \<Rightarrow> 'e world \<Rightarrow> NodeAddress \<Rightarrow> NodeCapability option \<Rightarrow> sys_answers \<Rightarrow> 'e \<Rightarrow> bool" where
  "accepted_hello L E w x peer cap w' e \<longleftrightarrow>
     (\<exists>line hello nd. ds_read_line [] w = Some (Some line, w') \<and> js_parse (dl_json L) (bytes_str line) = Some hello \<and>
        hello_head (dl_json L) (ds_config (fst x)) hello = Some True \<and> js_find (dl_json L) hello ''node'' = Some nd \<and>
        node_from_json (dl_json L) nd = Some peer \<and> node_capability_from_json (dl_json L) nd = Some cap \<and>
        verify_hello_signature L E hello (ds_config (fst x)) peer (snd x) = (True, e))"

lemma session_cases:
  assumes "handle_tcp_session L E fd remote w x = Done (acts, x')"
  obtains (refused) e where "acts = [DsClose fd]" "x' = (fst x, e)"
        "e = snd x \<or> (\<exists>hello peer. e = snd (verify_hello_signature L E hello (ds_config (fst x)) peer (snd x)))"
    | (welcomed) peer cap w' e where "accepted_hello L E w x peer cap w' e"
        "welcome_peer L E fd (fix_host remote peer) cap w' (fst x, e) = Done (acts, x')"
proof -
  have refuse: thesis if "Done ([DsClose fd], x) = Done (acts, x')" using refused [of "snd x"] that by simp
  obtain line w' where l: "ds_read_line [] w = Some (line, w')"
    using assms by (cases "ds_read_line [] w") (auto simp: handle_tcp_session_def)
  note d = assms [unfolded handle_tcp_session_def l, simplified]
  show thesis
  proof (cases line)
    case None
    then show thesis using d refuse by simp
  next
    case (Some text')
    note l' = l [unfolded Some] and d1 = d [unfolded Some, simplified]
    show thesis
    proof (cases "js_parse (dl_json L) (bytes_str text')")
      case None
      then show thesis using d1 refuse by simp
    next
      case p: (Some hello)
      obtain ok where h: "hello_head (dl_json L) (ds_config (fst x)) hello = Some ok"
        using d1 by (cases "hello_head (dl_json L) (ds_config (fst x)) hello") (auto simp: p)
      show thesis
      proof (cases "ok \<and> js_find (dl_json L) hello ''node'' \<noteq> None \<and> node_from_json (dl_json L) (the (js_find (dl_json L) hello ''node'')) \<noteq> None")
        case False
        then show thesis using d1 refuse by (auto simp: p h Let_def split: if_splits option.splits)
      next
        case True
        then obtain nd peer where n: "js_find (dl_json L) hello ''node'' = Some nd" "node_from_json (dl_json L) nd = Some peer" by auto
        obtain cap where c: "node_capability_from_json (dl_json L) nd = Some cap"
          using d1 True by (cases "node_capability_from_json (dl_json L) nd") (auto simp: p h n)
        obtain valid e where v: "verify_hello_signature L E hello (ds_config (fst x)) peer (snd x) = (valid, e)"
          by (cases "verify_hello_signature L E hello (ds_config (fst x)) peer (snd x)")
        show thesis
        proof (cases valid)
          case valid: True
          have "accepted_hello L E w x peer cap w' e"
            unfolding accepted_hello_def using l' p h True n c v valid by auto
          then show thesis using welcomed d1 True valid by (auto simp: p h n c v)
        next
          case False
          have "e = snd (verify_hello_signature L E hello (ds_config (fst x)) peer (snd x))" by (simp add: v)
          then have ex: "\<exists>hello peer. e = snd (verify_hello_signature L E hello (ds_config (fst x)) peer (snd x))" by blast
          have "acts = [DsClose fd]" "x' = (fst x, e)" using False d1 True by (simp_all add: p h n c v)
          then show thesis using ex by (intro refused disjI2)
        qed
      qed
    qed
  qed
qed

section \<open>The contract of the handlers\<close>

definition own_id :: "'e world \<Rightarrow> KcpConv" where
  "own_id x = identity_id (dc_identity (ds_config (fst x)))"

text \<open>
  The service acts on the world only by calls on the route table and by its callbacks. A relation
  between worlds that is reflexive, transitive and holds for each of these calls holds for every
  handler.
\<close>

locale handler_contract =
  fixes E :: "'e disc_env" and R :: "'e world \<Rightarrow> 'e world \<Rightarrow> bool"
  assumes refl: "R x x" and trans: "R x y \<Longrightarrow> R y z \<Longrightarrow> R x z"
    and add_rel: "is_layout lay \<Longrightarrow> valid_route_node node \<Longrightarrow> node_id node \<noteq> own_id x \<Longrightarrow>
      R x (at_now E (\<lambda>now. add_route pow lay now node src kcp hops cap) x)"
    and attempt_rel: "R x (ds_mark_attempt E nid x)"
    and success_rel: "R x (ds_mark_success E nid kcp x)"
    and failure_rel: "R x (ds_mark_failure E nid x)"
    and now_rel: "R x (fst x, snd (cb_now E (snd x)))"
    and rand_rel: "R x (fst x, snd (cb_rand E (snd x)))"
    and link_rel: "cb_link E = Some link \<Longrightarrow> R x (fst x, snd (link peer conv (snd x)))"
    and broadcast_rel: "cb_broadcast E = Some broadcast \<Longrightarrow> R x (fst x, broadcast payload (snd x))"
    and capability_rel: "cb_capability E = Some provider \<Longrightarrow> R x (fst x, snd (provider (snd x)))"
    and admission_rel: "cb_admission E = Some admit \<Longrightarrow> R x (fst x, snd (admit peer (snd x)))"
begin

lemma rel_capability: "R x (fst x, snd (local_capability E (snd x)))"
proof (cases "cb_capability E")
  case None
  then show ?thesis using now_rel [of x] by (simp add: local_capability_def split_beta)
next
  case (Some provider)
  note c = capability_rel [OF Some, of x]
  show ?thesis using c trans [OF c now_rel] Some by (simp add: local_capability_def split_beta Let_def)
qed

lemma rel_attach: "R x (fst x, snd (attach_hello_signature L E config node target (snd x)))"
proof -
  note r = rand_rel [of x]
  have "snd (attach_hello_signature L E config node target (snd x)) = snd (cb_rand E (snd x)) \<or>
      snd (attach_hello_signature L E config node target (snd x)) = snd (cb_now E (snd (cb_rand E (snd x))))"
    by (auto simp: attach_hello_signature_def Let_def split_beta split: option.split prod.split)
  then show ?thesis using r trans [OF r now_rel] by auto
qed

lemma rel_verify: "R x (fst x, snd (verify_hello_signature L E hello config peer (snd x)))"
  using refl [of x] now_rel [of x] by (auto simp: verify_hello_signature_def split_beta split: option.split)

lemma rel_asks: "R x (fst x, snd (ask_admission E peer (snd x)))" "R x (fst x, snd (ask_link E peer conv (snd x)))"
  using refl [of x] admission_rel [of _ x] link_rel [of _ x]
  by (auto simp: ask_admission_def ask_link_def split: option.split)

lemma rel_add:
  assumes "is_layout (dl_lay L)"
  shows "R x (ds_add_route L E node source kcp hops cap x)"
proof (cases "ep_host (node_endpoint node) = [] \<or> ep_port (node_endpoint node) = 0 \<or> conv_empty (node_id node) \<or>
    node_id node = own_id x")
  case True
  then show ?thesis by (simp add: ds_add_route_def own_id_def [symmetric] refl)
next
  case False
  then have "R x (at_now E (\<lambda>now. add_route (dl_pow L) (dl_lay L) now node source kcp hops cap) x)"
    by (intro add_rel [OF assms]) (simp_all add: valid_route_node_def)
  then show ?thesis using False by (simp add: ds_add_route_def own_id_def [symmetric])
qed

lemma rel_announce: "R x (announce_route L E route x)" "R x (announce_connected L E nid x)"
proof -
  show "R x (announce_route L E route x)" for route
    using refl [of x] broadcast_rel [of _ x] by (auto simp: announce_route_def Let_def split: option.split)
  then show "R x (announce_connected L E nid x)" using refl [of x] by (auto simp: announce_connected_def split: option.split)
qed

text \<open>The calls that follow a new link.\<close>

lemma rel_linked:
  assumes "is_layout (dl_lay L)"
  shows "R x (announce_connected L E nid (ds_mark_success E nid True (ds_add_route L E node source True hops cap x)))"
  by (rule trans [OF rel_add [OF assms] trans [OF success_rel rel_announce(2)]])

lemma rel_send_routes: "send_routes L E fd w x = Done (acts, w', x') \<Longrightarrow> R x x'"
  using now_rel [of x] by (auto simp: send_routes_def Let_def obind_Done_iff split_beta)

lemma rel_negotiate:
  assumes lay: "is_layout (dl_lay L)" and ret: "negotiate_kcp_link L E peer fd w x = Done (acts, w', x')"
  shows "R x x'"
proof -
  define e1 where "e1 = snd (ask_admission E peer (snd x))"
  let ?conv = "derive_kcp_convid (dl_pton L) (node_endpoint peer) (dc_local_endpoint (ds_config (fst x)))"
  define e2 where "e2 = snd (ask_link E peer ?conv e1)"
  define y where "y = announce_connected L E (node_id peer) (ds_mark_success E (node_id peer) True
    (ds_add_route L E peer None True 0 None (fst x, e2)))"
  have r1: "R x (fst x, e1)" unfolding e1_def by (rule rel_asks(1))
  have r2: "R x (fst x, e2)" using trans [OF r1] rel_asks(2) [of "(fst x, e1)"] by (simp add: e2_def)
  have ry: "R x y" unfolding y_def by (rule trans [OF r2 rel_linked [OF lay]])
  have "x' = x \<or> x' = (fst x, e1) \<or> x' = ds_mark_failure E (node_id peer) (fst x, e2) \<or>
      x' = (fst y, snd (local_capability E (snd y)))"
    using ret by (auto simp: negotiate_kcp_link_def e1_def e2_def y_def Let_def obind_Done_iff split_beta split: if_splits)
  then show ?thesis
    using refl r1 trans [OF r2 failure_rel] trans [OF ry rel_capability] by blast
qed

lemma rel_welcome:
  assumes "is_layout (dl_lay L)" and "welcome_peer L E fd peer cap w x = Done (acts, x')"
  shows "R x x'"
proof -
  obtain acts1 w1 x1 acts2 w2 where s: "send_routes L E fd w (ds_add_route L E peer None False 0 cap x) = Done (acts1, w1, x1)"
    and n: "negotiate_kcp_link L E peer fd w1 x1 = Done (acts2, w2, x')"
    using assms(2) by (auto simp: welcome_peer_def obind_Done_iff)
  show ?thesis
    by (rule trans [OF trans [OF rel_add [OF assms(1)] rel_send_routes [OF s]] rel_negotiate [OF assms(1) n]])
qed

lemma rel_session:
  assumes "is_layout (dl_lay L)" and "handle_tcp_session L E fd remote w x = Done (acts, x')"
  shows "R x x'"
  using assms(2)
proof (cases rule: session_cases)
  case (refused e)
  have "R x (fst x, e)" using refused(3) refl [of x] rel_verify [of x] by auto
  then show ?thesis by (simp add: refused(2))
next
  case (welcomed peer cap w' e)
  then have "\<exists>hello. e = snd (verify_hello_signature L E hello (ds_config (fst x)) peer (snd x))"
    by (auto simp: accepted_hello_def) (metis snd_conv)
  then have "R x (fst x, e)" using rel_verify [of x] by auto
  then show ?thesis using trans rel_welcome [OF assms(1) welcomed(2)] by blast
qed

lemma rel_learn:
  assumes "is_layout (dl_lay L)"
  shows "learn_route L E source item x = Done x' \<Longrightarrow> R x x'"
    and "learn_routes L E source items x = Done x' \<Longrightarrow> R x x'"
proof -
  show one: "learn_route L E source item x = Done x' \<Longrightarrow> R x x'" for item x x'
    by (auto simp: learn_route_def Let_def obind_Done_iff refl rel_add [OF assms] split: option.splits)
  show "learn_routes L E source items x = Done x' \<Longrightarrow> R x x'"
  proof (induction items arbitrary: x)
    case (Cons item items)
    then show ?case by (auto simp: obind_Done_iff intro: trans [OF one])
  qed (simp add: refl)
qed

lemma rel_control:
  assumes "is_layout (dl_lay L)" and "on_kcp_control L E payload x = Done x'"
  shows "R x x'"
proof -
  have "x' = x \<or> (\<exists>nd. learn_route L E None nd x = Done x')"
    using assms(2)
    by (auto simp: on_kcp_control_def handle_control_json_def Let_def obind_Done_iff split: option.splits if_splits)
  then show ?thesis using rel_learn(1) [OF assms(1)] refl by blast
qed

lemma rel_link_conv:
  assumes "is_layout (dl_lay L)"
  shows "R x (link_conv L E node peer cap conv x)"
proof -
  define r where "r = (case cb_link E of None \<Rightarrow> (False, snd x) | Some link \<Rightarrow> link peer conv (snd x))"
  have e: "R x (fst x, snd r)" using refl [of x] link_rel [of _ x] by (auto simp: r_def split: option.split)
  show ?thesis
    unfolding link_conv_def Let_def r_def [symmetric] split_beta
    by (simp add: trans [OF e] rel_linked [OF assms] failure_rel)
qed

lemma rel_conv:
  assumes "is_layout (dl_lay L)" and "accept_conv L E node message x = Done x'"
  shows "R x x'"
proof -
  have "x' = x \<or> (\<exists>peer cap conv. x' = link_conv L E node peer cap conv x)"
    using assms(2) unfolding accept_conv_def
    by (auto simp: Let_def obind_Done_iff split: option.splits if_splits)
  then show ?thesis using rel_link_conv [OF assms(1)] refl by blast
qed

lemma rel_bootstrap_message:
  assumes "is_layout (dl_lay L)" and "bootstrap_message L E node message x = Done x'"
  shows "R x x'"
proof -
  have "x' = x \<or> (\<exists>items. learn_routes L E (Some node) items x = Done x') \<or>
      (\<exists>nd. learn_route L E (Some node) nd x = Done x') \<or> accept_conv L E node message x = Done x'"
    using assms(2) by (auto simp: bootstrap_message_def Let_def obind_Done_iff split: option.splits if_splits)
  then show ?thesis using rel_learn [OF assms(1)] rel_conv [OF assms(1)] refl by blast
qed

lemma rel_bootstrap_read:
  assumes "is_layout (dl_lay L)"
  shows "bootstrap_read L E node w x = Done x' \<Longrightarrow> R x x'"
proof (induction "length w" arbitrary: w x rule: less_induct)
  case less
  note d = less.prems [unfolded bootstrap_read.simps [of L E node w x]]
  obtain line w' where l: "ds_read_line [] w = Some (line, w')"
    using d by (cases "ds_read_line [] w") auto
  note IH = less.hyps [OF ds_read_line_shorter [OF l]]
  show ?case
  proof (cases line)
    case None
    then show ?thesis using d by (simp add: l refl)
  next
    case (Some t)
    note d1 = d [unfolded l Some option.case prod.case]
    show ?thesis
    proof (cases "js_parse (dl_json L) (bytes_str t)")
      case None
      then show ?thesis using d1 IH by simp
    next
      case p: (Some message)
      note d2 = d1 [unfolded p option.case]
      obtain y where m: "bootstrap_message L E node message x = Done y"
        using d2 by (cases "bootstrap_message L E node message x") simp_all
      then have "bootstrap_read L E node w' y = Done x'" using d2 by simp
      then show ?thesis by (rule trans [OF rel_bootstrap_message [OF assms m] IH])
    qed
  qed
qed

lemma rel_dial:
  assumes "is_layout (dl_lay L)" and ret: "connect_bootstrap_node L E node a x = Done (acts, x')"
  shows "R x x'"
proof -
  define y where "y = ds_mark_attempt E (node_id node) (ds_add_route L E node None False 0 None x)"
  have y: "R x y" unfolding y_def by (rule trans [OF rel_add [OF assms(1)] attempt_rel])
  obtain fd cls where c: "ds_connect_tcp (dl_pton L) (node_endpoint node) a = (fd, cls)"
    by (cases "ds_connect_tcp (dl_pton L) (node_endpoint node) a")
  obtain cap e where l: "local_capability E (snd y) = (cap, e)" by (cases "local_capability E (snd y)")
  obtain sig e' where h: "attach_hello_signature L E (ds_config (fst y)) (self_node (ds_config (fst y))) (node_id node) e = (sig, e')"
    by (rule prod.exhaust)
  have "R x (fst y, e)" using trans [OF y rel_capability] l by simp
  then have ye: "R x (fst y, e')" using trans rel_attach [of "(fst y, e)" L] h by (metis fst_conv snd_conv)
  let ?read = "\<lambda>w. bootstrap_read L E node w (ds_mark_success E (node_id node) False (fst y, e'))"
  show ?thesis
  proof (cases "fd < 0")
    case True
    then have "x' = ds_mark_failure E (node_id node) y"
      using ret by (simp add: connect_bootstrap_node_def y_def [symmetric] c)
    then show ?thesis using trans [OF y failure_rel] by simp
  next
    case False
    have "x' = ds_mark_failure E (node_id node) (fst y, e') \<or> (\<exists>w. ?read w = Done x')"
      using ret False
      by (cases sig) (auto simp: connect_bootstrap_node_def y_def [symmetric] c l h Let_def obind_Done_iff split: if_splits)
    then show ?thesis
    proof
      assume "x' = ds_mark_failure E (node_id node) (fst y, e')"
      then show ?thesis using trans [OF ye failure_rel] by simp
    next
      assume "\<exists>w. ?read w = Done x'"
      then obtain w where "?read w = Done x'" ..
      then show ?thesis by (rule trans [OF trans [OF ye success_rel] rel_bootstrap_read [OF assms(1)]])
    qed
  qed
qed

lemma rel_configured:
  assumes "is_layout (dl_lay L)"
  shows "bootstrap_configured L E nodes ds x = Done (acts, ds', x') \<Longrightarrow> R x x'"
proof (induction nodes arbitrary: ds x acts)
  case (Cons node nodes)
  show ?case
  proof (cases "\<not> ds_running (fst x) \<or> node_id node = identity_id (dc_identity (ds_config (fst x)))")
    case True
    then show ?thesis using Cons.prems Cons.IH [of ds x acts] by (auto simp: refl split: if_splits)
  next
    case False
    obtain d ds1 where ds: "ds = d # ds1" using Cons.prems False by (cases ds) auto
    obtain acts1 x1 where d: "connect_bootstrap_node L E node d x = Done (acts1, x1)"
      and "\<exists>acts2. bootstrap_configured L E nodes ds1 x1 = Done (acts2, ds', x')"
      using Cons.prems False by (auto simp: ds obind_Done_iff)
    then show ?thesis using trans [OF rel_dial [OF assms d]] Cons.IH by blast
  qed
qed (simp add: refl)

lemma rel_persisted:
  assumes "is_layout (dl_lay L)"
  shows "bootstrap_persisted L E entries ds x = Done (acts, x') \<Longrightarrow> R x x'"
proof (induction entries arbitrary: ds x acts)
  case (Cons entry entries)
  let ?skip = "re_kcp_connected entry \<or> node_id (re_node entry) = identity_id (dc_identity (ds_config (fst x))) \<or> re_state entry = Bad"
  show ?case
  proof (cases "\<not> ds_running (fst x) \<or> \<not> can_add_kcp_link (ds_routes (fst x)) \<or> ?skip")
    case True
    then show ?thesis using Cons.prems Cons.IH [of ds x acts] by (auto simp: refl split: if_splits)
  next
    case False
    obtain d ds1 where ds: "ds = d # ds1" using Cons.prems False by (cases ds) auto
    obtain acts1 x1 where d: "connect_bootstrap_node L E (re_node entry) d x = Done (acts1, x1)"
      and "\<exists>acts2. bootstrap_persisted L E entries ds1 x1 = Done (acts2, x')"
      using Cons.prems False by (auto simp: ds obind_Done_iff)
    then show ?thesis using trans [OF rel_dial [OF assms d]] Cons.IH by blast
  qed
qed (simp add: refl)

lemma rel_bootstrap_loop:
  assumes "is_layout (dl_lay L)" and "bootstrap_loop L E ds x = Done (acts, x')"
  shows "R x x'"
proof -
  obtain acts1 ds1 y where c: "bootstrap_configured L E (dc_bootstrap_nodes (ds_config (fst x))) ds x = Done (acts1, ds1, y)"
    and "\<exists>acts2. bootstrap_persisted L E (std_sort persisted_less (route_snapshot (ds_routes (fst y)))) ds1 y = Done (acts2, x')"
    using assms(2) by (auto simp: bootstrap_loop_def obind_Done_iff)
  then show ?thesis using trans [OF rel_configured [OF assms(1) c] rel_persisted [OF assms(1)]] by blast
qed

lemma rel_feeler:
  assumes "is_layout (dl_lay L)" and ret: "feeler_round L E d x = Done (acts, x')"
  shows "R x x'"
proof -
  obtain cap e where c: "local_capability E (snd x) = (cap, e)" by (cases "local_capability E (snd x)")
  define y where "y = announce_route L E (RouteEntry_init\<lparr>re_node := self_node (ds_config (fst x)),
      re_capability := cap, re_kcp_connected := True\<rparr>) (fst x, e)"
  have "R x (fst x, e)" using rel_capability [of x] by (simp add: c)
  then have y: "R x y" unfolding y_def by (rule trans [OF _ rel_announce(1)])
  obtain now e' where n: "cb_now E (snd y) = (now, e')" by (cases "cb_now E (snd y)")
  have ye: "R x (fst y, e')" using trans [OF y now_rel] n by simp
  have "x' = y \<or> x' = (fst y, e') \<or> (\<exists>node. connect_bootstrap_node L E node d (fst y, e') = Done (acts, x'))"
    using ret [unfolded feeler_round_def c Let_def prod.case fst_conv y_def [symmetric] n]
    by (auto split: if_splits option.splits)
  then show ?thesis using y ye trans [OF ye rel_dial [OF assms(1)]] by blast
qed

end

section \<open>The contract of the route table\<close>

definition keeps :: "(KcpConv \<Rightarrow> RouteManager \<Rightarrow> bool) \<Rightarrow> 'e world \<Rightarrow> 'e world \<Rightarrow> bool" where
  "keeps P x x' \<longleftrightarrow> ds_config (fst x') = ds_config (fst x) \<and>
     (P (own_id x) (ds_routes (fst x)) \<longrightarrow> P (own_id x) (ds_routes (fst x')))"

text \<open>What the four operations keep of the table for nodes other than the own one, every handler keeps.\<close>

locale route_contract =
  fixes P :: "KcpConv \<Rightarrow> RouteManager \<Rightarrow> bool"
  assumes kept_add: "is_layout lay \<Longrightarrow> valid_route_node node \<Longrightarrow> node_id node \<noteq> self \<Longrightarrow> P self t \<Longrightarrow>
      P self (snd (add_route pow lay now node src kcp hops cap t))"
    and kept_attempt: "P self t \<Longrightarrow> P self (snd (mark_attempt now nid t))"
    and kept_success: "P self t \<Longrightarrow> P self (snd (mark_success now nid kcp t))"
    and kept_failure: "P self t \<Longrightarrow> P self (snd (mark_failure now nid t))"
begin

lemma keeps_at_now:
  assumes "\<And>now t. P (own_id x) t \<Longrightarrow> P (own_id x) (snd (f now t))"
  shows "keeps P x (at_now E f x)"
  using assms by (cases x; cases "cb_now E (snd x)") (simp add: at_now_def keeps_def own_id_def)

end

sublocale route_contract \<subseteq> handler: handler_contract E "keeps P" for E
proof unfold_locales
  show "keeps P x (ds_mark_attempt E nid x)" "keeps P x (ds_mark_success E nid kcp x)" "keeps P x (ds_mark_failure E nid x)"
    for x nid kcp
    unfolding ds_mark_attempt_def ds_mark_success_def ds_mark_failure_def
    by (rule keeps_at_now; simp add: kept_attempt kept_success kept_failure)+
  show "keeps P x (at_now E (\<lambda>now. add_route pow lay now node src kcp hops cap) x)"
    if "is_layout lay" "valid_route_node node" "node_id node \<noteq> own_id x" for lay node x pow src kcp hops cap
    using that by (intro keeps_at_now kept_add)
qed (simp_all add: keeps_def own_id_def)

section \<open>The instances\<close>

interpretation table_kept: route_contract "\<lambda>_. rm_inv"
  by unfold_locales (simp_all add: add_route_rm_inv mark_attempt_rm_inv mark_success_rm_inv mark_failure_rm_inv)

lemma emplace_absent:
  assumes "is_layout lay" "k \<noteq> k'" "um_find k' m = None"
  shows "um_find k' (um_emplace lay k v m) = None"
proof (cases "um_find k m")
  case None
  have "set (um_emplace lay k v m) = insert (k, v) (set m)"
    using mset_eq_setD [of "um_emplace lay k v m" "(k, v) # m"] mset_um_emplace [OF assms(1) None] by simp
  then show ?thesis using assms by (auto simp: um_find_None_iff)
next
  case (Some e)
  then show ?thesis using assms by (auto simp: um_emplace_def um_find_update)
qed

lemma add_route_absent:
  assumes "is_layout lay" "node_id node \<noteq> k" "um_find k (routes t) = None"
  shows "um_find k (routes (snd (add_route pow lay now node src kcp hops cap t))) = None"
  by (rule add_route_cases [of pow lay now node src kcp hops cap t])
    (use assms trimmed_find_None [of k t pow now] in \<open>auto simp: um_find_update intro!: emplace_absent\<close>)

interpretation self_absent: route_contract "\<lambda>self t. um_find self (routes t) = None"
  by unfold_locales
    (auto simp: add_route_absent mark_attempt_def mark_success_def mark_failure_def um_find_update split: option.splits)

end
