(* ===== verification/DiscoveryState.thy ===== *)
theory DiscoveryState
  imports DiscoveryProps
begin

text \<open>
  Every state of the discovery service: it is started, possibly with a table file, and then runs
  its handlers in any order. Each handler is one step; it is a sequence of calls on the table, and
  the table locks each call, so the facts on the table that every call keeps also hold between the
  calls of handlers that overlap.
\<close>

section \<open>Loading the table\<close>

text \<open>A table without links, of at most \<open>n\<close> entries and without the own node.\<close>

definition loose :: "RouteManagerConfig \<Rightarrow> KcpConv \<Rightarrow> nat \<Rightarrow> RouteManager \<Rightarrow> bool" where
  "loose config self n t \<longleftrightarrow> rm_config t = config \<and> um_ok (routes t) \<and> kcp_link_count t = 0 \<and> length (routes t) \<le> n \<and>
     (\<forall>(k, e) \<in> set (routes t). entry_ok config k e \<and> \<not> re_kcp_connected e \<and> k \<noteq> self)"

lemma loose_init: "loose config self 0 (RouteManager_init config)"
  by (simp add: loose_def RouteManager_init_def um_ok_def)

lemma load_entry_ok:
  assumes "load_entry J config now self item = Some (Some e)"
  shows "entry_ok config (node_id (re_node e)) e" "\<not> re_kcp_connected e" "node_id (re_node e) \<noteq> self"
proof -
  have "\<not> conv_empty (node_id (re_node e)) \<and> node_id (re_node e) \<noteq> self \<and> \<not> re_kcp_connected e \<and> re_hop_count e \<le> max_route_hops config"
    using assms unfolding load_entry_def
    by (auto simp: Let_def RouteEntry_init_def split: option.splits if_splits Option.bind_splits prod.splits)
  then show "entry_ok config (node_id (re_node e)) e" "\<not> re_kcp_connected e" "node_id (re_node e) \<noteq> self"
    by (simp_all add: entry_ok_def hop_limit_def max.coboundedI2)
qed

lemma load_entries_loose:
  assumes "is_layout lay"
  shows "load_entries J lay now self items t = Some t' \<Longrightarrow> loose config self n t \<Longrightarrow> loose config self (n + length items) t'"
proof (induction items arbitrary: t n)
  case (Cons item items)
  have cfg: "rm_config t = config" using Cons.prems(2) by (simp add: loose_def)
  obtain r where r: "load_entry J config now self item = Some r"
    using Cons.prems(1) cfg by (auto split: option.splits)
  show ?case
  proof (cases r)
    case None
    then show ?thesis using Cons.IH [of t "Suc n"] Cons.prems r cfg by (simp add: loose_def)
  next
    case (Some e)
    let ?t = "t\<lparr>routes := um_assign lay (node_id (re_node e)) e (routes t)\<rparr>"
    have "loose config self (Suc n) ?t"
      using Cons.prems(2) load_entry_ok [of J config now self item e] r Some
        assign_ok [OF assms] assign_length [OF assms] assign_set [OF assms]
      by (auto simp: loose_def; fastforce)
    then show ?thesis using Cons.IH [of ?t "Suc n"] Cons.prems(1) r Some cfg by simp
  qed
qed (simp add: loose_def)

lemma loose_rm_inv: "loose config self n t \<Longrightarrow> n \<le> max_routes config \<Longrightarrow> rm_inv t \<and> um_find self (routes t) = None"
  by (auto simp: loose_def rm_inv_def um_count_def um_find_None_iff filter_empty_conv)

text \<open>The items of a table file.\<close>

definition file_items :: "'j json_lib \<Rightarrow> 'j option option \<Rightarrow> nat" where
  "file_items J file =
     (case file of
        Some (Some doc) \<Rightarrow> (case js_find J doc ''entries'' of Some entries \<Rightarrow> length (js_elems J entries) | None \<Rightarrow> 0)
      | _ \<Rightarrow> 0)"

lemma load_json_file_inv:
  assumes lay: "is_layout lay" and load: "load_json_file J pow lay now path file self (RouteManager_init config) = Some (ok, t)"
    and small: "file_items J file \<le> max_routes config"
  shows "rm_inv t \<and> rm_config t = config \<and> um_find self (routes t) = None"
proof -
  have "t = RouteManager_init config \<or> (\<exists>doc entries t'. file = Some (Some doc) \<and> js_find J doc ''entries'' = Some entries \<and>
      load_entries J lay now self (js_elems J entries) (RouteManager_init config) = Some t' \<and> t = trim_if_needed pow now t')"
    using load unfolding load_json_file_def
    by (auto split: if_splits option.splits Option.bind_splits)
  then show ?thesis
  proof
    assume "t = RouteManager_init config"
    then show ?thesis by (simp add: init_rm_inv) (simp add: RouteManager_init_def um_find_def)
  next
    assume "\<exists>doc entries t'. file = Some (Some doc) \<and> js_find J doc ''entries'' = Some entries \<and>
      load_entries J lay now self (js_elems J entries) (RouteManager_init config) = Some t' \<and> t = trim_if_needed pow now t'"
    then obtain doc entries t' where f: "file = Some (Some doc)" "js_find J doc ''entries'' = Some entries"
      and l: "load_entries J lay now self (js_elems J entries) (RouteManager_init config) = Some t'"
      and t: "t = trim_if_needed pow now t'" by blast
    have loose: "loose config self (length (js_elems J entries)) t'"
      using load_entries_loose [OF lay l loose_init] by simp
    then have "rm_inv t' \<and> um_find self (routes t') = None"
      by (rule loose_rm_inv) (use small in \<open>simp add: file_items_def f\<close>)
    moreover have "rm_config t' = config" using loose by (simp add: loose_def)
    ultimately show ?thesis
      unfolding t using trim_rm_inv [of t' pow now] trim_subset [of pow now t'] by (auto simp: um_find_None_iff)
  qed
qed

section \<open>Runs\<close>

inductive ds_handler :: "'j disc_lib \<Rightarrow> 'e disc_env \<Rightarrow> 'e world \<Rightarrow> 'e world \<Rightarrow> bool" for L E where
  session: "handle_tcp_session L E fd remote_host w x = Done (acts, x') \<Longrightarrow> ds_handler L E x x'"
| control: "on_kcp_control L E payload x = Done x' \<Longrightarrow> ds_handler L E x x'"
| bootstrap: "bootstrap_loop L E ds x = Done (acts, x') \<Longrightarrow> ds_handler L E x x'"
| feeler: "feeler_round L E d x = Done (acts, x') \<Longrightarrow> ds_handler L E x x'"

context handler_contract
begin

lemma rel_handler: "ds_handler L E x x' \<Longrightarrow> is_layout (dl_lay L) \<Longrightarrow> R x x'"
  by (induction rule: ds_handler.induct) (rule rel_session rel_control rel_bootstrap_loop rel_feeler; assumption)+

end

text \<open>A step is a handler of the service, or a change of the environment behind its back.\<close>

inductive ds_step :: "'j disc_lib \<Rightarrow> 'e disc_env \<Rightarrow> 'e world \<Rightarrow> 'e world \<Rightarrow> bool" for L E where
  handler: "ds_handler L E x x' \<Longrightarrow> ds_step L E x x'"
| environment: "ds_step L E (s, e) (s, e')"

definition ds_reachable ::
  "'j disc_lib \<Rightarrow> 'e disc_env \<Rightarrow> DiscoveryConfig \<Rightarrow> 'j option option \<Rightarrow> 'e world \<Rightarrow> bool" where
  "ds_reachable L E config file x \<longleftrightarrow>
     (\<exists>a e acts x0. ds_start L E file a (DiscoveryService_init config, e) = Some (True, acts, x0) \<and> (ds_step L E)\<^sup>*\<^sup>* x0 x)"

context route_contract
begin

lemma keeps_step: "ds_step L E x x' \<Longrightarrow> is_layout (dl_lay L) \<Longrightarrow> keeps P x x'"
  by (induction rule: ds_step.induct)
    (auto simp: keeps_def own_id_def dest: handler.rel_handler)

lemma keeps_run: "(ds_step L E)\<^sup>*\<^sup>* x x' \<Longrightarrow> is_layout (dl_lay L) \<Longrightarrow> keeps P x x'"
  by (induction rule: rtranclp_induct) (auto intro: handler.refl handler.trans keeps_step)

end

text \<open>The size limits of the table are fixed when the service is made.\<close>

interpretation config_kept: route_contract "\<lambda>_ t. rm_config t = c" for c
  by unfold_locales (simp_all add: mark_attempt_def mark_success_def mark_failure_def split: option.splits)

text \<open>Adding the own node, which \<open>start\<close> does, changes nothing.\<close>

lemma add_self: "ds_add_route L E (self_node (ds_config (fst x))) src kcp hops cap x = x"
  by (simp add: ds_add_route_def self_node_def)

lemma start_routes:
  assumes "ds_start L E file a (DiscoveryService_init config, e) = Some (True, acts, x0)"
  shows "ds_config (fst x0) = config"
    and "ds_routes (fst x0) = RouteManager_init (route_manager_config config) \<or>
      (\<exists>now ok. load_json_file (dl_json L) (dl_pow L) (dl_lay L) now (dc_route_table_file config) file
         (identity_id (dc_identity config)) (RouteManager_init (route_manager_config config)) = Some (ok, ds_routes (fst x0)))"
proof -
  let ?s = "(DiscoveryService_init config)\<lparr>ds_running := True\<rparr>"
  obtain s e' where l: "load_route_table L E file (?s, e) = Some (s, e')"
    using assms by (auto simp: ds_start_def DiscoveryService_init_def split: option.splits)
  have "ds_config s = config \<and> (ds_routes s = RouteManager_init (route_manager_config config) \<or>
      (\<exists>now ok. load_json_file (dl_json L) (dl_pow L) (dl_lay L) now (dc_route_table_file config) file
         (identity_id (dc_identity config)) (RouteManager_init (route_manager_config config)) = Some (ok, ds_routes s)))"
    using l by (auto simp: load_route_table_def DiscoveryService_init_def Let_def split: if_splits prod.splits)
  moreover obtain cap e'' where c: "local_capability E e' = (cap, e'')" by (cases "local_capability E e'")
  have "ds_config (fst x0) = ds_config s \<and> ds_routes (fst x0) = ds_routes s"
    using assms l c add_self [of L E "(s, e'')" None True 0 "Some cap"]
    by (auto simp: ds_start_def DiscoveryService_init_def Let_def start_listener_def split: if_splits prod.splits)
  ultimately show "ds_config (fst x0) = config"
    and "ds_routes (fst x0) = RouteManager_init (route_manager_config config) \<or>
      (\<exists>now ok. load_json_file (dl_json L) (dl_pow L) (dl_lay L) now (dc_route_table_file config) file
         (identity_id (dc_identity config)) (RouteManager_init (route_manager_config config)) = Some (ok, ds_routes (fst x0)))"
    by simp_all
qed

lemma start_env:
  assumes "ds_start L E file a (DiscoveryService_init config, e) = Some (ok, acts, x0)"
  shows "\<exists>e'. (e' = e \<or> e' = snd (cb_now E e)) \<and> snd x0 = snd (local_capability E e')"
proof -
  let ?s = "(DiscoveryService_init config)\<lparr>ds_running := True\<rparr>"
  obtain s e' where l: "load_route_table L E file (?s, e) = Some (s, e')"
    using assms by (auto simp: ds_start_def DiscoveryService_init_def split: option.splits)
  have "e' = e \<or> e' = snd (cb_now E e)" using l by (auto simp: load_route_table_def split_beta Let_def split: if_splits)
  moreover obtain cap e'' where c: "local_capability E e' = (cap, e'')" by (cases "local_capability E e'")
  have "snd x0 = e''"
    using assms l c add_self [of L E "(s, e'')" None True 0 "Some cap"]
    by (auto simp: ds_start_def DiscoveryService_init_def Let_def split: if_splits prod.splits)
  ultimately show ?thesis using c by (metis snd_conv)
qed

lemma start_kept:
  assumes "is_layout (dl_lay L)" and "ds_start L E file a (DiscoveryService_init config, e) = Some (True, acts, x0)"
    and "file_items (dl_json L) file \<le> max_routes (dc_route_manager config)"
  shows "rm_inv (ds_routes (fst x0)) \<and> rm_config (ds_routes (fst x0)) = route_manager_config config \<and>
      um_find (identity_id (dc_identity config)) (routes (ds_routes (fst x0))) = None"
  using start_routes(2) [OF assms(2)]
proof
  assume "ds_routes (fst x0) = RouteManager_init (route_manager_config config)"
  then show ?thesis by (simp add: init_rm_inv) (simp add: RouteManager_init_def um_find_def)
next
  assume "\<exists>now ok. load_json_file (dl_json L) (dl_pow L) (dl_lay L) now (dc_route_table_file config) file
       (identity_id (dc_identity config)) (RouteManager_init (route_manager_config config)) = Some (ok, ds_routes (fst x0))"
  then obtain now ok where "load_json_file (dl_json L) (dl_pow L) (dl_lay L) now (dc_route_table_file config) file
       (identity_id (dc_identity config)) (RouteManager_init (route_manager_config config)) = Some (ok, ds_routes (fst x0))"
    by blast
  then show ?thesis
    by (rule load_json_file_inv [OF assms(1)]) (use assms(3) in \<open>simp add: route_manager_config_def\<close>)
qed

lemma reachable_kept:
  assumes "is_layout (dl_lay L)" and "ds_reachable L E config file x"
    and "file_items (dl_json L) file \<le> max_routes (dc_route_manager config)"
  shows "rm_inv (ds_routes (fst x))" and "rm_config (ds_routes (fst x)) = route_manager_config config"
    and "um_find (identity_id (dc_identity config)) (routes (ds_routes (fst x))) = None"
proof -
  obtain a e acts x0 where s: "ds_start L E file a (DiscoveryService_init config, e) = Some (True, acts, x0)"
    and run: "(ds_step L E)\<^sup>*\<^sup>* x0 x" using assms(2) by (auto simp: ds_reachable_def)
  show "rm_inv (ds_routes (fst x))" "rm_config (ds_routes (fst x)) = route_manager_config config"
    "um_find (identity_id (dc_identity config)) (routes (ds_routes (fst x))) = None"
    using start_kept [OF assms(1) s assms(3)] start_routes(1) [OF s]
      table_kept.keeps_run [OF run assms(1)] config_kept.keeps_run [OF run assms(1)] self_absent.keeps_run [OF run assms(1)]
    by (auto simp: keeps_def own_id_def)
qed

end
