(* ===== verification/DiscoveryHello.thy ===== *)
theory DiscoveryHello
  imports DiscoveryProps DiscoveryJsonProps EdgeMessageProps
begin

text \<open>
  The hello message: reading a line, what the signature covers, and that a hello written by one
  node is accepted by the node it is addressed to.
\<close>

section \<open>Lines\<close>

text \<open>A stream of bytes that arrive one at a time.\<close>

definition arriving :: "bytes \<Rightarrow> sys_answers" where
  "arriving bs = map (\<lambda>b. Received [b]) bs"

lemma ds_read_line_arriving:
  assumes "10 \<notin> set bs" and "length out + length bs \<le> 1024 * 1024 + 1"
  shows "ds_read_line out (arriving (bs @ [10]) @ w) = Some (Some (out @ bs), w)"
  using assms
proof (induction bs arbitrary: out)
  case (Cons b bs)
  then show ?case using Cons.IH [of "out @ [b]"] by (auto simp: arriving_def)
qed (simp add: arriving_def)

lemma ds_read_line_length:
  "ds_read_line out w = Some (Some line, w') \<Longrightarrow> length out \<le> 1024 * 1024 + 1 \<Longrightarrow> length line \<le> 1024 * 1024 + 1"
  by (induction out w rule: ds_read_line.induct) (auto split: sys_answer.splits if_splits)

text \<open>Whatever arrives, the reader is done after as many answers as a line may have bytes.\<close>

lemma ds_read_line_ends:
  assumes "1024 * 1024 + 1 < length out + length (filter (\<lambda>a. a \<noteq> Interrupted) w)" and "length out \<le> 1024 * 1024 + 1"
  shows "ds_read_line out w \<noteq> None"
  using assms
proof (induction out w rule: ds_read_line.induct)
  case (2 out a w)
  show ?case
  proof (cases a)
    case Interrupted
    then show ?thesis using "2.IH"(2) "2.prems" by simp
  next
    case (Received bs)
    then show ?thesis using "2.IH"(1) [OF Received] "2.prems" by auto
  qed simp_all
qed simp

lemma str_bytes_nl: "str_bytes (s @ [char_of (10 :: nat)]) = str_bytes s @ [10]"
  by (simp add: str_bytes_def code_def)

lemma bytes_str_str_bytes [simp]: "bytes_str (str_bytes s) = s"
proof -
  have "code c < 256" for c by (simp add: code_def)
  then have "unat (of_nat (code c) :: byte) = code c" for c by (intro unat_of_nat_small) simp
  then show ?thesis by (simp add: bytes_str_def str_bytes_def code_def o_def)
qed

lemma str_bytes_no_nl: "char_of (10 :: nat) \<notin> set s \<Longrightarrow> (10 :: byte) \<notin> set (str_bytes s)"
proof
  assume a: "char_of (10 :: nat) \<notin> set s" and "(10 :: byte) \<in> set (str_bytes s)"
  then obtain c where c: "c \<in> set s" "of_nat (code c) = (10 :: byte)" by (auto simp: str_bytes_def)
  have "code c < 256" by (simp add: code_def)
  then have "unat (of_nat (code c) :: byte) = code c" by (intro unat_of_nat_small) simp
  then have "code c = 10" using c(2) by simp
  then have "c = char_of (10 :: nat)" by (metis char_of_char code_def)
  then show False using a c(1) by simp
qed

section \<open>What the signature covers\<close>

lemma split_last:
  assumes "u @ c # v = u' @ c # v'" and "c \<notin> set v" and "c \<notin> set v'"
  shows "u = u' \<and> v = v'"
proof -
  have tail: "c \<notin> set v \<Longrightarrow> takeWhile (\<lambda>x. x \<noteq> c) (rev (u @ c # v)) = rev v" for u v :: "'a list"
    by (subst rev_append, subst rev.simps, subst append_assoc, subst takeWhile_append2) auto
  have "rev v = rev v'" using tail [OF assms(2), of u] tail [OF assms(3), of u'] assms(1) by metis
  then show ?thesis using assms(1) by simp
qed

lemma nl_not_digit: "\<not> isdigit (char_of (10 :: nat))"
  by (simp add: isdigit_def code_def)

lemma nl_not_in_number: "char_of (10 :: nat) \<notin> set (to_string n)" "char_of (10 :: nat) \<notin> set (to_string_int i)"
proof -
  show n: "char_of (10 :: nat) \<notin> set (to_string n)" for n by (rule not_in_to_string [OF nl_not_digit])
  have "char_of (10 :: nat) \<noteq> CHR ''-''" by code_simp
  then show "char_of (10 :: nat) \<notin> set (to_string_int i)" using n by (simp add: to_string_int_def)
qed

lemma parse_hex_pairs_chars: "parse_hex_pairs s = Some bs \<Longrightarrow> c \<in> set s \<Longrightarrow> 0 \<le> hex_value c"
  by (induction s arbitrary: bs rule: parse_hex_pairs.induct) (auto simp: Let_def split: if_splits)

lemma nl_not_in_hex:
  assumes "parse_hex_256 s \<noteq> None"
  shows "char_of (10 :: nat) \<notin> set s"
proof -
  let ?n = "char_of (10 :: nat) :: char"
  obtain bs where "parse_hex_pairs (strip_0x s) = Some bs"
    using assms by (auto simp: parse_hex_256_def Let_def split: if_splits)
  moreover have "\<not> 0 \<le> hex_value ?n" by (simp add: hex_value_def code_def)
  ultimately have n: "?n \<notin> set (strip_0x s)" using parse_hex_pairs_chars by blast
  have "?n \<noteq> CHR ''0''" "?n \<noteq> CHR ''x''" "?n \<noteq> CHR ''X''" by code_simp+
  then show ?thesis using n
    by (cases s; cases "tl s") (auto simp: strip_0x_def split: if_splits)
qed

lemma nl_not_in_convid: "char_of (10 :: nat) \<notin> set (convid_to_hex c)"
  by (rule nl_not_in_hex) (simp add: convid_to_hex_eq)

text \<open>Two hellos with the same signed text agree on everything the receiver uses.\<close>

lemma hello_payload_inject:
  assumes eq: "hello_signing_payload n t i v = hello_signing_payload n' t' i' v'"
    and v: "parse_hex_256 v \<noteq> None" "parse_hex_256 v' \<noteq> None"
  shows "n = n' \<and> t = t' \<and> i = i' \<and> v = v'"
proof -
  let ?h = "\<lambda>n t. ''iota-discovery-v1'' @ nl @ convid_to_hex t @ nl @ convid_to_hex (node_id n) @ nl @ ep_host (node_endpoint n)"
  let ?p = "\<lambda>n. to_string (unat (ep_port (node_endpoint n)))"
  have form: "hello_signing_payload n t i v =
      ((?h n t @ char_of (10 :: nat) # ?p n) @ char_of (10 :: nat) # to_string_int i) @ char_of (10 :: nat) # v" for n t i v
    by (simp add: hello_signing_payload_def nl_def)
  note e = eq [unfolded form]
  from split_last [OF e nl_not_in_hex [OF v(1)] nl_not_in_hex [OF v(2)]]
  have e1: "(?h n t @ char_of (10 :: nat) # ?p n) @ char_of (10 :: nat) # to_string_int i =
      (?h n' t' @ char_of (10 :: nat) # ?p n') @ char_of (10 :: nat) # to_string_int i'" and "v = v'" by blast+
  from split_last [OF e1 nl_not_in_number(2) nl_not_in_number(2)]
  have e2: "?h n t @ char_of (10 :: nat) # ?p n = ?h n' t' @ char_of (10 :: nat) # ?p n'"
    and "i = i'" using to_string_int_inject by blast+
  from split_last [OF e2 nl_not_in_number(1) nl_not_in_number(1)]
  have h: "?h n t = ?h n' t'" and "ep_port (node_endpoint n) = ep_port (node_endpoint n')"
    using to_string_inject by (blast, metis word_unat_eq_iff to_string_inject)
  have "length (convid_to_hex c) = 64" for c by (simp add: convid_to_hex_eq length_hex_256)
  then have "convid_to_hex t = convid_to_hex t'" "convid_to_hex (node_id n) = convid_to_hex (node_id n')"
    "ep_host (node_endpoint n) = ep_host (node_endpoint n')"
    using h by auto
  then show ?thesis
    using \<open>v = v'\<close> \<open>i = i'\<close> \<open>ep_port (node_endpoint n) = ep_port (node_endpoint n')\<close>
    by (simp add: convid_to_hex_eq hex_256_inject)
qed

section \<open>A hello and its receiver\<close>

text \<open>
  The hello \<open>connect_bootstrap_node\<close> builds for the node \<open>target\<close>: its time stamp, the capability
  it carries and its document.
\<close>

definition hello_for ::
  "'j disc_lib \<Rightarrow> 'e disc_env \<Rightarrow> DiscoveryConfig \<Rightarrow> KcpConv \<Rightarrow> 'e \<Rightarrow> (int \<times> NodeCapability \<times> 'j) option" where
  "hello_for L E config target e =
     (let (cap, e1) = local_capability E e in
      case attach_hello_signature L E config (self_node config) target e1 of
        (None, _) \<Rightarrow> None
      | (Some sg, _) \<Rightarrow>
          Some (fst (cb_now E (snd (cb_rand E e1))), cap, hello_message (dl_json L) (self_node config) cap target sg))"

text \<open>Compact text has no line breaks; strings in it are escaped.\<close>

definition one_line :: "'j json_lib \<Rightarrow> bool" where
  "one_line J \<longleftrightarrow> (\<forall>j. js_clean J j \<longrightarrow> char_of (10 :: nat) \<notin> set (js_dump J j))"

text \<open>A signature made with the identity's private key verifies with its node id.\<close>

definition signs :: "'j disc_lib \<Rightarrow> NodeIdentity \<Rightarrow> bool" where
  "signs L ident \<longleftrightarrow> (\<forall>m sg. dl_sign L (private_key (key_pair ident)) m = Some sg \<longrightarrow> dl_verify L (identity_id ident) m sg)"

lemma hello_for_cases:
  assumes "hello_for L E config target e = Some (ts, cap, hello)"
  obtains nonce sg e1 where "local_capability E e = (cap, e1)"
    "dl_sign L (private_key (key_pair (dc_identity config)))
       (str_bytes (hello_signing_payload (self_node config) target ts (hex_256 nonce))) = Some sg"
    "hello = hello_message (dl_json L) (self_node config) cap target
       [(''timestamp_ms'', js_i64 (dl_json L) ts), (''nonce'', js_str (dl_json L) (hex_256 nonce)),
        (''signature'', js_str (dl_json L) (hex_512 sg))]"
  using assms
  by (auto simp: hello_for_def attach_hello_signature_def Let_def split: prod.splits option.splits)

lemma hello_message_object:
  "hello_message J self cap target
     [(''timestamp_ms'', ts), (''nonce'', nonce), (''signature'', sg)] =
   js_object J (js_null J) [(''type'', js_str J ''hello''), (''version'', js_i64 J 1),
       (''target_public_key'', js_str J (convid_to_hex target)), (''node'', node_to_json J self (Some cap)),
       (''timestamp_ms'', ts), (''nonce'', nonce), (''signature'', sg)]"
  by (simp add: hello_message_def del: js_object.simps)

lemma local_capability_present: "local_capability E e = (cap, e1) \<Longrightarrow> cap_present cap"
  by (auto simp: local_capability_def Let_def split: option.splits prod.splits if_splits)

lemma node_to_json_clean:
  assumes "json_laws J" and "ascii (ep_host (node_endpoint node))"
  shows "js_clean J (node_to_json J node (Some cap))"
proof -
  note c = json_clean [OF assms(1)]
  have cap: "js_clean J (capability_to_json J cap)"
    unfolding capability_to_json_def
    by (rule js_object_clean [OF assms(1)]) (use c in \<open>simp_all add: capability_fields_def ascii_def code_def\<close>)
  show ?thesis
    unfolding node_to_json_def
    by (rule js_object_clean [OF assms(1)])
      (use c cap assms(2) ascii_convid in \<open>auto simp: node_fields_def capability_field_def ascii_def code_def\<close>)
qed

lemma json_unsigned_integer: "json_laws J \<Longrightarrow> js_is_unsigned J j \<Longrightarrow> js_is_integer J j"
  by (simp add: json_laws_def json_build_laws_def)

lemma hello_read:
  fixes J :: "'j json_lib" and self :: NodeAddress and cap :: NodeCapability and config :: DiscoveryConfig and nonce sg :: string
  assumes J: "json_laws J" and ts: "i64 ts"
  defines "d \<equiv> js_reparse J (hello_message J self cap (identity_id (dc_identity config))
     [(''timestamp_ms'', js_i64 J ts), (''nonce'', js_str J nonce), (''signature'', js_str J sg)])"
  shows "hello_head J config d = Some True" and "js_find J d ''node'' = Some (js_reparse J (node_to_json J self (Some cap)))"
    and "hello_fields J d = Some (ts, nonce, sg)"
proof -
  note l = built_reparse [OF J, of "[(''type'', js_str J ''hello''), (''version'', js_i64 J 1),
       (''target_public_key'', js_str J (convid_to_hex (identity_id (dc_identity config)))),
       (''node'', node_to_json J self (Some cap)),
       (''timestamp_ms'', js_i64 J ts), (''nonce'', js_str J nonce), (''signature'', js_str J sg)]",
      folded hello_message_object, folded d_def]
  note t = json_text(5,7,8) [OF J] and b = json_build [OF J]
  have obj: "js_is_object J d" by (rule l(2)) simp_all
  have type: "js_find J d ''type'' = Some (js_str J ''hello'')" by (subst l(3)) (simp_all add: t(1))
  have version: "js_find J d ''version'' = Some (js_u64 J 1)" by (subst l(3)) (simp_all add: t(3) [of 1])
  have target: "js_find J d ''target_public_key'' = Some (js_str J (convid_to_hex (identity_id (dc_identity config))))"
    by (subst l(3)) (simp_all add: t(1))
  show "hello_head J config d = Some True"
    using js_value_found(5) [OF J obj type] js_value_found(6) [OF J obj version] js_value_found(5) [OF J obj target] b(5,15)
    by (simp add: hello_head_def obj)
  show "js_find J d ''node'' = Some (js_reparse J (node_to_json J self (Some cap)))" by (subst l(3)) simp_all
  have time: "js_find J d ''timestamp_ms'' = Some (js_reparse J (js_i64 J ts))" by (subst l(3)) simp_all
  have int: "js_is_integer J (js_reparse J (js_i64 J ts))"
    using t(3) [of ts] b(16) [of ts] ts json_unsigned_integer [OF J b(10)] by simp
  have "js_find J d ''nonce'' = Some (js_str J nonce)" "js_find J d ''signature'' = Some (js_str J sg)"
    by (subst l(3); simp add: t(1))+
  then show "hello_fields J d = Some (ts, nonce, sg)"
    using time int b(4,5) reparse_i64 [OF J ts] by (simp add: hello_fields_def)
qed

lemma hello_for_clean:
  assumes J: "json_laws (dl_json L)" and hello: "hello_for L E config target e = Some (ts, cap, hello)"
    and host: "ascii (ep_host (dc_local_endpoint config))"
  shows "js_clean (dl_json L) hello"
proof -
  obtain nonce sg where h: "hello = hello_message (dl_json L) (self_node config) cap target
       [(''timestamp_ms'', js_i64 (dl_json L) ts), (''nonce'', js_str (dl_json L) (hex_256 nonce)),
        (''signature'', js_str (dl_json L) (hex_512 sg))]"
    by (rule hello_for_cases [OF hello])
  show ?thesis
    unfolding h hello_message_object
    by (rule js_object_clean [OF J])
      (use json_clean [OF J] node_to_json_clean [OF J] host ascii_convid ascii_hex in
        \<open>auto simp: ascii_def code_def hex_256_def hex_512_def self_node_def\<close>)
qed

lemma hello_accepted:
  assumes J: "json_laws (dl_json L)" and line: "one_line (dl_json L)"
    and hello: "hello_for L E config (identity_id (dc_identity (ds_config (fst y)))) e = Some (ts, cap, hello)"
    and key: "signs L (dc_identity config)" "\<not> conv_empty (identity_id (dc_identity config))"
    and addr: "ascii (ep_host (dc_local_endpoint config))" "ep_port (dc_local_endpoint config) \<noteq> 0"
    and range: "cap_range cap" "i64 ts" and clock: "\<bar>ts - fst (cb_now E' (snd y))\<bar> \<le> kHelloClockSkewMs"
    and short: "length (js_dump (dl_json L) hello) \<le> 1024 * 1024"
  shows "accepted_hello L E' (arriving (str_bytes (js_dump (dl_json L) hello @ nl)) @ w) y (self_node config) (Some cap) w
    (snd (cb_now E' (snd y)))"
proof -
  let ?J = "dl_json L" and ?me = "dc_identity (ds_config (fst y))"
  obtain nonce sg e1 where c: "local_capability E e = (cap, e1)"
    and sg: "dl_sign L (private_key (key_pair (dc_identity config)))
       (str_bytes (hello_signing_payload (self_node config) (identity_id ?me) ts (hex_256 nonce))) = Some sg"
    and h: "hello = hello_message ?J (self_node config) cap (identity_id ?me)
       [(''timestamp_ms'', js_i64 ?J ts), (''nonce'', js_str ?J (hex_256 nonce)), (''signature'', js_str ?J (hex_512 sg))]"
    by (rule hello_for_cases [OF hello])
  note r = hello_read [OF J range(2), where self = "self_node config" and cap = cap and config = "ds_config (fst y)"
      and nonce = "hex_256 nonce" and sg = "hex_512 sg", folded h]
  have self: "node_id (self_node config) = identity_id (dc_identity config)"
    "node_endpoint (self_node config) = dc_local_endpoint config" by (simp_all add: self_node_def)
  have clean: "js_clean ?J hello" by (rule hello_for_clean [OF J hello addr(1)])
  then have read: "ds_read_line [] (arriving (str_bytes (js_dump ?J hello @ nl)) @ w) = Some (Some (str_bytes (js_dump ?J hello)), w)"
    using ds_read_line_arriving [of "str_bytes (js_dump ?J hello)" "[]" w] line short
    by (simp add: nl_def str_bytes_nl one_line_def str_bytes_no_nl) (simp add: str_bytes_def)
  have "check_hello L (ds_config (fst y)) (self_node config) (fst (cb_now E' (snd y))) (ts, hex_256 nonce, hex_512 sg)"
    using clock sg key by (simp add: check_hello_def public_key_from_node_id_eq self signs_def abs_le_iff)
  then have "verify_hello_signature L E' (js_reparse ?J hello) (ds_config (fst y)) (self_node config) (snd y) =
      (True, snd (cb_now E' (snd y)))"
    by (cases "cb_now E' (snd y)") (simp add: verify_hello_signature_def r(3))
  then show ?thesis
    unfolding accepted_hello_def
    using read json_text(1) [OF J clean] r(1,2) node_round_trip(1) [OF J, of "self_node config" "Some cap"] self key(2) addr(2)
      node_capability_round_trip [OF J local_capability_present [OF c] range(1)]
    by (intro exI [of _ "str_bytes (js_dump ?J hello)"] exI [of _ "js_reparse ?J hello"]
        exI [of _ "js_reparse ?J (node_to_json ?J (self_node config) (Some cap))"]) simp
qed

text \<open>An accepted hello is answered.\<close>

lemma accepted_welcome:
  assumes "accepted_hello L E w y peer cap w' e"
  shows "handle_tcp_session L E fd remote w y = welcome_peer L E fd (fix_host remote peer) cap w' (fst y, e)"
proof -
  obtain line hello nd where a: "ds_read_line [] w = Some (Some line, w')" "js_parse (dl_json L) (bytes_str line) = Some hello"
    "hello_head (dl_json L) (ds_config (fst y)) hello = Some True" "js_find (dl_json L) hello ''node'' = Some nd"
    "node_from_json (dl_json L) nd = Some peer" "node_capability_from_json (dl_json L) nd = Some cap"
    "verify_hello_signature L E hello (ds_config (fst y)) peer (snd y) = (True, e)"
    using assms by (auto simp: accepted_hello_def)
  show ?thesis by (simp add: handle_tcp_session_def a)
qed

end
