(* ===== verification/DiscoveryClaims.thy ===== *)
theory DiscoveryClaims
  imports DiscoveryState DiscoveryHello
begin

text \<open>The properties of the discovery service.\<close>

section \<open>Authentication\<close>

text \<open>The nodes the service knows.\<close>

definition known :: "DiscoveryService \<Rightarrow> KcpConv set" where
  "known s = fst ` set (routes (ds_routes s))"

lemma known_marks [simp]:
  "known (fst (ds_mark_success E nid kcp x)) = known (fst x)" "known (fst (ds_mark_failure E nid x)) = known (fst x)"
proof -
  have u: "fst ` set (um_update k f m) = fst ` set m" for k f and m :: "(KcpConv \<times> RouteEntry) list"
    by (auto simp: um_update_def image_image split_beta)
  show "known (fst (ds_mark_success E nid kcp x)) = known (fst x)" "known (fst (ds_mark_failure E nid x)) = known (fst x)"
    by (auto simp: known_def ds_mark_success_def ds_mark_failure_def at_now_def
        mark_success_def mark_failure_def u split_beta Let_def split: option.split)
qed

lemma known_announce [simp]: "known (fst (announce_connected L E nid x)) = known (fst x)"
  by (auto simp: known_def announce_connected_def announce_route_def Let_def split: option.splits)

lemma known_add:
  assumes "is_layout (dl_lay L)"
  shows "known (fst (ds_add_route L E node source kcp hops cap x)) \<subseteq> insert (node_id node) (known (fst x))"
proof -
  have "fst ` set (routes (snd (add_route pow (dl_lay L) now node source kcp hops cap t))) \<subseteq> insert (node_id node) (fst ` set (routes t))"
    for pow now t
    using add_route_absent [OF assms, of node _ t pow now source kcp hops cap] by (metis insertCI subsetI um_find_None_iff)
  then show ?thesis by (simp add: known_def ds_add_route_def at_now_def split_beta Let_def subset_insertI)
qed

lemma known_negotiate:
  assumes lay: "is_layout (dl_lay L)" and ret: "negotiate_kcp_link L E peer fd w x = Done (acts, w', x')"
  shows "known (fst x') \<subseteq> insert (node_id peer) (known (fst x))"
proof -
  obtain s e where x: "x = (s, e)" by (cases x)
  obtain adm e1 where a: "ask_admission E peer e = (adm, e1)" by (cases "ask_admission E peer e")
  let ?conv = "derive_kcp_convid (dl_pton L) (node_endpoint peer) (dc_local_endpoint (ds_config s))"
  obtain lnk e2 where l: "ask_link E peer ?conv e1 = (lnk, e2)" by (cases "ask_link E peer ?conv e1")
  let ?y = "announce_connected L E (node_id peer) (ds_mark_success E (node_id peer) True (ds_add_route L E peer None True 0 None (s, e2)))"
  obtain cap e3 where c: "local_capability E (snd ?y) = (cap, e3)" by (cases "local_capability E (snd ?y)")
  have "x' = x \<or> x' = (s, e1) \<or> x' = ds_mark_failure E (node_id peer) (s, e2) \<or> x' = (fst ?y, e3)"
    using ret by (auto simp: negotiate_kcp_link_def x a l c Let_def obind_Done_iff io_def split: if_splits option.splits)
  then show ?thesis using known_add [OF lay, of E peer None True 0 None "(s, e2)"] by (auto simp: x)
qed

lemma known_welcome:
  assumes lay: "is_layout (dl_lay L)" and ret: "welcome_peer L E fd peer cap w x = Done (acts, x')"
  shows "known (fst x') \<subseteq> insert (node_id peer) (known (fst x))" and "last acts = DsClose fd"
proof -
  obtain acts1 w1 x1 acts2 w2 where s: "send_routes L E fd w (ds_add_route L E peer None False 0 cap x) = Done (acts1, w1, x1)"
    and n: "negotiate_kcp_link L E peer fd w1 x1 = Done (acts2, w2, x')"
    and "last acts = DsClose fd"
    using ret by (auto simp: welcome_peer_def obind_Done_iff)
  have "fst x1 = fst (ds_add_route L E peer None False 0 cap x)"
    using s by (auto simp: send_routes_def Let_def obind_Done_iff split_beta)
  then show "known (fst x') \<subseteq> insert (node_id peer) (known (fst x))"
    using known_add [OF lay, of E peer None False 0 cap x] known_negotiate [OF lay n] by auto
  show "last acts = DsClose fd" by fact
qed

lemma accepted_hello_checked:
  assumes "accepted_hello L E w x peer cap w' e"
  shows "\<exists>ts nonce sg. \<bar>ts - fst (cb_now E (snd x))\<bar> \<le> kHelloClockSkewMs \<and> parse_hex_256 nonce \<noteq> None \<and>
    dl_verify L (node_id peer) (str_bytes (hello_signing_payload peer (identity_id (dc_identity (ds_config (fst x)))) ts nonce)) sg"
proof -
  obtain hello hf now where "hello_fields (dl_json L) hello = Some hf" and now: "cb_now E (snd x) = (now, e)"
    and c: "check_hello L (ds_config (fst x)) peer now hf"
    using assms
    by (cases "cb_now E (snd x)") (auto simp: accepted_hello_def verify_hello_signature_def split: option.splits)
  obtain ts nonce sig_hex where hf: "hf = (ts, nonce, sig_hex)" by (cases hf)
  show ?thesis
    using c now
    by (intro exI [of _ ts] exI [of _ nonce]) (auto simp: check_hello_def hf public_key_from_node_id_eq abs_le_iff split: option.splits if_splits)
qed

text \<open>
  C29: A session either ends with the connection closed and the service as it was, or the peer sent
  a hello whose signature verifies under the peer's own node id, over a text that names this node
  as the target, with a time stamp at most ten minutes off the local clock. Then the only node the
  session can add to the table is that peer, and the connection is closed at the end.
\<close>

theorem hello_authenticated:
  assumes lay: "is_layout (dl_lay L)" and ret: "handle_tcp_session L E fd remote_host w x = Done (acts, x')"
  shows "acts = [DsClose fd] \<and> fst x' = fst x \<or>
    (\<exists>peer ts nonce sg. \<bar>ts - fst (cb_now E (snd x))\<bar> \<le> 10 * 60 * 1000 \<and> parse_hex_256 nonce \<noteq> None \<and>
       dl_verify L (node_id peer)
         (str_bytes (hello_signing_payload peer (identity_id (dc_identity (ds_config (fst x)))) ts nonce)) sg \<and>
       known (fst x') \<subseteq> insert (node_id peer) (known (fst x)) \<and> last acts = DsClose fd)"
  using ret
proof (cases rule: session_cases)
  case (refused e)
  then show ?thesis by simp
next
  case (welcomed peer cap w' e)
  have "node_id (fix_host remote_host peer) = node_id peer" by (simp add: fix_host_def)
  then have "known (fst x') \<subseteq> insert (node_id peer) (known (fst x)) \<and> last acts = DsClose fd"
    using known_welcome [OF lay welcomed(2)] by simp
  moreover obtain ts nonce sg where "\<bar>ts - fst (cb_now E (snd x))\<bar> \<le> 10 * 60 * 1000 \<and> parse_hex_256 nonce \<noteq> None \<and>
       dl_verify L (node_id peer)
         (str_bytes (hello_signing_payload peer (identity_id (dc_identity (ds_config (fst x)))) ts nonce)) sg"
    using accepted_hello_checked [OF welcomed(1), unfolded kHelloClockSkewMs_def] by (elim exE)
  ultimately show ?thesis by (intro disjI2 exI [of _ peer] exI [of _ ts] exI [of _ nonce] exI [of _ sg]) simp
qed

section \<open>A sample network\<close>

definition sample_disc_config :: "u32 \<Rightarrow> DiscoveryConfig" where
  "sample_disc_config n =
     \<lparr>dc_identity = \<lparr>key_pair = \<lparr>private_key = from_uint32 n, public_key = from_uint32 n\<rparr>, identity_id = from_uint32 n,
        configured = True\<rparr>, dc_local_endpoint = node_endpoint (sample_node n), dc_bootstrap_nodes = [], dc_max_kcp_links = 4,
      dc_listen_backlog = 16, dc_route_feeler_interval_seconds = 120, dc_route_table_file = [],
      dc_route_manager = RouteManagerConfig_default\<rparr>"

definition sample_disc_env :: "unit disc_env" where
  "sample_disc_env = \<lparr>cb_now = \<lambda>e. (5000, e), cb_rand = \<lambda>e. (Some (from_uint32 7), e), cb_link = None, cb_broadcast = None,
     cb_capability = None, cb_admission = None\<rparr>"

definition sample_signature :: "Key256 \<Rightarrow> Signature512" where
  "sample_signature k = arr_of (arr_bytes k @ arr_bytes k)"

definition sample_disc_lib :: "'j json_lib \<Rightarrow> 'j disc_lib" where
  "sample_disc_lib J = \<lparr>dl_json = J, dl_pton = \<lambda>_. Some (arr_of [10, 0, 0, 1]), dl_pow = \<lambda>x y. 1, dl_lay = \<lambda>m. m,
     dl_shuffle = \<lambda>xs. xs, dl_rng = \<lambda>_. 0, dl_sign = \<lambda>k m. Some (sample_signature k),
     dl_verify = \<lambda>k m sg. sg = sample_signature k\<rparr>"

text \<open>A JSON library that writes one document as a single letter.\<close>

definition brief_json :: "jval \<Rightarrow> jval json_lib" where
  "brief_json d = sample_json\<lparr>
     js_parse := \<lambda>s. if s = ''h'' then Some (jv_reparse d) else js_parse sample_json s,
     js_dump := \<lambda>j. if jv_reparse j = jv_reparse d then ''h'' else js_dump sample_json j\<rparr>"

lemma isdigit_h: "\<not> isdigit (CHR ''h'')" "char_of (10 :: nat) \<noteq> CHR ''h''"
  by code_simp+

lemma brief_json_laws: "json_laws (brief_json d)"
proof -
  have "to_string n \<noteq> ''h''" for n
    using isdigit_to_string [of "CHR ''h''" n] by (metis isdigit_h(1) list.set_intros(1))
  then have "js_parse (brief_json d) (js_dump (brief_json d) j) = Some (jv_reparse j) \<and> js_dump (brief_json d) j \<noteq> []" for j
    by (auto simp: brief_json_def) (auto simp: sample_json_def)
  moreover have "js_reparse sample_json = jv_reparse" by (simp add: sample_json_def)
  ultimately show ?thesis
    using sample_json_laws
    by (simp add: json_laws_def json_text_laws_def json_build_laws_def json_value_laws_def value_law_def js_container_def brief_json_def)
qed

lemma brief_json_one_line: "one_line (brief_json d)"
proof -
  have "js_dump (brief_json d) j = ''h'' \<or> js_dump (brief_json d) j = to_string (to_nat (jv_reparse j))" for j
    by (simp add: brief_json_def) (simp add: sample_json_def)
  then show ?thesis using nl_not_in_number(1) isdigit_h(2) by (metis empty_iff empty_set one_line_def set_ConsD)
qed

text \<open>The hello of node 1 to node 2.\<close>

definition sample_hello :: "jval json_lib \<Rightarrow> jval" where
  "sample_hello J = hello_message J (self_node (sample_disc_config 1))
     (NodeCapability_init\<lparr>cap_present := True, cap_updated_at_ms := 5000\<rparr>) (from_uint32 2)
     [(''timestamp_ms'', js_i64 J 5000), (''nonce'', js_str J (hex_256 (from_uint32 7))),
      (''signature'', js_str J (hex_512 (sample_signature (from_uint32 1))))]"

definition hello_json :: "jval json_lib" where
  "hello_json = brief_json (sample_hello sample_json)"

lemma hello_json_hello: "js_dump hello_json (sample_hello hello_json) = ''h''"
proof -
  have "sample_hello hello_json = sample_hello sample_json"
    by (simp add: sample_hello_def hello_message_def node_to_json_def node_fields_def capability_field_def capability_to_json_def
        capability_fields_def hello_json_def brief_json_def)
  then show ?thesis by (simp add: hello_json_def brief_json_def)
qed

section \<open>The handshake\<close>

lemma dial_config [simp]: "ds_config (fst (ds_mark_attempt E nid (ds_add_route L E node src kcp hops cap x))) = ds_config (fst x)"
  by (simp add: ds_mark_attempt_def ds_add_route_def at_now_def split_beta Let_def)

text \<open>All that an attempt sends is the hello, or a prefix of it when the connection breaks.\<close>

lemma dial_sends:
  assumes ret: "connect_bootstrap_node L E node a x = Done (acts, x')" and sent: "DsSend fd sent \<in> set acts"
  shows "\<exists>ts cap hello rest e. hello_for L E (ds_config (fst x)) (node_id node) e = Some (ts, cap, hello) \<and>
    str_bytes (js_dump (dl_json L) hello @ nl) = sent @ rest"
proof -
  define y where "y = ds_mark_attempt E (node_id node) (ds_add_route L E node None False 0 None x)"
  have cfg: "ds_config (fst y) = ds_config (fst x)" by (simp add: y_def)
  obtain fd' cls where c: "ds_connect_tcp (dl_pton L) (node_endpoint node) a = (fd', cls)"
    by (cases "ds_connect_tcp (dl_pton L) (node_endpoint node) a")
  obtain cap e where l: "local_capability E (snd y) = (cap, e)" by (cases "local_capability E (snd y)")
  obtain sg e' where h: "attach_hello_signature L E (ds_config (fst x)) (self_node (ds_config (fst x))) (node_id node) e = (sg, e')"
    by (rule prod.exhaust)
  have open': "\<not> fd' < 0"
    using ret sent c by (auto simp: connect_bootstrap_node_def Let_def ds_connect_tcp_def split: if_splits option.splits)
  obtain sgv where sg: "sg = Some sgv"
    using ret sent open' by (cases sg) (auto simp: connect_bootstrap_node_def y_def [symmetric] c l h cfg Let_def)
  let ?h = "hello_message (dl_json L) (self_node (ds_config (fst x))) cap (node_id node) sgv"
  obtain ok w where "write_all (da_io a) (str_bytes (js_dump (dl_json L) ?h @ nl)) = Some (ok, sent, w)"
    using ret sent open'
    by (auto simp: connect_bootstrap_node_def y_def [symmetric] c l h cfg sg Let_def obind_Done_iff io_def write_json_line_def
        ds_write_all_def nl_def split: if_splits option.splits)
  then obtain rest where "str_bytes (js_dump (dl_json L) ?h @ nl) = sent @ rest" using write_all_prefix by blast
  moreover have "hello_for L E (ds_config (fst x)) (node_id node) (snd y) = Some (fst (cb_now E (snd (cb_rand E e))), cap, ?h)"
    by (simp add: hello_for_def l h sg)
  ultimately show ?thesis by blast
qed

lemma whole_line:
  assumes "u @ [c] = v @ rest" and "c \<in> set v" and "c \<notin> set u"
  shows "v = u @ [c]"
proof -
  have "rest = []"
  proof (rule ccontr)
    assume "rest \<noteq> []"
    then obtain r where "rest = r @ [c]" using assms(1) by (metis append_is_Nil_conv last_appendR last_snoc append_butlast_last_id)
    then show False using assms by auto
  qed
  then show ?thesis using assms(1) by simp
qed

text \<open>
  C30: The handshake. Let one node connect to another, the line it sends be delivered in full, the
  clocks be at most ten minutes apart and a signature made with the node's key verify under its
  id. Then the session of the other node authenticates it, whatever the JSON and the crypto
  library do beyond their contracts: it goes on to add the node under exactly the address and
  capability the node advertises (the host replaced by the connection's if it is the wildcard).
\<close>

theorem handshake_authenticates:
  assumes libs: "json_laws (dl_json L)" "one_line (dl_json L)" "signs L (dc_identity (ds_config (fst x)))"
    and node: "\<not> conv_empty (identity_id (dc_identity (ds_config (fst x))))"
      "ascii (ep_host (dc_local_endpoint (ds_config (fst x))))" "ep_port (dc_local_endpoint (ds_config (fst x))) \<noteq> 0"
    and target: "node_id node = identity_id (dc_identity (ds_config (fst y)))"
    and dial: "connect_bootstrap_node L E node a x = Done (acts, x')" "DsSend fd sent \<in> set acts"
    and whole: "10 \<in> set sent" "length sent \<le> 1024 * 1024"
    and clock: "\<And>e. \<bar>fst (cb_now E e) - fst (cb_now E' (snd y))\<bar> \<le> 10 * 60 * 1000"
    and range: "\<And>e. i64 (fst (cb_now E e))" "\<And>e. cap_range (fst (local_capability E e))"
  shows "\<exists>e cap. fst (local_capability E e) = cap \<and>
    handle_tcp_session L E' fd' remote_host (arriving sent @ w) y =
      welcome_peer L E' fd' (fix_host remote_host (self_node (ds_config (fst x)))) (Some cap) w
        (fst y, snd (cb_now E' (snd y)))"
proof -
  obtain ts cap hello rest e where h: "hello_for L E (ds_config (fst x)) (node_id node) e = Some (ts, cap, hello)"
    and s: "str_bytes (js_dump (dl_json L) hello @ nl) = sent @ rest"
    using dial_sends [OF dial] by blast
  obtain e1 where c: "local_capability E e = (cap, e1)" by (rule hello_for_cases [OF h])
  have ts: "\<exists>e. ts = fst (cb_now E e)" using h by (auto simp: hello_for_def Let_def split: prod.splits option.splits)
  have clean: "js_clean (dl_json L) hello" by (rule hello_for_clean [OF libs(1) h node(2)])
  have "sent = str_bytes (js_dump (dl_json L) hello) @ [10]"
    by (rule whole_line [OF _ whole(1)])
      (use s str_bytes_no_nl clean libs(2) in \<open>auto simp: nl_def str_bytes_nl one_line_def\<close>)
  then have sent: "sent = str_bytes (js_dump (dl_json L) hello @ nl)" by (simp add: nl_def str_bytes_nl)
  have short: "length (js_dump (dl_json L) hello) \<le> 1024 * 1024" using whole(2) by (simp add: sent str_bytes_def)
  have "accepted_hello L E' (arriving sent @ w) y (self_node (ds_config (fst x))) (Some cap) w (snd (cb_now E' (snd y)))"
    unfolding sent
    by (rule hello_accepted [OF libs(1,2) h [unfolded target] libs(3) node _ _ _ short])
      (use range(2) [of e] c range(1) ts clock in \<open>auto simp: kHelloClockSkewMs_def\<close>)
  from accepted_welcome [OF this] show ?thesis using c by (intro exI [of _ e] exI [of _ cap]) simp
qed

abbreviation sample_net :: "jval disc_lib" where
  "sample_net \<equiv> sample_disc_lib hello_json"

abbreviation sample_world :: "u32 \<Rightarrow> unit world" where
  "sample_world n \<equiv> (DiscoveryService_init (sample_disc_config n), ())"

lemma sample_net_simps [simp]:
  "dl_json (sample_disc_lib J) = J" "dl_lay (sample_disc_lib J) = (\<lambda>m. m)"
  "ds_config (DiscoveryService_init c) = c" "identity_id (dc_identity (sample_disc_config n)) = from_uint32 n"
  "dc_local_endpoint (sample_disc_config n) = node_endpoint (sample_node n)" "self_node (sample_disc_config n) = sample_node n"
  "cb_now sample_disc_env e = (5000, e)"
  by (simp_all add: sample_disc_lib_def DiscoveryService_init_def sample_disc_config_def self_node_def sample_disc_env_def sample_node_def)

lemma sample_capability:
  "local_capability sample_disc_env e = (NodeCapability_init\<lparr>cap_present := True, cap_updated_at_ms := 5000\<rparr>, e)"
  by (simp add: local_capability_def sample_disc_env_def)

lemma sample_cap_range: "cap_range (NodeCapability_init\<lparr>cap_present := True, cap_updated_at_ms := 5000\<rparr>)"
  by (simp add: cap_range_def NodeCapability_init_def)

lemma sample_signs: "signs (sample_disc_lib J) (dc_identity (sample_disc_config n))"
  by (simp add: signs_def sample_disc_lib_def sample_disc_config_def)

definition sample_dial :: dial_answers where
  "sample_dial = \<lparr>da_socket = 3, da_connect = True, da_io = [Sent 2, Received []]\<rparr>"

lemma sample_dials:
  "\<exists>x'. connect_bootstrap_node sample_net sample_disc_env (sample_node 2) sample_dial (sample_world 1) =
     Done ([DsSend 3 [104, 10], DsClose 3], x')"
proof -
  define x where "x = ds_mark_attempt sample_disc_env (from_uint32 2)
    (ds_add_route sample_net sample_disc_env (sample_node 2) None False 0 None (sample_world 1))"
  have cfg: "ds_config (fst x) = sample_disc_config 1" by (simp add: x_def)
  have c: "ds_connect_tcp (dl_pton sample_net) (node_endpoint (sample_node 2)) sample_dial = (3, [])"
    by (simp add: ds_connect_tcp_def sample_dial_def make_sockaddr_def sample_disc_lib_def)
  have h: "\<exists>e'. attach_hello_signature sample_net sample_disc_env (sample_disc_config 1) (sample_node 1) (from_uint32 2) e =
      (Some [(''timestamp_ms'', js_i64 hello_json 5000), (''nonce'', js_str hello_json (hex_256 (from_uint32 7))),
        (''signature'', js_str hello_json (hex_512 (sample_signature (from_uint32 1))))], e')" for e
    by (simp add: attach_hello_signature_def sample_disc_env_def) (simp add: sample_disc_lib_def sample_disc_config_def)
  have w: "write_json_line hello_json (sample_hello hello_json) [Sent 2, Received []] = Some (True, [104, 10], [Received []])"
    by (simp add: write_json_line_def hello_json_hello ds_write_all_def str_bytes_def code_def)
  have da: "da_io sample_dial = [Sent 2, Received []]" by (simp add: sample_dial_def)
  have "bootstrap_read L E n [Received []] z = Done z" for L :: "jval disc_lib" and E :: "unit disc_env" and n z
    by (simp add: bootstrap_read.simps)
  with w show ?thesis
    using h [of "snd x"]
    by (auto simp: connect_bootstrap_node_def x_def [symmetric] cfg c sample_capability sample_hello_def Let_def da ds_mark_success_def at_now_def)
qed

theorem handshake_authenticates_witness:
  "\<exists>cap. handle_tcp_session sample_net sample_disc_env 5 ''10.0.0.9'' (arriving [104, 10]) (sample_world 2) =
     welcome_peer sample_net sample_disc_env 5 (sample_node 1) (Some cap) [] (sample_world 2)"
proof -
  obtain x' where d: "connect_bootstrap_node sample_net sample_disc_env (sample_node 2) sample_dial (sample_world 1) =
     Done ([DsSend 3 [104, 10], DsClose 3], x')" using sample_dials by blast
  have "\<exists>e cap. fst (local_capability sample_disc_env e) = cap \<and>
    handle_tcp_session sample_net sample_disc_env 5 ''10.0.0.9'' (arriving [104, 10] @ []) (sample_world 2) =
      welcome_peer sample_net sample_disc_env 5 (fix_host ''10.0.0.9'' (self_node (ds_config (fst (sample_world 1))))) (Some cap) []
        (fst (sample_world 2), snd (cb_now sample_disc_env (snd (sample_world 2))))"
    by (rule handshake_authenticates [OF _ _ _ _ _ _ _ d])
      (simp_all add: brief_json_laws [of "sample_hello sample_json", folded hello_json_def]
        brief_json_one_line [of "sample_hello sample_json", folded hello_json_def] sample_signs sample_capability sample_cap_range ascii_def code_def)
  then show ?thesis by (auto simp: fix_host_def)
qed

text \<open>A peer that hangs up before it is answered.\<close>

lemma write_failed: "write_json_line J doc (Failed # w) = Some (False, [], w)"
  by (simp add: write_json_line_def ds_write_all_def str_bytes_def)

lemma sample_welcome_done:
  "\<exists>acts x'. welcome_peer (sample_disc_lib J) sample_disc_env fd peer cap [Failed, Failed] x =
     Done (DsSend fd [] # acts, x')"
proof -
  have cb: "cb_link sample_disc_env = None" "cb_admission sample_disc_env = None" by (simp_all add: sample_disc_env_def)
  show ?thesis
    by (cases x)
      (simp add: welcome_peer_def send_routes_def negotiate_kcp_link_def ask_admission_def ask_link_def Let_def write_failed
        split_beta cb)
qed

lemma sample_accepted:
  assumes cfg: "ds_config (fst y) = sample_disc_config 2"
  shows "accepted_hello sample_net sample_disc_env (arriving [104, 10] @ w) y (sample_node 1)
     (Some (NodeCapability_init\<lparr>cap_present := True, cap_updated_at_ms := 5000\<rparr>)) w (snd y)"
proof -
  have h: "hello_for sample_net sample_disc_env (sample_disc_config 1) (identity_id (dc_identity (ds_config (fst y)))) () =
     Some (5000, NodeCapability_init\<lparr>cap_present := True, cap_updated_at_ms := 5000\<rparr>, sample_hello hello_json)"
    using sample_capability [of "()"]
    by (simp add: cfg hello_for_def attach_hello_signature_def sample_hello_def)
      (simp add: sample_disc_env_def sample_disc_lib_def sample_disc_config_def self_node_def sample_node_def)
  show ?thesis
    using hello_accepted [OF _ _ h, where E' = sample_disc_env and w = w]
    by (simp add: brief_json_laws [of "sample_hello sample_json", folded hello_json_def] sample_signs sample_cap_range ascii_def
        brief_json_one_line [of "sample_hello sample_json", folded hello_json_def] code_def kHelloClockSkewMs_def
        hello_json_hello nl_def str_bytes_def)
qed

theorem hello_authenticated_witness:
  "\<exists>acts x' peer ts nonce sg.
     handle_tcp_session sample_net sample_disc_env 5 ''10.0.0.9'' (arriving [104, 10] @ [Failed, Failed]) (sample_world 2) =
       Done (acts, x') \<and> \<bar>ts - 5000\<bar> \<le> 10 * 60 * 1000 \<and>
     dl_verify sample_net (node_id peer) (str_bytes (hello_signing_payload peer (from_uint32 2) ts nonce)) sg \<and>
     known (fst x') \<subseteq> {node_id peer}"
proof -
  obtain acts x' where d: "handle_tcp_session sample_net sample_disc_env 5 ''10.0.0.9'' (arriving [104, 10] @ [Failed, Failed])
      (sample_world 2) = Done (DsSend 5 [] # acts, x')"
    using accepted_welcome [OF sample_accepted [of "sample_world 2"]] sample_welcome_done by fastforce
  have "known (fst (sample_world 2)) = {}"
    by (simp add: known_def DiscoveryService_init_def RouteManager_init_def)
  then show ?thesis using hello_authenticated [OF _ d] d by (simp del: append.simps) blast
qed

text \<open>
  The signed text of a hello determines everything the receiver takes from it: whenever two
  hellos with acceptable nonces have the same signed text, they name the same node (identifier,
  host and port), the same target, the same time and the same nonce, even if hosts contain line
  breaks. So a signature cannot be moved to another address or another receiver.
\<close>

theorem hello_signature_binds:
  assumes "hello_signing_payload node target ts nonce = hello_signing_payload node' target' ts' nonce'"
    and "parse_hex_256 nonce \<noteq> None" and "parse_hex_256 nonce' \<noteq> None"
  shows "node = node' \<and> target = target' \<and> ts = ts' \<and> nonce = nonce'"
  by (rule hello_payload_inject [OF assms])

theorem hello_signature_binds_witness:
  "\<exists>k. parse_hex_256 (hex_256 k) \<noteq> None \<and>
     hello_signing_payload (sample_node 1) (from_uint32 2) 5000 (hex_256 k) \<noteq>
     hello_signing_payload (sample_node 1) (from_uint32 3) 5000 (hex_256 k)"
  using hello_signature_binds [of "sample_node 1" "from_uint32 2" 5000 "hex_256 (from_uint32 7)" "sample_node 1" "from_uint32 3" 5000
      "hex_256 (from_uint32 7)"]
  by (auto intro!: exI [of _ "from_uint32 7"] simp: from_uint32_inject)

section \<open>Messages\<close>

text \<open>
  C34: However the peer sends, the reader of a line returns: once more than a megabyte of answers
  other than interruptions has arrived it is done, and a line it returns has at most a megabyte
  and one byte.
\<close>

theorem line_reader_returns:
  assumes "1024 * 1024 + 1 < length (filter (\<lambda>a. a \<noteq> Interrupted) w)"
  shows "\<exists>r w'. ds_read_line [] w = Some (r, w') \<and> length w' < length w \<and> (case r of None \<Rightarrow> True | Some line \<Rightarrow> length line \<le> 1024 * 1024 + 1)"
proof -
  obtain r w' where r: "ds_read_line [] w = Some (r, w')" using ds_read_line_ends [of "[]" w] assms by auto
  then show ?thesis using ds_read_line_length [of "[]" w _ w'] ds_read_line_shorter [OF r] by (auto split: option.split)
qed

theorem line_reader_returns_witness:
  "\<exists>r w'. ds_read_line [] (replicate (1024 * 1024 + 2) (Received [65])) = Some (r, w')"
proof -
  have "length (filter (\<lambda>a. a \<noteq> Interrupted) (replicate (1024 * 1024 + 2) (Received [65]))) = 1024 * 1024 + 2"
    by (simp only: filter_replicate) simp
  then show ?thesis using line_reader_returns [of "replicate (1024 * 1024 + 2) (Received [65])"] by (simp del: replicate.simps) blast
qed

text \<open>
  C33: A message of a peer can end the process. A hello that is an object whose \<open>type\<close> is no string
  makes \<open>handle_tcp_session\<close> throw before anything is authenticated, and a control message that
  is JSON but no object makes \<open>on_kcp_control\<close> throw; neither exception is caught.
\<close>

theorem malformed_message_escapes:
  assumes J: "json_laws (dl_json L)"
  shows "(ds_read_line [] w = Some (Some line, w') \<and> js_parse (dl_json L) (bytes_str line) = Some hello \<and>
      js_is_object (dl_json L) hello \<and> js_find (dl_json L) hello ''type'' = Some v \<and> js_to_string (dl_json L) v = None \<longrightarrow>
      handle_tcp_session L E fd remote_host w x = Threw) \<and>
    (payload \<noteq> [] \<and> js_parse (dl_json L) (bytes_str payload) = Some doc \<and> \<not> js_is_object (dl_json L) doc \<longrightarrow>
      on_kcp_control L E payload x = Threw)"
  using js_value_found(5) [OF J, of hello "''type''" v "[]"]
  by (auto simp: handle_tcp_session_def hello_head_def on_kcp_control_def handle_control_json_def json_value(1) [OF J])

theorem malformed_message_escapes_witness:
  "handle_tcp_session (sample_disc_lib (brief_json (JObject [(''type'', JUnsigned 1)]))) sample_disc_env 5 ''10.0.0.9''
     (arriving [104, 10]) (sample_world 2) = Threw \<and>
   on_kcp_control (sample_disc_lib (brief_json JNull)) sample_disc_env [104] (sample_world 2) = Threw"
proof -
  have h: "bytes_str [104] = ''h''" by code_simp
  have l: "ds_read_line [] (arriving [104, 10]) = Some (Some [104], [])"
    using ds_read_line_arriving [of "[104]" "[]" "[]"] by (simp add: arriving_def)
  have "handle_tcp_session (sample_disc_lib (brief_json (JObject [(''type'', JUnsigned 1)]))) sample_disc_env 5 ''10.0.0.9''
      (arriving [104, 10]) (sample_world 2) = Threw"
    by (rule malformed_message_escapes [THEN conjunct1, THEN mp, of _ _ "[104]" "[]" "JObject [(''type'', JUnsigned 1)]" "JUnsigned 1"],
        simp add: brief_json_laws, simp add: l h brief_json_def, simp add: sample_json_def jv_string_def)
  moreover have "on_kcp_control (sample_disc_lib (brief_json JNull)) sample_disc_env [104] (sample_world 2) = Threw"
    by (rule malformed_message_escapes [THEN conjunct2, THEN mp, of _ _ JNull],
        simp add: brief_json_laws, simp add: h brief_json_def, simp add: sample_json_def)
  ultimately show ?thesis by blast
qed

lemma route_to_json_clean:
  assumes "json_laws J" and "ascii (ep_host (node_endpoint (re_node r)))"
  shows "js_clean J (route_to_json J r)"
proof -
  have obj: "js_is_object J (node_to_json J (re_node r) (Some (re_capability r)))"
    unfolding node_to_json_def by (rule js_object_is_object [OF assms(1)]) (simp add: node_fields_def)
  show ?thesis
    unfolding route_to_json_def
    using json_clean(7) [OF assms(1) js_container_simps(2) [OF obj] node_to_json_clean [OF assms]] json_clean(4) [OF assms(1)]
    by (simp add: ascii_def code_def)
qed

text \<open>
  C32: What a node announces is what its neighbours learn: handing the broadcast payload of an
  announced route to the control handler of another node adds exactly that node, with its
  capability and its hop count, and nothing else.
\<close>

theorem announcement_learnt:
  assumes J: "json_laws (dl_json L)" and b: "cb_broadcast E = Some broadcast"
    and r: "valid_route_node (re_node r)" "ascii (ep_host (node_endpoint (re_node r)))" "cap_range (re_capability r)"
  shows "\<exists>payload. announce_route L E r x = (fst x, broadcast payload (snd x)) \<and>
    on_kcp_control L E' payload y =
      Done (ds_add_route L E' (re_node r) None False (re_hop_count r)
        (if cap_present (re_capability r) then Some (re_capability r) else None) y)"
proof -
  let ?J = "dl_json L"
  let ?m = "js_object ?J (js_null ?J) [(''type'', js_str ?J ''node''), (''node'', route_to_json ?J r)]"
  have clean: "js_clean ?J ?m"
    by (rule js_object_clean [OF J]) (use json_clean(1,2) [OF J] route_to_json_clean [OF J r(2)] in \<open>simp_all add: ascii_def code_def\<close>)
  define m where "m = js_reparse ?J ?m"
  have p: "js_parse ?J (js_dump ?J ?m) = Some m" unfolding m_def by (rule json_text(1) [OF J clean])
  have l: "js_is_object ?J m" "js_find ?J m k = map_option (js_reparse ?J) (map_of [(''type'', js_str ?J ''node''), (''node'', route_to_json ?J r)] k)"
    for k unfolding m_def by (rule built_reparse(2,3) [OF J]; simp)+
  have t: "js_value_string ?J m ''type'' [] = Some ''node''"
    using js_value_found(5) [OF J l(1), of "''type''"] l(2) [of "''type''"] json_text(5) [OF J] json_build(5) [OF J] by simp
  have n: "js_find ?J m ''node'' = Some (js_reparse ?J (route_to_json ?J r))" by (simp add: l(2))
  have "str_bytes (js_dump ?J ?m) \<noteq> []" using json_text(2) [OF J clean] by (simp add: str_bytes_def)
  then have "on_kcp_control L E' (str_bytes (js_dump ?J ?m)) y = Done (ds_add_route L E' (re_node r) None False (re_hop_count r)
        (if cap_present (re_capability r) then Some (re_capability r) else None) y)"
    using route_round_trip [OF J r(1,3)]
    by (simp add: on_kcp_control_def handle_control_json_def p t n learn_route_def del: js_object.simps)
  moreover have "announce_route L E r x = (fst x, broadcast (str_bytes (js_dump ?J ?m)) (snd x))"
    by (simp add: announce_route_def b Let_def)
  ultimately show ?thesis by blast
qed

definition sample_route :: RouteEntry where
  "sample_route = RouteEntry_init\<lparr>re_node := sample_node 3, re_hop_count := 2\<rparr>"

theorem announcement_learnt_witness:
  "\<exists>payload. announce_route sample_net (sample_disc_env\<lparr>cb_broadcast := Some (\<lambda>p e. e)\<rparr>) sample_route (sample_world 1) =
      (sample_world 1) \<and>
    on_kcp_control sample_net sample_disc_env payload (sample_world 2) =
      Done (ds_add_route sample_net sample_disc_env (sample_node 3) None False 2 None (sample_world 2))"
proof -
  have c: "cap_range (re_capability sample_route)" "\<not> cap_present (re_capability sample_route)"
    by (simp_all add: cap_range_def sample_route_def RouteEntry_init_def NodeCapability_init_def)
  have n: "re_node sample_route = sample_node 3" "re_hop_count sample_route = 2" by (simp_all add: sample_route_def RouteEntry_init_def)
  have "\<exists>payload. announce_route sample_net (sample_disc_env\<lparr>cb_broadcast := Some (\<lambda>p e. e)\<rparr>) sample_route (sample_world 1) =
      (fst (sample_world 1), snd (sample_world 1)) \<and>
    on_kcp_control sample_net sample_disc_env payload (sample_world 2) =
      Done (ds_add_route sample_net sample_disc_env (re_node sample_route) None False (re_hop_count sample_route)
        (if cap_present (re_capability sample_route) then Some (re_capability sample_route) else None) (sample_world 2))"
    by (rule announcement_learnt)
      (simp_all add: brief_json_laws [of "sample_hello sample_json", folded hello_json_def] n c valid_route_node_def ascii_def code_def)
  then show ?thesis by (simp add: n c)
qed

section \<open>The table of the service\<close>



end
