(* ===== verification/PassThrough.thy ===== *)
theory PassThrough
  imports TcpIngress TunnelFrame Outcome
begin

text \<open>
  The business layer (\<open>iota_proxy/src/business/PassThroughBusiness.cpp\<close>): what a TCP event sends
  into the tunnel and what a tunnel frame does on the TCP side. The layer has no state but its
  callbacks, each of which may be unset; a callback works on a state \<open>'e\<close> of the program around.
\<close>

record 'e PassThroughBusiness =
  pb_kcp_sender :: "(TunnelFrameType \<Rightarrow> u64 \<Rightarrow> bytes \<Rightarrow> ('e, bool) call) option"
  pb_tcp_sender :: "(u64 \<Rightarrow> bytes \<Rightarrow> ('e, bool) call) option"
  pb_tcp_write_shutdown :: "(u64 \<Rightarrow> ('e, unit) call) option"
  pb_tcp_shutdown :: "(u64 \<Rightarrow> ('e, unit) call) option"
  pb_tcp_egress_open :: "(u64 \<Rightarrow> ('e, bool) call) option"
  pb_tcp_egress_sender :: "(u64 \<Rightarrow> bytes \<Rightarrow> ('e, bool) call) option"
  pb_tcp_egress_write_shutdown :: "(u64 \<Rightarrow> ('e, unit) call) option"
  pb_tcp_egress_shutdown :: "(u64 \<Rightarrow> ('e, unit) call) option"
  pb_edge_data_sink :: "(u64 \<Rightarrow> bytes \<Rightarrow> BroadcastMetadata \<Rightarrow> ('e, bool) call) option"
  pb_replicate_sender :: "(u64 \<Rightarrow> bytes \<Rightarrow> BroadcastMetadata \<Rightarrow> ('e, nat) call) option"
  pb_broadcast_metadata_factory :: "('e, BroadcastMetadata) call option"

definition PassThroughBusiness_init :: "'e PassThroughBusiness" where
  "PassThroughBusiness_init =
     \<lparr>pb_kcp_sender = None, pb_tcp_sender = None, pb_tcp_write_shutdown = None, pb_tcp_shutdown = None,
      pb_tcp_egress_open = None, pb_tcp_egress_sender = None, pb_tcp_egress_write_shutdown = None,
      pb_tcp_egress_shutdown = None, pb_edge_data_sink = None, pb_replicate_sender = None,
      pb_broadcast_metadata_factory = None\<rparr>"

text \<open>The setters; a function object may be empty.\<close>

definition set_kcp_sender :: "(TunnelFrameType \<Rightarrow> u64 \<Rightarrow> bytes \<Rightarrow> ('e, bool) call) option \<Rightarrow> 'e PassThroughBusiness \<Rightarrow> 'e PassThroughBusiness" where
  "set_kcp_sender f B = B\<lparr>pb_kcp_sender := f\<rparr>"

definition set_tcp_sender :: "(u64 \<Rightarrow> bytes \<Rightarrow> ('e, bool) call) option \<Rightarrow> 'e PassThroughBusiness \<Rightarrow> 'e PassThroughBusiness" where
  "set_tcp_sender f B = B\<lparr>pb_tcp_sender := f\<rparr>"

definition set_tcp_write_shutdown :: "(u64 \<Rightarrow> ('e, unit) call) option \<Rightarrow> 'e PassThroughBusiness \<Rightarrow> 'e PassThroughBusiness" where
  "set_tcp_write_shutdown f B = B\<lparr>pb_tcp_write_shutdown := f\<rparr>"

definition set_tcp_shutdown :: "(u64 \<Rightarrow> ('e, unit) call) option \<Rightarrow> 'e PassThroughBusiness \<Rightarrow> 'e PassThroughBusiness" where
  "set_tcp_shutdown f B = B\<lparr>pb_tcp_shutdown := f\<rparr>"

definition set_tcp_egress_open :: "(u64 \<Rightarrow> ('e, bool) call) option \<Rightarrow> 'e PassThroughBusiness \<Rightarrow> 'e PassThroughBusiness" where
  "set_tcp_egress_open f B = B\<lparr>pb_tcp_egress_open := f\<rparr>"

definition set_tcp_egress_sender :: "(u64 \<Rightarrow> bytes \<Rightarrow> ('e, bool) call) option \<Rightarrow> 'e PassThroughBusiness \<Rightarrow> 'e PassThroughBusiness" where
  "set_tcp_egress_sender f B = B\<lparr>pb_tcp_egress_sender := f\<rparr>"

definition set_tcp_egress_write_shutdown :: "(u64 \<Rightarrow> ('e, unit) call) option \<Rightarrow> 'e PassThroughBusiness \<Rightarrow> 'e PassThroughBusiness" where
  "set_tcp_egress_write_shutdown f B = B\<lparr>pb_tcp_egress_write_shutdown := f\<rparr>"

definition set_tcp_egress_shutdown :: "(u64 \<Rightarrow> ('e, unit) call) option \<Rightarrow> 'e PassThroughBusiness \<Rightarrow> 'e PassThroughBusiness" where
  "set_tcp_egress_shutdown f B = B\<lparr>pb_tcp_egress_shutdown := f\<rparr>"

definition set_edge_data_sink :: "(u64 \<Rightarrow> bytes \<Rightarrow> BroadcastMetadata \<Rightarrow> ('e, bool) call) option \<Rightarrow> 'e PassThroughBusiness \<Rightarrow> 'e PassThroughBusiness" where
  "set_edge_data_sink f B = B\<lparr>pb_edge_data_sink := f\<rparr>"

definition set_replicate_sender :: "(u64 \<Rightarrow> bytes \<Rightarrow> BroadcastMetadata \<Rightarrow> ('e, nat) call) option \<Rightarrow> 'e PassThroughBusiness \<Rightarrow> 'e PassThroughBusiness" where
  "set_replicate_sender f B = B\<lparr>pb_replicate_sender := f\<rparr>"

definition set_broadcast_metadata_factory :: "('e, BroadcastMetadata) call option \<Rightarrow> 'e PassThroughBusiness \<Rightarrow> 'e PassThroughBusiness" where
  "set_broadcast_metadata_factory f B = B\<lparr>pb_broadcast_metadata_factory := f\<rparr>"

lemmas set_defs = set_kcp_sender_def set_tcp_sender_def set_tcp_write_shutdown_def set_tcp_shutdown_def set_tcp_egress_open_def set_tcp_egress_sender_def set_tcp_egress_write_shutdown_def set_tcp_egress_shutdown_def set_edge_data_sink_def set_replicate_sender_def set_broadcast_metadata_factory_def

text \<open>The branch for data of \<open>on_tcp_event\<close>.\<close>

definition pb_on_data ::
  "'e PassThroughBusiness \<Rightarrow> (TunnelFrameType \<Rightarrow> u64 \<Rightarrow> bytes \<Rightarrow> ('e, bool) call) \<Rightarrow> TcpEvent \<Rightarrow> ('e, unit) call" where
  "pb_on_data B kcp_sender event e =
     (let sid = te_stream_id event; payload = te_payload event; ingress = (te_source event = Ingress) in
      obind (case pb_broadcast_metadata_factory B of
               Some factory \<Rightarrow> if ingress then factory e else Done (BroadcastMetadata_init, e)
             | None \<Rightarrow> Done (BroadcastMetadata_init, e)) (\<lambda>(metadata, e).
      obind (if ingress then opt_call (pb_edge_data_sink B) (\<lambda>sink. sink sid payload metadata) e else Done ((), e)) (\<lambda>(_, e).
      obind (if ingress then opt_call (pb_replicate_sender B) (\<lambda>rep. rep sid payload metadata) e else Done ((), e)) (\<lambda>(_, e).
      obind (kcp_sender Data sid payload e) (\<lambda>(_, e). Done ((), e))))))"

definition pb_on_tcp_event :: "'e PassThroughBusiness \<Rightarrow> TcpEvent \<Rightarrow> ('e, unit) call" where
  "pb_on_tcp_event B event e =
     (case pb_kcp_sender B of
        None \<Rightarrow> Done ((), e)
      | Some kcp_sender \<Rightarrow>
          if te_stream_id event = 0 then Done ((), e)
          else case te_type event of
                 TcpConnected \<Rightarrow> obind (kcp_sender Open (te_stream_id event) [] e) (\<lambda>(_, e). Done ((), e))
               | TcpData \<Rightarrow> pb_on_data B kcp_sender event e
               | TcpClosed \<Rightarrow> obind (kcp_sender Finish (te_stream_id event) [] e) (\<lambda>(_, e). Done ((), e)))"

text \<open>The branch for data of \<open>on_kcp_frame\<close>: the egress first, then the ingress connection.\<close>

definition pb_on_kcp_data :: "'e PassThroughBusiness \<Rightarrow> u64 \<Rightarrow> bytes \<Rightarrow> ('e, unit) call" where
  "pb_on_kcp_data B sid payload e =
     obind (case pb_tcp_egress_sender B of None \<Rightarrow> Done (False, e) | Some send \<Rightarrow> send sid payload e) (\<lambda>(taken, e).
       if taken then Done ((), e)
       else case pb_tcp_sender B of
              None \<Rightarrow> Done ((), e)
            | Some send \<Rightarrow>
                obind (send sid payload e) (\<lambda>(ok, e).
                  if ok then Done ((), e) else opt_call (pb_kcp_sender B) (\<lambda>kcp. kcp Close sid []) e))"

definition pb_on_kcp_frame :: "'e PassThroughBusiness \<Rightarrow> TunnelFrameView \<Rightarrow> ('e, unit) call" where
  "pb_on_kcp_frame B frame e =
     (let sid = fv_stream_id frame in
      if sid = 0 then Done ((), e)
      else case fv_type frame of
             Open \<Rightarrow>
               obind (case pb_tcp_egress_open B of None \<Rightarrow> Done (False, e) | Some op \<Rightarrow> op sid e) (\<lambda>(ok, e).
                 if ok then Done ((), e) else opt_call (pb_kcp_sender B) (\<lambda>kcp. kcp Close sid []) e)
           | Data \<Rightarrow> if fv_payload frame = [] then Done ((), e) else pb_on_kcp_data B sid (fv_payload frame) e
           | Close \<Rightarrow>
               obind (opt_call (pb_tcp_egress_shutdown B) (\<lambda>f. f sid) e) (\<lambda>(_, e).
                 opt_call (pb_tcp_shutdown B) (\<lambda>f. f sid) e)
           | Finish \<Rightarrow>
               obind (opt_call (pb_tcp_egress_write_shutdown B) (\<lambda>f. f sid) e) (\<lambda>(_, e).
                 opt_call (pb_tcp_write_shutdown B) (\<lambda>f. f sid) e)
           | Control \<Rightarrow> Done ((), e)
           | Replicate \<Rightarrow>
               if fv_payload frame = [] then Done ((), e)
               else opt_call (pb_edge_data_sink B) (\<lambda>sink. sink sid (fv_payload frame) (fv_broadcast frame)) e
           | KafkaBroadcast \<Rightarrow> Done ((), e))"

end
