(* ===== verification/ProxyRuntime.thy ===== *)
theory ProxyRuntime
  imports PassThrough Discovery KcpTunnel TcpEgress Pipeline Admission
begin

text \<open>
  The whole proxy (\<open>iota_proxy/src/ProxyRuntime.cpp\<close>): the components and the callbacks that
  connect them. The state is the record of the components; what they do to the outside is a log of
  actions. Whatever the outside answers (clocks, random bytes, KCP sends, sockets, Redis, Kafka) is
  a function of the number of questions asked before, so every call of every component may be
  answered differently.
\<close>

section \<open>State\<close>

record ProxyRuntimeConfig =
  pc_admission :: AdmissionControlConfig
  pc_tcp :: TcpIngressConfig
  pc_egress :: TcpEgressConfig
  pc_edge_data :: EdgeDataPipelineConfig
  pc_kafka_broadcast :: KafkaBroadcastSourceConfig
  pc_kcp :: KcpTunnelConfig
  pc_discovery :: DiscoveryConfig

datatype pr_action =
    PrTcp ti_action
  | PrEgress eg_action
  | PrEdge ed_action
  | PrKafka kf_action
  | PrKcp kt_action
  | PrDiscovery ds_action

record ProxyRuntime =
  pr_config :: ProxyRuntimeConfig
  pr_admission :: AdmissionControl
  pr_tcp :: TcpIngress
  pr_egress :: TcpEgress
  pr_edge_data :: EdgeDataPipeline
  pr_kafka_broadcast :: KafkaBroadcastSource
  pr_kcp :: KcpTunnel
  pr_discovery :: DiscoveryService
  pr_log :: "pr_action list"
  pr_asked :: nat

text \<open>The constructor: every component with its callbacks set.\<close>

definition ProxyRuntime_init :: "int \<Rightarrow> ProxyRuntimeConfig \<Rightarrow> ProxyRuntime" where
  "ProxyRuntime_init now config =
     \<lparr>pr_config = config, pr_admission = AdmissionControl_init (pc_admission config) now,
      pr_tcp = ti_set_event_handler (TcpIngress_init (pc_tcp config)),
      pr_egress = eg_set_event_handler (TcpEgress_init (pc_egress config)),
      pr_edge_data = EdgeDataPipeline_init (pc_edge_data config),
      pr_kafka_broadcast = kb_set_sender (KafkaBroadcastSource_init (pc_kafka_broadcast config)),
      pr_kcp = set_control_callback (set_frame_callback (KcpTunnel_init (pc_kcp config))),
      pr_discovery = DiscoveryService_init (pc_discovery config), pr_log = [], pr_asked = 0\<rparr>"

record rt_answers =
  an_wall :: "nat \<Rightarrow> int"                              \<comment> \<open>\<open>system_clock\<close>, in milliseconds\<close>
  an_steady :: "nat \<Rightarrow> int"                            \<comment> \<open>\<open>steady_clock\<close>, in milliseconds\<close>
  an_rand :: "nat \<Rightarrow> KcpConv option"                   \<comment> \<open>\<open>RAND_bytes\<close>\<close>
  an_send :: "nat \<Rightarrow> send_fun"                         \<comment> \<open>\<open>KcpManager::send\<close>\<close>
  an_redis :: "nat \<Rightarrow> redis_world"
  an_kafka :: "nat \<Rightarrow> kafka_answers"
  an_connect :: "nat \<Rightarrow> connect_answers"
  an_spawn :: "nat \<Rightarrow> bool"                            \<comment> \<open>whether a thread could be started\<close>
  an_write :: "nat \<Rightarrow> sys_answers"
  an_alive :: "nat \<Rightarrow> TcpConnection \<Rightarrow> bool"
  an_conn_send :: "nat \<Rightarrow> TcpConnection \<Rightarrow> bytes \<Rightarrow> bool"

record 'j rt_lib =
  rl_disc :: "'j disc_lib"
  rl_peers :: "peer_map \<Rightarrow> peer_map"
  rl_seen :: "seen_map \<Rightarrow> seen_map"
  rl_streams :: "(u64 \<times> nat) list \<Rightarrow> (u64 \<times> nat) list"

definition asked :: "ProxyRuntime \<Rightarrow> ProxyRuntime" where
  "asked s = s\<lparr>pr_asked := Suc (pr_asked s)\<rparr>"

definition logged :: "('a \<Rightarrow> pr_action) \<Rightarrow> 'a list \<Rightarrow> ProxyRuntime \<Rightarrow> ProxyRuntime" where
  "logged f acts s = s\<lparr>pr_log := pr_log s @ map f acts\<rparr>"

section \<open>The callbacks of the business layer\<close>

definition rt_kcp_sender ::
  "'j rt_lib \<Rightarrow> rt_answers \<Rightarrow> TunnelFrameType \<Rightarrow> u64 \<Rightarrow> bytes \<Rightarrow> (ProxyRuntime, bool) call" where
  "rt_kcp_sender L A type stream_id payload s =
     (let next = select_default_next_hop (dl_pow (rl_disc L)) (an_wall A (pr_asked s)) (ds_routes (pr_discovery s));
          (ok, acts) = (case next of
             Some hop \<Rightarrow> send_frame_to (an_send A (pr_asked s)) (node_id (nh_next_hop hop)) type stream_id payload (pr_kcp s)
           | None \<Rightarrow> send_frame (an_send A (pr_asked s)) type stream_id payload (pr_kcp s))
      in Done (ok, logged PrKcp acts (asked s)))"

definition rt_tcp_sender :: "rt_answers \<Rightarrow> u64 \<Rightarrow> bytes \<Rightarrow> (ProxyRuntime, bool) call" where
  "rt_tcp_sender A stream_id payload s =
     (let (ok, acts) = ti_send_to_stream (an_alive A (pr_asked s)) (an_conn_send A (pr_asked s)) stream_id payload (pr_tcp s)
      in Done (ok, logged PrTcp acts (asked s)))"

definition rt_tcp_write_shutdown :: "u64 \<Rightarrow> (ProxyRuntime, unit) call" where
  "rt_tcp_write_shutdown stream_id s = Done ((), logged PrTcp (ti_shutdown_stream_write stream_id (pr_tcp s)) s)"

definition rt_tcp_shutdown :: "u64 \<Rightarrow> (ProxyRuntime, unit) call" where
  "rt_tcp_shutdown stream_id s = Done ((), logged PrTcp (ti_shutdown_stream stream_id (pr_tcp s)) s)"

text \<open>\<open>open_stream\<close> throws when it cannot start the thread.\<close>

definition rt_egress_open :: "'j rt_lib \<Rightarrow> rt_answers \<Rightarrow> u64 \<Rightarrow> (ProxyRuntime, bool) call" where
  "rt_egress_open L A stream_id s =
     (case open_stream (dl_pton (rl_disc L)) (rl_streams L) (an_spawn A (pr_asked s)) (an_connect A (pr_asked s)) stream_id
             (pr_egress s) of
        None \<Rightarrow> Blocked
      | Some (None, _) \<Rightarrow> Threw
      | Some (Some ok, acts, egress) \<Rightarrow> Done (ok, logged PrEgress acts ((asked s)\<lparr>pr_egress := egress\<rparr>)))"

definition rt_egress_sender :: "rt_answers \<Rightarrow> u64 \<Rightarrow> bytes \<Rightarrow> (ProxyRuntime, bool) call" where
  "rt_egress_sender A stream_id payload s =
     obind (io (eg_send_to_stream (an_write A (pr_asked s)) stream_id payload (pr_egress s)))
       (\<lambda>(ok, acts, egress). Done (ok, logged PrEgress acts ((asked s)\<lparr>pr_egress := egress\<rparr>)))"

definition rt_egress_write_shutdown :: "u64 \<Rightarrow> (ProxyRuntime, unit) call" where
  "rt_egress_write_shutdown stream_id s = Done ((), logged PrEgress (eg_shutdown_stream_write stream_id (pr_egress s)) s)"

definition rt_egress_shutdown :: "u64 \<Rightarrow> (ProxyRuntime, unit) call" where
  "rt_egress_shutdown stream_id s =
     (let (acts, egress) = close_stream stream_id (pr_egress s)
      in Done ((), logged PrEgress acts (s\<lparr>pr_egress := egress\<rparr>)))"

definition rt_edge_data_sink ::
  "'j rt_lib \<Rightarrow> rt_answers \<Rightarrow> u64 \<Rightarrow> bytes \<Rightarrow> BroadcastMetadata \<Rightarrow> (ProxyRuntime, bool) call" where
  "rt_edge_data_sink L A stream_id payload metadata s =
     obind (io (write_edge_data (dl_json (rl_disc L)) (dl_pton (rl_disc L)) (an_kafka A (pr_asked s)) (an_wall A (pr_asked s))
              stream_id payload metadata (an_redis A (pr_asked s)) (pr_edge_data s)))
       (\<lambda>(ok, acts, _, edge). Done (ok, logged PrEdge acts ((asked s)\<lparr>pr_edge_data := edge\<rparr>)))"

text \<open>Every broadcast of a frame: the tunnel draws its own random bytes and reads the steady clock.\<close>

definition rt_broadcast ::
  "'j rt_lib \<Rightarrow> rt_answers \<Rightarrow> TunnelFrameType \<Rightarrow> u64 \<Rightarrow> bytes \<Rightarrow> BroadcastMetadata option \<Rightarrow> (ProxyRuntime, nat) call" where
  "rt_broadcast L A type stream_id payload metadata s =
     (let (n, acts, kcp) = broadcast_frame (an_send A (pr_asked s)) (rl_seen L) (an_rand A (pr_asked s)) (an_steady A (pr_asked s))
            type stream_id payload metadata (pr_kcp s)
      in Done (n, logged PrKcp acts ((asked s)\<lparr>pr_kcp := kcp\<rparr>)))"

definition rt_replicate_sender ::
  "'j rt_lib \<Rightarrow> rt_answers \<Rightarrow> u64 \<Rightarrow> bytes \<Rightarrow> BroadcastMetadata \<Rightarrow> (ProxyRuntime, nat) call" where
  "rt_replicate_sender L A stream_id payload metadata = rt_broadcast L A Replicate stream_id payload (Some metadata)"

definition random_message_id :: "KcpConv option \<Rightarrow> KcpConv option" where
  "random_message_id rand =
     (case rand of None \<Rightarrow> None
      | Some out \<Rightarrow> Some (if conv_empty out then arr_of ((arr_bytes out)[31 := 1]) else out))"

text \<open>When \<open>RAND_bytes\<close> fails the identifier is left as it is, and the metadata are not valid.\<close>

definition rt_metadata_factory :: "rt_answers \<Rightarrow> (ProxyRuntime, BroadcastMetadata) call" where
  "rt_metadata_factory A s =
     (let origin = identity_id (kt_identity (pc_kcp (pr_config s)))
      in if conv_empty origin then Done (BroadcastMetadata_init\<lparr>bm_origin := origin\<rparr>, s)
         else case random_message_id (an_rand A (pr_asked s)) of
                None \<Rightarrow> Done (BroadcastMetadata_init\<lparr>bm_origin := origin\<rparr>, asked s)
              | Some mid \<Rightarrow>
                  Done (BroadcastMetadata_init\<lparr>bm_origin := origin, bm_message_id := mid, bm_valid := True\<rparr>, asked s))"

definition rt_business :: "'j rt_lib \<Rightarrow> rt_answers \<Rightarrow> ProxyRuntime PassThroughBusiness" where
  "rt_business L A =
     (set_broadcast_metadata_factory (Some (rt_metadata_factory A))
     (set_replicate_sender (Some (rt_replicate_sender L A))
     (set_edge_data_sink (Some (rt_edge_data_sink L A))
     (set_tcp_egress_shutdown (Some rt_egress_shutdown)
     (set_tcp_egress_write_shutdown (Some rt_egress_write_shutdown)
     (set_tcp_egress_sender (Some (rt_egress_sender A))
     (set_tcp_egress_open (Some (rt_egress_open L A))
     (set_tcp_shutdown (Some rt_tcp_shutdown)
     (set_tcp_write_shutdown (Some rt_tcp_write_shutdown)
     (set_tcp_sender (Some (rt_tcp_sender A))
     (set_kcp_sender (Some (rt_kcp_sender L A))
     PassThroughBusiness_init)))))))))))"

lemma rt_business_eq:
  "rt_business L A =
     \<lparr>pb_kcp_sender = Some (rt_kcp_sender L A),
      pb_tcp_sender = Some (rt_tcp_sender A),
      pb_tcp_write_shutdown = Some rt_tcp_write_shutdown,
      pb_tcp_shutdown = Some rt_tcp_shutdown,
      pb_tcp_egress_open = Some (rt_egress_open L A),
      pb_tcp_egress_sender = Some (rt_egress_sender A),
      pb_tcp_egress_write_shutdown = Some rt_egress_write_shutdown,
      pb_tcp_egress_shutdown = Some rt_egress_shutdown,
      pb_edge_data_sink = Some (rt_edge_data_sink L A),
      pb_replicate_sender = Some (rt_replicate_sender L A),
      pb_broadcast_metadata_factory = Some (rt_metadata_factory A)\<rparr>"
  by (simp add: rt_business_def PassThroughBusiness_init_def set_defs)

section \<open>The callbacks of the discovery service\<close>

definition rt_disc_env :: "rt_answers \<Rightarrow> 'j rt_lib \<Rightarrow> ProxyRuntime disc_env" where
  "rt_disc_env A L =
     \<lparr>cb_now = (\<lambda>s. (an_wall A (pr_asked s), asked s)),
      cb_rand = (\<lambda>s. (an_rand A (pr_asked s), asked s)),
      cb_link = Some (\<lambda>peer conv s.
        if \<not> can_accept_kcp_link (peer_link_count (pr_kcp s)) (pr_admission s) then (False, s)
        else let (ok, kcp) = add_peer_link (dl_pton (rl_disc L)) (rl_peers L) peer conv (pr_kcp s) in (ok, s\<lparr>pr_kcp := kcp\<rparr>)),
      cb_broadcast = Some (\<lambda>payload s.
        let (_, acts, kcp) = broadcast_control (an_send A (pr_asked s)) (rl_seen L) (an_rand A (pr_asked s))
              (an_steady A (pr_asked s)) payload (pr_kcp s)
        in logged PrKcp acts ((asked s)\<lparr>pr_kcp := kcp\<rparr>)),
      cb_capability = Some (\<lambda>s.
        let (capability, adm) = snapshot_capability (an_steady A (pr_asked s)) (an_wall A (pr_asked s))
              (peer_link_count (pr_kcp s)) (pr_admission s)
        in (capability, (asked s)\<lparr>pr_admission := adm\<rparr>)),
      cb_admission = Some (\<lambda>peer s. (can_accept_kcp_link (peer_link_count (pr_kcp s)) (pr_admission s), s))\<rparr>"

text \<open>A handler of the discovery service, run on the component in its place.\<close>

definition with_discovery ::
  "(DiscoveryService \<times> ProxyRuntime \<Rightarrow> (DiscoveryService \<times> ProxyRuntime) outcome) \<Rightarrow> (ProxyRuntime, unit) call" where
  "with_discovery handler s = obind (handler (pr_discovery s, s)) (\<lambda>(service, s'). Done ((), s'\<lparr>pr_discovery := service\<rparr>))"

section \<open>Frames and control messages from the tunnel\<close>

definition accept_bytes :: "rt_answers \<Rightarrow> bytes \<Rightarrow> ProxyRuntime \<Rightarrow> bool \<times> ProxyRuntime" where
  "accept_bytes A payload s =
     (let (ok, adm) = try_accept_ingress_bytes (an_steady A (pr_asked s)) (of_nat (length payload)) (pr_admission s)
      in (ok, (asked s)\<lparr>pr_admission := adm\<rparr>))"

definition rt_record_kafka ::
  "'j rt_lib \<Rightarrow> rt_answers \<Rightarrow> bytes \<Rightarrow> BroadcastMetadata \<Rightarrow> (ProxyRuntime, bool \<times> bool) call" where
  "rt_record_kafka L A payload metadata s =
     obind (io (record_kafka_message (dl_json (rl_disc L)) (dl_pton (rl_disc L)) (an_wall A (pr_asked s)) payload metadata
              (an_redis A (pr_asked s)) (pr_edge_data s)))
       (\<lambda>(ok, duplicate, acts, _, edge). Done ((ok, duplicate), logged (PrEdge \<circ> EdRedis) acts ((asked s)\<lparr>pr_edge_data := edge\<rparr>)))"

definition rt_frame_callback :: "'j rt_lib \<Rightarrow> rt_answers \<Rightarrow> TunnelFrameView \<Rightarrow> (ProxyRuntime, unit) call" where
  "rt_frame_callback L A frame s =
     (let (ok, s) = accept_bytes A (fv_payload frame) s
      in if \<not> ok then Done ((), s)
         else if fv_type frame = KafkaBroadcast
         then obind (rt_record_kafka L A (fv_payload frame) (fv_broadcast frame) s) (\<lambda>((recorded, duplicate), s).
                if \<not> recorded then Done ((), s)
                else if \<not> duplicate
                then obind (rt_broadcast L A KafkaBroadcast (fv_stream_id frame) (fv_payload frame) (Some (fv_broadcast frame)) s)
                       (\<lambda>(_, s). Done ((), s))
                else Done ((), s))
         else pb_on_kcp_frame (rt_business L A) frame s)"

definition rt_control_callback :: "'j rt_lib \<Rightarrow> rt_answers \<Rightarrow> bytes \<Rightarrow> (ProxyRuntime, unit) call" where
  "rt_control_callback L A payload s =
     (let (ok, s) = accept_bytes A payload s
      in if \<not> ok then Done ((), s)
         else with_discovery (on_kcp_control (rl_disc L) (rt_disc_env A L) payload) s)"

text \<open>The actions of the tunnel: packets go out, and what is for the callbacks is handed to them.\<close>

fun rt_deliver :: "'j rt_lib \<Rightarrow> rt_answers \<Rightarrow> kt_action list \<Rightarrow> (ProxyRuntime, unit) call" where
  "rt_deliver L A [] s = Done ((), s)"
| "rt_deliver L A (a # acts) s =
     obind (case a of
              ControlUp key payload \<Rightarrow> rt_control_callback L A payload s
            | FrameUp frame \<Rightarrow> rt_frame_callback L A frame s
            | _ \<Rightarrow> Done ((), logged PrKcp [a] s)) (\<lambda>(_, s). rt_deliver L A acts s)"

text \<open>A message of the KCP layer, from the tunnel to the callbacks.\<close>

definition rt_kcp_message :: "'j rt_lib \<Rightarrow> rt_answers \<Rightarrow> KcpSessionKey \<Rightarrow> bytes \<Rightarrow> (ProxyRuntime, unit) call" where
  "rt_kcp_message L A key data s =
     (let (acts, kcp) = handle_kcp_message (an_send A (pr_asked s)) (rl_seen L) (an_steady A (pr_asked s)) key data (pr_kcp s)
      in rt_deliver L A acts ((asked s)\<lparr>pr_kcp := kcp\<rparr>))"

section \<open>TCP events\<close>

definition rt_on_tcp_event :: "'j rt_lib \<Rightarrow> rt_answers \<Rightarrow> TcpEvent \<Rightarrow> (ProxyRuntime, unit) call" where
  "rt_on_tcp_event L A event s =
     (let sid = te_stream_id event; business = pb_on_tcp_event (rt_business L A) event in
      if te_source event \<noteq> Ingress then business s
      else case te_type event of
             TcpConnected \<Rightarrow>
               let (ok, adm) = try_accept_ingress_stream sid (pr_admission s); s = s\<lparr>pr_admission := adm\<rparr>
               in if \<not> ok then rt_tcp_shutdown sid s else business s
           | TcpClosed \<Rightarrow> business (s\<lparr>pr_admission := release_ingress_stream sid (pr_admission s)\<rparr>)
           | TcpData \<Rightarrow>
               let (ok, s) = accept_bytes A (te_payload event) s
               in if \<not> ok then rt_tcp_shutdown sid (s\<lparr>pr_admission := release_ingress_stream sid (pr_admission s)\<rparr>)
                  else business s)"

text \<open>The events of the two TCP sides, as their handlers report them.\<close>

fun rt_tcp_actions :: "'j rt_lib \<Rightarrow> rt_answers \<Rightarrow> ti_action list \<Rightarrow> (ProxyRuntime, unit) call" where
  "rt_tcp_actions L A [] s = Done ((), s)"
| "rt_tcp_actions L A (a # acts) s =
     obind (case a of Event event \<Rightarrow> rt_on_tcp_event L A event s | _ \<Rightarrow> Done ((), logged PrTcp [a] s))
       (\<lambda>(_, s). rt_tcp_actions L A acts s)"

section \<open>Messages from Kafka\<close>

definition rt_kafka_sender :: "'j rt_lib \<Rightarrow> rt_answers \<Rightarrow> bytes \<Rightarrow> (ProxyRuntime, nat) call" where
  "rt_kafka_sender L A payload s =
     obind (rt_record_kafka L A payload BroadcastMetadata_init s) (\<lambda>((recorded, duplicate), s).
       if \<not> recorded then Done (0, s)
       else if duplicate then Done (1, s)
       else rt_broadcast L A KafkaBroadcast 1 payload None s)"

section \<open>Starting and stopping\<close>

record 'j start_answers =
  st_bind :: "string \<Rightarrow> u16 \<Rightarrow> bool"
  st_table :: "'j option option"
  st_listen :: listen_answers
  st_conf :: "string \<Rightarrow> string \<Rightarrow> bool"
  st_consumer :: bool
  st_subscribe :: bool
  st_tcp_throws :: bool
  st_save :: save_answers

definition rt_stop_kcp :: "ProxyRuntime \<Rightarrow> ProxyRuntime" where
  "rt_stop_kcp s = (let (acts, kcp) = kt_stop (pr_kcp s) in logged PrKcp acts (s\<lparr>pr_kcp := kcp\<rparr>))"

definition rt_stop_discovery ::
  "'j rt_lib \<Rightarrow> ('j \<Rightarrow> string) \<Rightarrow> save_answers \<Rightarrow> ProxyRuntime \<times> file_system \<Rightarrow> ProxyRuntime \<times> file_system" where
  "rt_stop_discovery L pretty a x =
     (let (s, fs) = x; (acts, service, fs) = ds_stop (rl_disc L) pretty a (pr_discovery s) fs
      in (logged PrDiscovery acts (s\<lparr>pr_discovery := service\<rparr>), fs))"

definition rt_stop_kafka :: "ProxyRuntime \<Rightarrow> ProxyRuntime" where
  "rt_stop_kafka s =
     (let (acts, kafka) = kb_stop (pr_kafka_broadcast s) in logged PrKafka acts (s\<lparr>pr_kafka_broadcast := kafka\<rparr>))"

text \<open>
  \<open>Threw\<close> stands for an exception that leaves \<open>start\<close>; the state the components are left in is
  returned beside the result.
\<close>

definition rt_start ::
  "'j rt_lib \<Rightarrow> ('j \<Rightarrow> string) \<Rightarrow> rt_answers \<Rightarrow> 'j start_answers \<Rightarrow> ProxyRuntime \<times> file_system \<Rightarrow>
   bool outcome \<times> ProxyRuntime \<times> file_system" where
  "rt_start L pretty A a x =
     (let (s, fs) = x;
          (ok, acts, kcp) = kt_start (dl_pton (rl_disc L)) (st_bind a) (rl_peers L) (pr_kcp s);
          s = logged PrKcp acts (s\<lparr>pr_kcp := kcp\<rparr>)
      in if \<not> ok then (Done False, s, fs)
         else case ds_start (rl_disc L) (rt_disc_env A L) (st_table a) (st_listen a) (pr_discovery s, s) of
                None \<Rightarrow> (Threw, s\<lparr>pr_discovery := (pr_discovery s)\<lparr>ds_running := True\<rparr>\<rparr>, fs)
              | Some (ok, acts, service, s) \<Rightarrow>
                  let s = logged PrDiscovery acts (s\<lparr>pr_discovery := service\<rparr>)
                  in if \<not> ok then (Done False, rt_stop_kcp s, fs)
                     else
                       let (ok, acts, kafka) = kb_start (st_conf a) (st_consumer a) (st_subscribe a) (pr_kafka_broadcast s);
                           s = logged PrKafka acts (s\<lparr>pr_kafka_broadcast := kafka\<rparr>)
                       in if \<not> ok
                          then (let (s, fs) = rt_stop_discovery L pretty (st_save a) (s, fs) in (Done False, rt_stop_kcp s, fs))
                          else if st_tcp_throws a
                          then (let (s, fs) = rt_stop_discovery L pretty (st_save a) (rt_stop_kafka s, fs)
                                in (Threw, rt_stop_kcp s, fs))
                          else (Done True, logged PrTcp (ti_start (pr_tcp s)) s, fs))"

definition rt_stop ::
  "'j rt_lib \<Rightarrow> ('j \<Rightarrow> string) \<Rightarrow> save_answers \<Rightarrow> ProxyRuntime \<times> file_system \<Rightarrow> ProxyRuntime \<times> file_system" where
  "rt_stop L pretty a x =
     (let (s, fs) = x;
          s = logged PrTcp (ti_stop (pr_tcp s)) s;
          (acts, egress) = eg_stop (pr_egress s);
          s = rt_stop_kafka (logged PrEgress acts (s\<lparr>pr_egress := egress\<rparr>));
          (acts, edge) = ed_stop (pr_edge_data s);
          (s, fs) = rt_stop_discovery L pretty a (logged PrEdge acts (s\<lparr>pr_edge_data := edge\<rparr>), fs)
      in (rt_stop_kcp s, fs))"

end
