(* ===== verification/RuntimeProps.thy ===== *)
theory RuntimeProps
  imports ProxyRuntime DiscoveryState KcpTunnelState
begin

text \<open>
  What every call of the proxy keeps: bounds on streams, links, remembered broadcasts and routes
  that follow from the contracts of the components, through the callbacks that connect them.
\<close>

section \<open>Calls that keep a property\<close>

definition preserves :: "('e \<Rightarrow> bool) \<Rightarrow> ('e, 'a) call \<Rightarrow> bool" where
  "preserves P m \<longleftrightarrow> (\<forall>s a s'. P s \<longrightarrow> m s = Done (a, s') \<longrightarrow> P s')"

lemma preservesI: "(\<And>s a s'. P s \<Longrightarrow> m s = Done (a, s') \<Longrightarrow> P s') \<Longrightarrow> preserves P m"
  by (simp add: preserves_def)

lemma preservesD: "preserves P m \<Longrightarrow> P s \<Longrightarrow> m s = Done (a, s') \<Longrightarrow> P s'"
  by (simp add: preserves_def)

lemma preserves_skip: "preserves P (\<lambda>s. Done (a, s))"
  by (simp add: preserves_def)

lemma preserves_seq:
  assumes "preserves P m" and "\<And>a. preserves P (k a)"
  shows "preserves P (\<lambda>s. obind (m s) (\<lambda>(a, s'). k a s'))"
proof (rule preservesI)
  fix s c s' assume P: "P s" and "obind (m s) (\<lambda>(a, s'). k a s') = Done (c, s')"
  then obtain a t where m: "m s = Done (a, t)" and k: "k a t = Done (c, s')" by (auto simp: obind_Done_iff)
  show "P s'" by (rule preservesD [OF assms(2) preservesD [OF assms(1) P m] k])
qed

lemma preserves_opt:
  assumes "\<And>f. cb = Some f \<Longrightarrow> preserves P (use f)"
  shows "preserves P (opt_call cb use)"
  unfolding opt_call_def [abs_def]
  by (cases cb; simp only: option.case) (intro preserves_skip preserves_seq assms | assumption)+

lemma preserves_if: "preserves P m \<Longrightarrow> preserves P k \<Longrightarrow> preserves P (\<lambda>s. if b then m s else k s)"
  by (cases b) simp_all

lemma preserves_case:
  "preserves P m \<Longrightarrow> (\<And>f. cb = Some f \<Longrightarrow> preserves P (use f)) \<Longrightarrow>
   preserves P (\<lambda>s. case cb of None \<Rightarrow> m s | Some f \<Rightarrow> use f s)"
  by (cases cb) simp_all

section \<open>The contract of the business layer\<close>

text \<open>What all callbacks keep, the two handlers of the layer keep.\<close>

locale business_contract =
  fixes B :: "'e PassThroughBusiness" and P :: "'e \<Rightarrow> bool"
  assumes kcp_sender_kept: "pb_kcp_sender B = Some f1 \<Longrightarrow> preserves P (f1 type sid payload)"
    and tcp_sender_kept: "pb_tcp_sender B = Some f2 \<Longrightarrow> preserves P (f2 sid payload)"
    and tcp_write_shutdown_kept: "pb_tcp_write_shutdown B = Some f3 \<Longrightarrow> preserves P (f3 sid)"
    and tcp_shutdown_kept: "pb_tcp_shutdown B = Some f4 \<Longrightarrow> preserves P (f4 sid)"
    and egress_open_kept: "pb_tcp_egress_open B = Some f5 \<Longrightarrow> preserves P (f5 sid)"
    and egress_sender_kept: "pb_tcp_egress_sender B = Some f6 \<Longrightarrow> preserves P (f6 sid payload)"
    and egress_write_shutdown_kept: "pb_tcp_egress_write_shutdown B = Some f7 \<Longrightarrow> preserves P (f7 sid)"
    and egress_shutdown_kept: "pb_tcp_egress_shutdown B = Some f8 \<Longrightarrow> preserves P (f8 sid)"
    and sink_kept: "pb_edge_data_sink B = Some f9 \<Longrightarrow> preserves P (f9 sid payload metadata)"
    and replicate_kept: "pb_replicate_sender B = Some f10 \<Longrightarrow> preserves P (f10 sid payload metadata)"
    and factory_kept: "pb_broadcast_metadata_factory B = Some f11 \<Longrightarrow> preserves P f11"
begin

lemma on_data_kept:
  assumes "pb_kcp_sender B = Some send"
  shows "preserves P (pb_on_data B send event)"
  unfolding pb_on_data_def Let_def
  by (intro preserves_seq preserves_skip preserves_if preserves_opt preserves_case)
    (erule sink_kept replicate_kept factory_kept | rule kcp_sender_kept [OF assms])+

lemma on_tcp_event_kept: "preserves P (pb_on_tcp_event B event)"
proof (cases "pb_kcp_sender B")
  case None
  then show ?thesis by (simp add: pb_on_tcp_event_def [abs_def] preserves_skip)
next
  case (Some send)
  have "preserves P (\<lambda>s. obind (send t sid [] s) (\<lambda>(_, s). Done ((), s)))" for t sid
    by (intro preserves_seq preserves_skip) (rule kcp_sender_kept [OF Some])
  then show ?thesis
    unfolding pb_on_tcp_event_def [abs_def] Some option.case
    by (cases "te_type event"; simp only: TcpEventType.case) (rule preserves_if preserves_skip on_data_kept [OF Some] | assumption)+
qed

lemma on_kcp_data_kept: "preserves P (pb_on_kcp_data B sid payload)"
  unfolding pb_on_kcp_data_def
  by (intro preserves_seq preserves_skip preserves_if preserves_opt preserves_case)
    (erule egress_sender_kept tcp_sender_kept kcp_sender_kept)+

lemma on_open_kept:
  "preserves P (\<lambda>e. obind (case pb_tcp_egress_open B of None \<Rightarrow> Done (False, e) | Some op \<Rightarrow> op sid e) (\<lambda>(ok, e).
      if ok then Done ((), e) else opt_call (pb_kcp_sender B) (\<lambda>kcp. kcp Close sid []) e))"
  by (intro preserves_seq preserves_skip preserves_if preserves_opt preserves_case) (erule egress_open_kept kcp_sender_kept)+

lemma on_close_kept:
  "preserves P (\<lambda>e. obind (opt_call (pb_tcp_egress_shutdown B) (\<lambda>f. f sid) e) (\<lambda>(_, e). opt_call (pb_tcp_shutdown B) (\<lambda>f. f sid) e))"
  "preserves P (\<lambda>e. obind (opt_call (pb_tcp_egress_write_shutdown B) (\<lambda>f. f sid) e) (\<lambda>(_, e).
      opt_call (pb_tcp_write_shutdown B) (\<lambda>f. f sid) e))"
  by (intro preserves_seq preserves_opt; erule egress_shutdown_kept tcp_shutdown_kept egress_write_shutdown_kept tcp_write_shutdown_kept)+

lemma on_kcp_frame_kept: "preserves P (pb_on_kcp_frame B frame)"
proof -
  have sink: "preserves P (opt_call (pb_edge_data_sink B) (\<lambda>sink. sink sid p m))" for sid p m
    by (intro preserves_opt) (erule sink_kept)
  show ?thesis
  proof (cases "fv_stream_id frame = 0")
    case True
    then show ?thesis by (simp add: pb_on_kcp_frame_def [abs_def] preserves_skip)
  next
    case False
    then show ?thesis
      unfolding pb_on_kcp_frame_def [abs_def] Let_def
      by (cases "fv_type frame"; simp only: if_False TunnelFrameType.case)
        (rule on_open_kept on_close_kept on_kcp_data_kept preserves_skip sink preserves_if)+
  qed
qed

end

section \<open>The invariant of the proxy\<close>

definition kcp_ok :: "ProxyRuntimeConfig \<Rightarrow> KcpTunnel \<Rightarrow> bool" where
  "kcp_ok c k \<longleftrightarrow> kt_inv k \<and> kt_config k = pc_kcp c \<and>
     (acc_max_kcp_links (pc_admission c) = 0 \<or> length (peer_links k) \<le> max 1 (acc_max_kcp_links (pc_admission c)))"

definition adm_ok :: "ProxyRuntimeConfig \<Rightarrow> AdmissionControl \<Rightarrow> bool" where
  "adm_ok c a \<longleftrightarrow> ac_inv a \<and> ac_config a = pc_admission c"

definition table_ok :: "ProxyRuntimeConfig \<Rightarrow> DiscoveryService \<Rightarrow> bool" where
  "table_ok c d \<longleftrightarrow> ds_config d = pc_discovery c \<and> rm_inv (ds_routes d) \<and>
     rm_config (ds_routes d) = route_manager_config (pc_discovery c) \<and>
     um_find (identity_id (dc_identity (pc_discovery c))) (routes (ds_routes d)) = None"

text \<open>The part the callbacks of the discovery service see, and all of it.\<close>

definition core_inv :: "ProxyRuntimeConfig \<Rightarrow> ProxyRuntime \<Rightarrow> bool" where
  "core_inv c s \<longleftrightarrow> pr_config s = c \<and> adm_ok c (pr_admission s) \<and> kcp_ok c (pr_kcp s)"

definition rt_inv :: "ProxyRuntimeConfig \<Rightarrow> ProxyRuntime \<Rightarrow> bool" where
  "rt_inv c s \<longleftrightarrow> core_inv c s \<and> table_ok c (pr_discovery s)"

text \<open>The layouts of the hash tables.\<close>

definition rt_layouts :: "'j rt_lib \<Rightarrow> bool" where
  "rt_layouts L \<longleftrightarrow> is_layout (dl_lay (rl_disc L)) \<and> is_layout (rl_peers L) \<and> is_layout (rl_seen L)"

lemma frame_simps [simp]:
  "pr_config (logged f acts s) = pr_config s" "pr_admission (logged f acts s) = pr_admission s"
  "pr_kcp (logged f acts s) = pr_kcp s" "pr_discovery (logged f acts s) = pr_discovery s"
  "pr_egress (logged f acts s) = pr_egress s" "pr_tcp (logged f acts s) = pr_tcp s"
  "pr_edge_data (logged f acts s) = pr_edge_data s" "pr_kafka_broadcast (logged f acts s) = pr_kafka_broadcast s"
  "pr_config (asked s) = pr_config s" "pr_admission (asked s) = pr_admission s" "pr_kcp (asked s) = pr_kcp s"
  "pr_discovery (asked s) = pr_discovery s" "pr_egress (asked s) = pr_egress s" "pr_tcp (asked s) = pr_tcp s"
  "pr_edge_data (asked s) = pr_edge_data s" "pr_kafka_broadcast (asked s) = pr_kafka_broadcast s" "pr_log (asked s) = pr_log s"
  "pr_log (logged f acts s) = pr_log s @ map f acts"
  by (simp_all add: logged_def asked_def)

lemma kcp_ok_mark: "is_layout lay \<Longrightarrow> kcp_ok c k \<Longrightarrow> kcp_ok c (snd (mark_broadcast_seen lay now key k))"
  by (simp add: kcp_ok_def mark_kt_inv)

lemma kcp_ok_traffic:
  assumes "is_layout lay" and "kcp_ok c k"
  shows "broadcast_control send lay rand now payload k = (n, acts, k') \<Longrightarrow> kcp_ok c k'"
    and "broadcast_frame send lay rand now type sid payload metadata k = (n, acts, k') \<Longrightarrow> kcp_ok c k'"
    and "handle_kcp_message send lay now key data k = (acts, k') \<Longrightarrow> kcp_ok c k'"
  using broadcast_control_state [of send lay rand now payload k n acts k']
    broadcast_frame_state [of send lay rand now type sid payload metadata k n acts k']
    handle_state [of send lay now key data k acts k'] kcp_ok_mark [OF assms] assms(2)
  by auto

lemma kcp_ok_link:
  assumes "is_layout lay" and "kcp_ok c k" and "can_accept_kcp_link (peer_link_count k) a" and "ac_config a = pc_admission c"
  shows "kcp_ok c (snd (add_peer_link pton lay peer conv k))"
proof -
  have "length (peer_links (snd (add_peer_link pton lay peer conv k))) \<le> Suc (length (peer_links k))"
    using assign_length [OF assms(1)] by (auto simp: add_peer_link_def split: option.split)
  then show ?thesis
    using assms add_peer_link_kt_inv [OF _ assms(1), of k pton peer conv]
    by (auto simp: kcp_ok_def can_accept_kcp_link_def peer_link_count_def)
qed

lemma adm_ok_ops:
  assumes "adm_ok c a"
  shows "adm_ok c (snd (try_accept_ingress_bytes now b a))" "adm_ok c (snd (try_accept_ingress_stream sid a))"
    "adm_ok c (release_ingress_stream sid a)" "adm_ok c (snd (snapshot_capability now wall n a))"
  using assms accept_bytes_inv accept_stream_inv release_stream_inv refill_inv
  by (auto simp: adm_ok_def try_accept_ingress_stream_def release_ingress_stream_def snapshot_capability_def Let_def)

text \<open>The callbacks of the discovery service keep the core.\<close>

lemma disc_env_core:
  assumes lay: "rt_layouts L"
  shows "handler_contract (rt_disc_env A L) (\<lambda>x x'. core_inv c (snd x) \<longrightarrow> core_inv c (snd x'))"
proof -
  have now: "core_inv c s \<Longrightarrow> core_inv c (snd (cb_now (rt_disc_env A L) s))" for s
    by (simp add: rt_disc_env_def core_inv_def)
  have at: "core_inv c (snd x) \<Longrightarrow> core_inv c (snd (at_now (rt_disc_env A L) f x))" for f and x :: "ProxyRuntime world"
    using now [of "snd x"] by (simp add: at_now_def split_beta Let_def)
  have rand: "core_inv c s \<Longrightarrow> core_inv c (snd (cb_rand (rt_disc_env A L) s))" for s
    by (simp add: rt_disc_env_def core_inv_def)
  have cap: "cb_capability (rt_disc_env A L) = Some provider \<Longrightarrow> core_inv c s \<Longrightarrow> core_inv c (snd (provider s))" for provider s
    by (auto simp: rt_disc_env_def core_inv_def adm_ok_ops split_beta Let_def)
  have adm: "cb_admission (rt_disc_env A L) = Some admit \<Longrightarrow> core_inv c s \<Longrightarrow> core_inv c (snd (admit peer s))" for admit peer s
    by (auto simp: rt_disc_env_def core_inv_def)
  show ?thesis
  proof unfold_locales
    fix x :: "ProxyRuntime world" and link peer conv
    assume "cb_link (rt_disc_env A L) = Some link"
    then show "core_inv c (snd x) \<longrightarrow> core_inv c (snd (fst x, snd (link peer conv (snd x))))"
      using lay kcp_ok_link [of "rl_peers L" c "pr_kcp (snd x)" "pr_admission (snd x)" "dl_pton (rl_disc L)" peer conv]
      by (auto simp: rt_disc_env_def core_inv_def adm_ok_def rt_layouts_def split_beta Let_def)
  next
    fix x :: "ProxyRuntime world" and broadcast payload
    assume "cb_broadcast (rt_disc_env A L) = Some broadcast"
    then show "core_inv c (snd x) \<longrightarrow> core_inv c (snd (fst x, broadcast payload (snd x)))"
      using lay kcp_ok_traffic(1) [of "rl_seen L" c "pr_kcp (snd x)"]
      by (auto simp: rt_disc_env_def core_inv_def rt_layouts_def split: prod.splits)
  qed (auto simp: at now rand cap adm ds_mark_attempt_def ds_mark_success_def ds_mark_failure_def)
qed

lemmas rt_callback_defs = rt_kcp_sender_def rt_tcp_sender_def rt_tcp_write_shutdown_def rt_tcp_shutdown_def rt_egress_open_def
  rt_egress_sender_def rt_egress_write_shutdown_def rt_egress_shutdown_def rt_edge_data_sink_def rt_metadata_factory_def

text \<open>Callbacks other than the broadcast leave admission, tunnel and routes alone.\<close>

definition untouched :: "ProxyRuntime \<Rightarrow> ProxyRuntime \<Rightarrow> bool" where
  "untouched s s' \<longleftrightarrow> pr_config s' = pr_config s \<and> pr_admission s' = pr_admission s \<and> pr_kcp s' = pr_kcp s \<and>
     pr_discovery s' = pr_discovery s"

lemma untouched_inv: "untouched s s' \<Longrightarrow> rt_inv c s \<Longrightarrow> rt_inv c s'"
  by (simp add: untouched_def rt_inv_def core_inv_def)

lemma callbacks_untouched:
  "rt_kcp_sender L A type sid payload s = Done (b, s') \<Longrightarrow> untouched s s'"
  "rt_tcp_sender A sid payload s = Done (b, s') \<Longrightarrow> untouched s s'"
  "rt_tcp_write_shutdown sid s = Done (u, s') \<Longrightarrow> untouched s s'"
  "rt_tcp_shutdown sid s = Done (u, s') \<Longrightarrow> untouched s s'"
  "rt_egress_open L A sid s = Done (b, s') \<Longrightarrow> untouched s s'"
  "rt_egress_sender A sid payload s = Done (b, s') \<Longrightarrow> untouched s s'"
  "rt_egress_write_shutdown sid s = Done (u, s') \<Longrightarrow> untouched s s'"
  "rt_egress_shutdown sid s = Done (u, s') \<Longrightarrow> untouched s s'"
  "rt_edge_data_sink L A sid payload metadata s = Done (b, s') \<Longrightarrow> untouched s s'"
  "rt_metadata_factory A s = Done (m, s') \<Longrightarrow> untouched s s'"
  "rt_record_kafka L A payload metadata s = Done (r, s') \<Longrightarrow> untouched s s'"
  by (auto simp: untouched_def rt_callback_defs rt_record_kafka_def Let_def obind_Done_iff io_def
      split: prod.splits option.splits if_splits)

lemma preserves_untouched:
  assumes "\<And>s a s'. m s = Done (a, s') \<Longrightarrow> untouched s s'" and "\<And>s s'. untouched s s' \<Longrightarrow> P s \<Longrightarrow> P s'"
  shows "preserves P m"
  by (rule preservesI) (rule assms(2) [OF assms(1)])

text \<open>So a property of the parts they leave alone is kept by the layer once the broadcast keeps it.\<close>

lemma business_contractI:
  assumes "\<And>s s'. untouched s s' \<Longrightarrow> P s \<Longrightarrow> P s'"
    and "\<And>type sid payload metadata. preserves P (rt_broadcast L A type sid payload metadata)"
  shows "business_contract (rt_business L A) P"
  by unfold_locales
    (auto simp: rt_business_eq rt_replicate_sender_def assms(2) intro: preserves_untouched [OF _ assms(1)]
      elim!: callbacks_untouched)

lemma broadcast_inv:
  assumes "rt_layouts L"
  shows "preserves (rt_inv c) (rt_broadcast L A type sid payload metadata)"
proof (rule preservesI)
  fix s n s' assume inv: "rt_inv c s" and ret: "rt_broadcast L A type sid payload metadata s = Done (n, s')"
  obtain m acts k where b: "broadcast_frame (an_send A (pr_asked s)) (rl_seen L) (an_rand A (pr_asked s))
      (an_steady A (pr_asked s)) type sid payload metadata (pr_kcp s) = (m, acts, k)" by (rule prod_cases3)
  have "kcp_ok c k" by (rule kcp_ok_traffic(2) [OF _ _ b]) (use assms inv in \<open>simp_all add: rt_layouts_def rt_inv_def core_inv_def\<close>)
  then show "rt_inv c s'" using ret inv by (auto simp: rt_broadcast_def b rt_inv_def core_inv_def)
qed

lemma business_inv: "rt_layouts L \<Longrightarrow> business_contract (rt_business L A) (rt_inv c)"
  by (rule business_contractI [OF untouched_inv broadcast_inv])

text \<open>The business layer never changes the configuration, admission and the routes.\<close>

interpretation config_fixed:
  business_contract "rt_business L A" "\<lambda>s. pr_config s = c \<and> pr_admission s = a \<and> pr_discovery s = d" for L A c a d
  by (rule business_contractI) (auto simp: untouched_def rt_broadcast_def preserves_def split: prod.splits)

section \<open>Every call of the proxy\<close>

lemma accept_bytes_kept: "rt_inv c s \<Longrightarrow> rt_inv c (snd (accept_bytes A payload s))"
  by (simp add: accept_bytes_def rt_inv_def core_inv_def adm_ok_ops split_beta Let_def)

lemma with_discovery_inv:
  assumes lay: "rt_layouts L" and inv: "rt_inv c s"
    and handler: "ds_handler (rl_disc L) (rt_disc_env A L) (pr_discovery s, s) (d, s')"
  shows "rt_inv c (s'\<lparr>pr_discovery := d\<rparr>)"
proof -
  have l: "is_layout (dl_lay (rl_disc L))" using lay by (simp add: rt_layouts_def)
  have "core_inv c s'"
    using handler_contract.rel_handler [OF disc_env_core [OF lay] handler l] inv by (simp add: rt_inv_def)
  moreover have "table_ok c d"
    using inv table_kept.handler.rel_handler [OF handler l] config_kept.handler.rel_handler [OF handler l]
      self_absent.handler.rel_handler [OF handler l]
    by (auto simp: keeps_def own_id_def rt_inv_def table_ok_def)
  ultimately show ?thesis by (simp add: rt_inv_def core_inv_def)
qed

lemma control_callback_inv:
  assumes "rt_layouts L"
  shows "preserves (rt_inv c) (rt_control_callback L A payload)"
proof (rule preservesI)
  fix s a s' assume inv: "rt_inv c s" and ret: "rt_control_callback L A payload s = Done (a, s')"
  let ?t = "snd (accept_bytes A payload s)"
  have t: "rt_inv c ?t" by (rule accept_bytes_kept [OF inv])
  have "s' = ?t \<or> (\<exists>d u. on_kcp_control (rl_disc L) (rt_disc_env A L) payload (pr_discovery ?t, ?t) = Done (d, u) \<and>
      s' = u\<lparr>pr_discovery := d\<rparr>)"
    using ret by (auto simp: rt_control_callback_def with_discovery_def split_beta Let_def obind_Done_iff split: if_splits)
  then show "rt_inv c s'" using t with_discovery_inv [OF assms t ds_handler.control] by blast
qed

lemma frame_callback_inv:
  assumes "rt_layouts L"
  shows "preserves (rt_inv c) (rt_frame_callback L A frame)"
proof (rule preservesI)
  fix s a s' assume inv: "rt_inv c s" and ret: "rt_frame_callback L A frame s = Done (a, s')"
  let ?t = "snd (accept_bytes A (fv_payload frame) s)"
  have t: "rt_inv c ?t" by (rule accept_bytes_kept [OF inv])
  show "rt_inv c s'"
  proof (cases "fv_type frame = KafkaBroadcast \<and> fst (accept_bytes A (fv_payload frame) s)")
    case True
    obtain r u where rec: "rt_record_kafka L A (fv_payload frame) (fv_broadcast frame) ?t = Done (r, u)"
      and rest: "s' = u \<or> (\<exists>n. rt_broadcast L A KafkaBroadcast (fv_stream_id frame) (fv_payload frame) (Some (fv_broadcast frame)) u
          = Done (n, s'))"
      using ret True unfolding rt_frame_callback_def Let_def split_beta by (auto simp: obind_Done_iff split: if_splits)
    have u: "rt_inv c u" by (rule untouched_inv [OF callbacks_untouched(11) t]) (rule rec)
    then show ?thesis using rest preservesD [OF broadcast_inv [OF assms] u] by blast
  next
    case False
    then have "s' = ?t \<or> pb_on_kcp_frame (rt_business L A) frame ?t = Done (a, s')"
      using ret by (auto simp: rt_frame_callback_def Let_def split_beta split: if_splits)
    then show ?thesis
      using t preservesD [OF business_contract.on_kcp_frame_kept [OF business_inv [OF assms]] t] by blast
  qed
qed

lemma deliver_inv:
  assumes "rt_layouts L"
  shows "rt_inv c s \<Longrightarrow> rt_deliver L A acts s = Done (u, s') \<Longrightarrow> rt_inv c s'"
proof (induction acts arbitrary: s)
  case (Cons a acts)
  obtain v t where one: "(case a of ControlUp key payload \<Rightarrow> rt_control_callback L A payload s
      | FrameUp frame \<Rightarrow> rt_frame_callback L A frame s | _ \<Rightarrow> Done ((), logged PrKcp [a] s)) = Done (v, t)"
    and rest: "rt_deliver L A acts t = Done (u, s')"
    using Cons.prems(2) by (auto simp: obind_Done_iff)
  have log: "rt_inv c (logged PrKcp [a] s)" using Cons.prems(1) by (simp add: rt_inv_def core_inv_def)
  have "rt_inv c t"
  proof (cases a)
    case (ControlUp key payload)
    then show ?thesis using one preservesD [OF control_callback_inv [OF assms] Cons.prems(1)] by simp
  next
    case (FrameUp frame)
    then show ?thesis using one preservesD [OF frame_callback_inv [OF assms] Cons.prems(1)] by simp
  qed (use one log in auto)
  then show ?case using rest by (rule Cons.IH)
qed simp

lemma kcp_message_inv:
  assumes "rt_layouts L"
  shows "preserves (rt_inv c) (rt_kcp_message L A key data)"
proof (rule preservesI)
  fix s a s' assume inv: "rt_inv c s" and ret: "rt_kcp_message L A key data s = Done (a, s')"
  obtain acts k where h: "handle_kcp_message (an_send A (pr_asked s)) (rl_seen L) (an_steady A (pr_asked s)) key data (pr_kcp s) = (acts, k)"
    by (rule prod.exhaust)
  have "kcp_ok c k" by (rule kcp_ok_traffic(3) [OF _ _ h]) (use assms inv in \<open>simp_all add: rt_layouts_def rt_inv_def core_inv_def\<close>)
  then have "rt_inv c ((asked s)\<lparr>pr_kcp := k\<rparr>)" using inv by (simp add: rt_inv_def core_inv_def)
  then show "rt_inv c s'" by (rule deliver_inv [OF assms]) (use ret in \<open>simp add: rt_kcp_message_def h\<close>)
qed

lemma tcp_event_inv:
  assumes "rt_layouts L"
  shows "preserves (rt_inv c) (rt_on_tcp_event L A event)"
proof (rule preservesI)
  fix s a s' assume inv: "rt_inv c s" and ret: "rt_on_tcp_event L A event s = Done (a, s')"
  have adm: "rt_inv c (t\<lparr>pr_admission := snd (try_accept_ingress_stream sid (pr_admission t))\<rparr>)"
    "rt_inv c (t\<lparr>pr_admission := release_ingress_stream sid (pr_admission t)\<rparr>)" if "rt_inv c t" for t sid
    using that by (simp_all add: rt_inv_def core_inv_def adm_ok_ops)
  obtain t where "rt_inv c t" and "rt_tcp_shutdown (te_stream_id event) t = Done (a, s') \<or>
      pb_on_tcp_event (rt_business L A) event t = Done (a, s')"
    using ret inv adm(1) [OF inv, of "te_stream_id event"] adm(2) [OF inv, of "te_stream_id event"]
      accept_bytes_kept [OF inv, of A "te_payload event"] adm(2) [OF accept_bytes_kept [OF inv], of "te_stream_id event" A "te_payload event"]
    by (auto simp: rt_on_tcp_event_def split_beta Let_def split: if_splits TcpEventType.splits)
  then show "rt_inv c s'"
    using untouched_inv [OF callbacks_untouched(4)] preservesD [OF business_contract.on_tcp_event_kept [OF business_inv [OF assms]]]
    by blast
qed

lemma kafka_sender_inv:
  assumes "rt_layouts L"
  shows "preserves (rt_inv c) (rt_kafka_sender L A payload)"
proof (rule preservesI)
  fix s a s' assume inv: "rt_inv c s" and ret: "rt_kafka_sender L A payload s = Done (a, s')"
  obtain r u where rec: "rt_record_kafka L A payload BroadcastMetadata_init s = Done (r, u)"
    and rest: "s' = u \<or> rt_broadcast L A KafkaBroadcast 1 payload None u = Done (a, s')"
    using ret by (auto simp: rt_kafka_sender_def obind_Done_iff split: if_splits)
  have u: "rt_inv c u" by (rule untouched_inv [OF callbacks_untouched(11) inv]) (rule rec)
  then show "rt_inv c s'" using rest preservesD [OF broadcast_inv [OF assms] u] by blast
qed

section \<open>Reachable states\<close>

text \<open>
  A step is a call one of the threads makes, with any answers from outside: an event of a TCP side, a
  message of the KCP layer, a message from Kafka or a handler of the discovery service.
\<close>

inductive rt_step :: "'j rt_lib \<Rightarrow> ProxyRuntime \<Rightarrow> ProxyRuntime \<Rightarrow> bool" for L where
  tcp: "rt_on_tcp_event L A event s = Done (u, s') \<Longrightarrow> rt_step L s s'"
| kcp: "rt_kcp_message L A key data s = Done (u, s') \<Longrightarrow> rt_step L s s'"
| kafka: "rt_kafka_sender L A payload s = Done (n, s') \<Longrightarrow> rt_step L s s'"
| discovery: "ds_handler (rl_disc L) (rt_disc_env A L) (pr_discovery s, s) (d, s') \<Longrightarrow> rt_step L s (s'\<lparr>pr_discovery := d\<rparr>)"

definition rt_reachable ::
  "'j rt_lib \<Rightarrow> ('j \<Rightarrow> string) \<Rightarrow> ProxyRuntimeConfig \<Rightarrow> 'j option option \<Rightarrow> ProxyRuntime \<Rightarrow> bool" where
  "rt_reachable L pretty config file s \<longleftrightarrow>
     (\<exists>now A a fs s0 fs'. st_table a = file \<and>
        rt_start L pretty A a (ProxyRuntime_init now config, fs) = (Done True, s0, fs') \<and> (rt_step L)\<^sup>*\<^sup>* s0 s)"

lemma step_inv: "rt_step L s s' \<Longrightarrow> rt_layouts L \<Longrightarrow> rt_inv c s \<Longrightarrow> rt_inv c s'"
  by (induction rule: rt_step.induct)
    (blast intro: preservesD [OF tcp_event_inv] preservesD [OF kcp_message_inv] preservesD [OF kafka_sender_inv] with_discovery_inv)+

lemma start_tunnel_ok:
  assumes lay: "is_layout lay" and "kt_start pton bind_ok lay (set_control_callback (set_frame_callback (KcpTunnel_init (pc_kcp c)))) = (ok, acts, k)"
  shows "kcp_ok c k"
proof -
  let ?k = "set_control_callback (set_frame_callback (KcpTunnel_init (pc_kcp c)))"
  have "kt_inv ?k" "kt_config ?k = pc_kcp c"
    using init_kt_inv [of "pc_kcp c"] by (simp_all add: kt_inv_def set_control_callback_def set_frame_callback_def) (simp add: KcpTunnel_init_def)
  then have "kt_inv k" "kt_config k = pc_kcp c" using kt_step_inv [OF kt_step.start [OF assms]] by auto
  moreover have "peer_links ?k = []" by (simp add: set_control_callback_def set_frame_callback_def KcpTunnel_init_def)
  then have "length (peer_links k) \<le> 1"
    using kt_start_state [OF assms(2)] assign_length [OF lay]
    by (auto simp: same_tables_def add_peer_link_def split: option.splits if_splits)
  ultimately show ?thesis by (simp add: kcp_ok_def le_max_iff_disj)
qed

lemma start_inv:
  assumes lay: "rt_layouts L" and items: "file_items (dl_json (rl_disc L)) (st_table a) \<le> max_routes (dc_route_manager (pc_discovery c))"
    and start: "rt_start L pretty A a (ProxyRuntime_init now c, fs) = (Done True, s', fs')"
  shows "rt_inv c s'"
proof -
  let ?s = "ProxyRuntime_init now c" and ?d = "DiscoveryService_init (pc_discovery c)"
  let ?k = "set_control_callback (set_frame_callback (KcpTunnel_init (pc_kcp c)))"
  have proj: "pr_kcp ?s = ?k" "pr_discovery ?s = ?d" "pr_config ?s = c" "pr_admission ?s = AdmissionControl_init (pc_admission c) now"
    by (simp_all add: ProxyRuntime_init_def)
  obtain ok acts k where k0: "kt_start (dl_pton (rl_disc L)) (st_bind a) (rl_peers L) ?k = (ok, acts, k)" by (rule prod_cases3)
  have ok by (rule ccontr) (use start in \<open>simp add: rt_start_def proj k0 Let_def\<close>)
  with k0 have k: "kt_start (dl_pton (rl_disc L)) (st_bind a) (rl_peers L) ?k = (True, acts, k)" by simp
  let ?t = "logged PrKcp acts (?s\<lparr>pr_kcp := k\<rparr>)"
  obtain ok' acts' d u where d0: "ds_start (rl_disc L) (rt_disc_env A L) (st_table a) (st_listen a) (?d, ?t) = Some (ok', acts', d, u)"
    using start by (cases "ds_start (rl_disc L) (rt_disc_env A L) (st_table a) (st_listen a) (?d, ?t)")
      (auto simp: rt_start_def proj k Let_def)
  have ok' by (rule ccontr) (use start in \<open>simp add: rt_start_def proj k d0 Let_def\<close>)
  with d0 have d: "ds_start (rl_disc L) (rt_disc_env A L) (st_table a) (st_listen a) (?d, ?t) = Some (True, acts', d, u)" by simp
  have same: "untouched (u\<lparr>pr_discovery := d\<rparr>) s'"
    using start by (auto simp: rt_start_def proj k d Let_def untouched_def split: prod.splits if_splits)
  have "core_inv c ?t"
    using start_tunnel_ok [OF _ k] lay init_inv [of "pc_admission c" now]
    by (simp add: core_inv_def proj rt_layouts_def adm_ok_def) (simp add: AdmissionControl_init_def)
  moreover have "core_inv c (snd (cb_now (rt_disc_env A L) ?t))"
    using handler_contract.now_rel [OF disc_env_core [OF lay], of c "(?d, ?t)" A] \<open>core_inv c ?t\<close> by simp
  ultimately have "core_inv c u"
    using start_env [OF d] handler_contract.rel_capability [OF disc_env_core [OF lay], of c "(?d, _)" A] by auto
  moreover have "table_ok c d"
    using start_kept [OF _ d items] start_routes(1) [OF d] lay by (simp add: rt_layouts_def table_ok_def)
  ultimately have "rt_inv c (u\<lparr>pr_discovery := d\<rparr>)" by (simp add: rt_inv_def core_inv_def)
  then show ?thesis by (rule untouched_inv [OF same])
qed

lemma rt_reachable_inv:
  assumes "rt_layouts L" and "rt_reachable L pretty c file s"
    and "file_items (dl_json (rl_disc L)) file \<le> max_routes (dc_route_manager (pc_discovery c))"
  shows "rt_inv c s"
proof -
  obtain now A a fs s0 fs' where "st_table a = file"
    and start: "rt_start L pretty A a (ProxyRuntime_init now c, fs) = (Done True, s0, fs')" and run: "(rt_step L)\<^sup>*\<^sup>* s0 s"
    using assms(2) by (auto simp: rt_reachable_def)
  have "rt_inv c s0" by (rule start_inv [OF assms(1) _ start]) (use assms(3) \<open>st_table a = file\<close> in simp)
  with run show ?thesis by (induction rule: rtranclp_induct) (auto intro: step_inv [OF _ assms(1)])
qed

end
