(* ===== verification/RuntimeClaims.thy ===== *)
theory RuntimeClaims
  imports RuntimeProps DiscoveryClaims TcpEgressClaims TcpIngressClaims PipelineClaims KcpTunnelClaims
begin

text \<open>
  What the proxy does as a whole: its bounds, the way of the bytes of a device from one proxy to the
  socket of another, admission, starting and stopping, and messages from Kafka.
\<close>

section \<open>Bounds\<close>


section \<open>From a device to the other side\<close>

lemma asked_simps [simp]: "pr_asked (asked s) = Suc (pr_asked s)" "pr_asked (logged f acts s) = pr_asked s"
  by (simp_all add: asked_def logged_def)

text \<open>Where a frame for a stream is sent: the best connected node if there is one, the configured peer otherwise.\<close>

definition frame_target :: "'j rt_lib \<Rightarrow> int \<Rightarrow> ProxyRuntime \<Rightarrow> (sockaddr_in \<times> KcpConv) option" where
  "frame_target L now s =
     (case select_default_next_hop (dl_pow (rl_disc L)) now (ds_routes (pr_discovery s)) of
        None \<Rightarrow> Some (peer_addr (pr_kcp s), node_id (kt_peer (kt_config (pr_kcp s))))
      | Some hop \<Rightarrow>
          if conv_empty (node_id (nh_next_hop hop)) then None
          else map_option (\<lambda>link. (pl_addr link, pl_conv link)) (um_find (node_id (nh_next_hop hop)) (peer_links (pr_kcp s))))"

lemma kcp_sender_sends:
  assumes "kt_running (pr_kcp s)" and "sid \<noteq> 0" and "length payload < 2 ^ 32"
    and "frame_target L (an_wall A (pr_asked s)) s = Some (addr, conv)"
  shows "\<exists>ok. rt_kcp_sender L A type sid payload s =
    Done (ok, logged PrKcp [Send addr conv (encode_tunnel_frame type sid payload)] (asked s))"
  using assms encode_frame_nonempty [OF assms(3), of type sid]
  by (auto simp: rt_kcp_sender_def frame_target_def send_frame_def send_frame_to_def Let_def split: option.splits if_splits)

definition same_paths :: "ProxyRuntime \<Rightarrow> ProxyRuntime \<Rightarrow> bool" where
  "same_paths s s' \<longleftrightarrow> pr_discovery s' = pr_discovery s \<and> kt_running (pr_kcp s') = kt_running (pr_kcp s) \<and>
     kt_config (pr_kcp s') = kt_config (pr_kcp s) \<and> peer_addr (pr_kcp s') = peer_addr (pr_kcp s) \<and>
     peer_links (pr_kcp s') = peer_links (pr_kcp s) \<and> (\<exists>acts. pr_log s' = pr_log s @ acts)"

lemma same_paths_refl: "same_paths s s"
  by (simp add: same_paths_def)

lemma same_paths_trans: "same_paths s t \<Longrightarrow> same_paths t u \<Longrightarrow> same_paths s u"
  by (auto simp: same_paths_def)

lemma same_paths_target: "same_paths s s' \<Longrightarrow> frame_target L now s' = frame_target L now s"
  by (auto simp: frame_target_def same_paths_def split: option.split)

lemma metadata_paths: "\<exists>m s'. rt_metadata_factory A s = Done (m, s') \<and> same_paths s s' \<and> pr_edge_data s' = pr_edge_data s"
  by (auto simp: rt_metadata_factory_def same_paths_def Let_def split: option.split)

lemma broadcast_paths: "\<exists>n s'. rt_broadcast L A type sid payload metadata s = Done (n, s') \<and> same_paths s s'"
proof -
  obtain m acts k where b: "broadcast_frame (an_send A (pr_asked s)) (rl_seen L) (an_rand A (pr_asked s))
      (an_steady A (pr_asked s)) type sid payload metadata (pr_kcp s) = (m, acts, k)" by (rule prod_cases3)
  have "kt_running k = kt_running (pr_kcp s)" "kt_config k = kt_config (pr_kcp s)" "peer_addr k = peer_addr (pr_kcp s)"
    "peer_links k = peer_links (pr_kcp s)"
    using broadcast_frame_state [OF b] by auto
  then show ?thesis by (simp add: rt_broadcast_def b same_paths_def)
qed

lemma sink_paths:
  assumes "\<And>n. write_edge_data (dl_json (rl_disc L)) (dl_pton (rl_disc L)) (an_kafka A n) (an_wall A n) sid payload metadata
      (an_redis A n) (pr_edge_data s) \<noteq> None"
  shows "\<exists>ok s'. rt_edge_data_sink L A sid payload metadata s = Done (ok, s') \<and> same_paths s s'"
proof -
  obtain ok acts wd edge where "write_edge_data (dl_json (rl_disc L)) (dl_pton (rl_disc L)) (an_kafka A (pr_asked s))
      (an_wall A (pr_asked s)) sid payload metadata (an_redis A (pr_asked s)) (pr_edge_data s) = Some (ok, acts, wd, edge)"
    using assms [of "pr_asked s"] by auto
  then show ?thesis by (simp add: rt_edge_data_sink_def io_def same_paths_def)
qed

lemma ingress_data_sent:
  assumes event: "te_source event = Ingress" "te_type event = TcpData" "te_stream_id event \<noteq> 0" "length (te_payload event) < 2 ^ 32"
    and admitted: "fst (try_accept_ingress_bytes (an_steady A (pr_asked s)) (of_nat (length (te_payload event))) (pr_admission s))"
    and running: "kt_running (pr_kcp s)" and target: "\<And>n. frame_target L (an_wall A n) s = Some (addr, conv)"
    and edge: "\<And>n metadata. write_edge_data (dl_json (rl_disc L)) (dl_pton (rl_disc L)) (an_kafka A n) (an_wall A n)
      (te_stream_id event) (te_payload event) metadata (an_redis A n) (pr_edge_data s) \<noteq> None"
  shows "\<exists>s' acts. rt_on_tcp_event L A event s = Done ((), s') \<and>
    pr_log s' = pr_log s @ acts @ [PrKcp (Send addr conv (encode_tunnel_frame Data (te_stream_id event) (te_payload event)))]"
proof -
  let ?sid = "te_stream_id event" and ?p = "te_payload event" and ?s0 = "snd (accept_bytes A (te_payload event) s)"
  have acc: "fst (accept_bytes A ?p s)" using admitted by (simp add: accept_bytes_def split_beta Let_def)
  have p0: "same_paths s ?s0" "pr_edge_data ?s0 = pr_edge_data s"
    by (simp_all add: accept_bytes_def split_beta Let_def same_paths_def)
  obtain m s1 where 1: "rt_metadata_factory A ?s0 = Done (m, s1)" and p1: "same_paths ?s0 s1" "pr_edge_data s1 = pr_edge_data ?s0"
    using metadata_paths by blast
  obtain ok s2 where 2: "rt_edge_data_sink L A ?sid ?p m s1 = Done (ok, s2)" and p2: "same_paths s1 s2"
    using sink_paths [of L A ?sid ?p m s1] edge p0(2) p1(2) by auto
  obtain n s3 where 3: "rt_broadcast L A Replicate ?sid ?p (Some m) s2 = Done (n, s3)" and p3: "same_paths s2 s3"
    using broadcast_paths by blast
  have p: "same_paths s s3" by (rule same_paths_trans [OF same_paths_trans [OF same_paths_trans [OF p0(1) p1(1)] p2] p3])
  then have "frame_target L (an_wall A (pr_asked s3)) s3 = Some (addr, conv)" "kt_running (pr_kcp s3)"
    using target running same_paths_target [OF p, of L] by (simp_all add: same_paths_def)
  then obtain ok' where 4: "rt_kcp_sender L A Data ?sid ?p s3 =
      Done (ok', logged PrKcp [Send addr conv (encode_tunnel_frame Data ?sid ?p)] (asked s3))"
    using kcp_sender_sends [of s3 ?sid ?p] event(3,4) by blast
  have "rt_on_tcp_event L A event s = pb_on_tcp_event (rt_business L A) event ?s0"
    using event acc by (simp add: rt_on_tcp_event_def split_beta Let_def)
  also have "\<dots> = Done ((), logged PrKcp [Send addr conv (encode_tunnel_frame Data ?sid ?p)] (asked s3))"
    using event 1 2 3 4
    by (simp add: pb_on_tcp_event_def rt_business_eq pb_on_data_def opt_call_def rt_replicate_sender_def)
  finally show ?thesis using p by (auto simp: same_paths_def)
qed

lemma egress_takes:
  assumes "frame_callback (pr_kcp t)" and "sid \<noteq> 0" and "payload \<noteq> []" and "length payload < 2 ^ 32"
    and "fst (try_accept_ingress_bytes (an_steady B (Suc (pr_asked t))) (of_nat (length payload)) (pr_admission t))"
    and "\<not> eg_stopping (pr_egress t)" and "um_find sid (eg_streams (pr_egress t)) = Some obj"
    and "es_open (eg_objects (pr_egress t) ! obj)" and "write_all (an_write B (Suc (Suc (pr_asked t)))) payload = Some (True, payload, w)"
  shows "\<exists>t'. rt_kcp_message M B key (encode_tunnel_frame Data sid payload) t = Done ((), t') \<and>
    pr_log t' = pr_log t @ [PrEgress (EgSend (es_fd (eg_objects (pr_egress t) ! obj)) payload)] \<and> pr_egress t' = pr_egress t \<and>
    pr_tcp t' = pr_tcp t \<and> pr_kcp t' = pr_kcp t \<and> pr_discovery t' = pr_discovery t"
proof -
  let ?f = "decoded Data sid payload TunnelFrameView_init"
  have f: "fv_type ?f = Data" "fv_stream_id ?f = sid" "fv_payload ?f = payload" by (simp_all add: decoded_def)
  have h: "handle_kcp_message (an_send B (pr_asked t)) (rl_seen M) (an_steady B (pr_asked t)) key
      (encode_tunnel_frame Data sid payload) (pr_kcp t) = ([FrameUp ?f], pr_kcp t)"
    using assms(1,2) decode_encode [OF assms(4), of Data sid TunnelFrameView_init]
    by (simp add: handle_kcp_message_def prepare_inbound_broadcast_def f is_relayed_type_def)
  show ?thesis
    using assms f
    by (simp add: rt_kcp_message_def h rt_frame_callback_def accept_bytes_def split_beta Let_def pb_on_kcp_frame_def
        pb_on_kcp_data_def rt_business_eq rt_egress_sender_def eg_send_to_stream_def io_def)
qed

text \<open>
  C1: The bytes of a device cross two proxies unchanged. When a proxy admits a frame of an ingress
  stream, its handler returns whatever Redis, Kafka and the replication do, and the last thing it
  does is to send the frame as one packet to the target of the moment. When the other proxy has the
  stream open, admits the bytes and its socket takes them, that packet makes it write exactly these
  bytes to the socket of the stream, and nothing else.
\<close>

theorem ingress_bytes_reach_egress:
  assumes "te_source event = Ingress" and "te_type event = TcpData" and "te_stream_id event \<noteq> 0"
    and "te_payload event \<noteq> []" and "length (te_payload event) < 2 ^ 32"
    and "fst (try_accept_ingress_bytes (an_steady A (pr_asked s)) (of_nat (length (te_payload event))) (pr_admission s))"
    and "kt_running (pr_kcp s)" and "\<And>n. frame_target L (an_wall A n) s = Some (addr, conv)"
    and "\<And>n metadata. write_edge_data (dl_json (rl_disc L)) (dl_pton (rl_disc L)) (an_kafka A n) (an_wall A n)
      (te_stream_id event) (te_payload event) metadata (an_redis A n) (pr_edge_data s) \<noteq> None"
    and "frame_callback (pr_kcp t)" and "\<not> eg_stopping (pr_egress t)"
    and "fst (try_accept_ingress_bytes (an_steady B (Suc (pr_asked t))) (of_nat (length (te_payload event))) (pr_admission t))"
    and "um_find (te_stream_id event) (eg_streams (pr_egress t)) = Some obj" and "es_open (eg_objects (pr_egress t) ! obj)"
    and "write_all (an_write B (Suc (Suc (pr_asked t)))) (te_payload event) = Some (True, te_payload event, w)"
  shows "\<exists>s' acts packet t'. rt_on_tcp_event L A event s = Done ((), s') \<and>
    pr_log s' = pr_log s @ acts @ [PrKcp (Send addr conv packet)] \<and>
    rt_kcp_message M B key packet t = Done ((), t') \<and>
    pr_log t' = pr_log t @ [PrEgress (EgSend (es_fd (eg_objects (pr_egress t) ! obj)) (te_payload event))] \<and>
    pr_egress t' = pr_egress t \<and> pr_tcp t' = pr_tcp t \<and> pr_kcp t' = pr_kcp t \<and> pr_discovery t' = pr_discovery t"
  using ingress_data_sent [OF assms(1,2,3,5-9)] egress_takes [OF assms(10,3,4,5,12,11,13-15), of M key] by blast

section \<open>Admission\<close>

text \<open>Whether admission lets the event of an ingress stream through.\<close>

definition admits :: "rt_answers \<Rightarrow> TcpEvent \<Rightarrow> ProxyRuntime \<Rightarrow> bool" where
  "admits A event s =
     (case te_type event of
        TcpConnected \<Rightarrow> fst (try_accept_ingress_stream (te_stream_id event) (pr_admission s))
      | TcpData \<Rightarrow> fst (try_accept_ingress_bytes (an_steady A (pr_asked s)) (of_nat (length (te_payload event))) (pr_admission s))
      | TcpClosed \<Rightarrow> True)"

lemma refused_connection:
  assumes "te_source event = Ingress" and "te_stream_id event \<noteq> 0" and "\<not> admits A event s" and "te_type event = TcpConnected"
  shows "\<exists>s'. rt_on_tcp_event L A event s = Done ((), s') \<and>
    pr_log s' = pr_log s @ map PrTcp (ti_shutdown_stream (te_stream_id event) (pr_tcp s)) \<and>
    ingress_streams (pr_admission s') = ingress_streams (pr_admission s) - {te_stream_id event} \<and>
    pr_kcp s' = pr_kcp s \<and> pr_egress s' = pr_egress s \<and> pr_edge_data s' = pr_edge_data s \<and> pr_discovery s' = pr_discovery s"
proof -
  have "te_stream_id event \<notin> ingress_streams (pr_admission s)"
    and "ingress_streams (snd (try_accept_ingress_stream (te_stream_id event) (pr_admission s))) = ingress_streams (pr_admission s)"
    using assms(2-4) by (auto simp: admits_def try_accept_ingress_stream_def split: if_splits)
  then show ?thesis using assms by (simp add: rt_on_tcp_event_def admits_def split_beta Let_def rt_tcp_shutdown_def)
qed



text \<open>
  C40: A refused stream is not silent. The connection is shut down, but when it is gone its end is
  reported like that of any other: the peer gets the end of a stream it was never told to open.
\<close>

theorem refused_stream_finished:
  assumes "te_source event = Ingress" and "te_type event = TcpConnected" and "te_stream_id event \<noteq> 0"
    and "\<not> admits A event s" and "kt_running (pr_kcp s)" and "\<And>n. frame_target L (an_wall A n) s = Some (addr, conv)"
  shows "\<exists>s' s''. rt_on_tcp_event L A event s = Done ((), s') \<and>
    pr_log s' = pr_log s @ map PrTcp (ti_shutdown_stream (te_stream_id event) (pr_tcp s)) \<and>
    rt_on_tcp_event L A (event\<lparr>te_type := TcpClosed\<rparr>) s' = Done ((), s'') \<and>
    pr_log s'' = pr_log s' @ [PrKcp (Send addr conv (encode_tunnel_frame Finish (te_stream_id event) []))]"
proof -
  let ?sid = "te_stream_id event"
  obtain s' where s': "rt_on_tcp_event L A event s = Done ((), s')"
    "pr_log s' = pr_log s @ map PrTcp (ti_shutdown_stream ?sid (pr_tcp s))" "pr_kcp s' = pr_kcp s" "pr_discovery s' = pr_discovery s"
    using refused_connection [OF assms(1,3,4,2), of L] by blast
  let ?t = "s'\<lparr>pr_admission := release_ingress_stream ?sid (pr_admission s')\<rparr>"
  have "frame_target L (an_wall A (pr_asked ?t)) ?t = Some (addr, conv)" 
    using assms(6) same_paths_target [of s ?t L] s'(2-4) by (simp add: same_paths_def)
  then obtain ok where "rt_kcp_sender L A Finish ?sid [] ?t = Done (ok, logged PrKcp [Send addr conv (encode_tunnel_frame Finish ?sid [])] (asked ?t))"
    using kcp_sender_sends [of ?t ?sid "[]" L A addr conv Finish] assms(3,5) s'(3) by auto
  then have "\<exists>s''. rt_on_tcp_event L A (event\<lparr>te_type := TcpClosed\<rparr>) s' = Done ((), s'') \<and>
      pr_log s'' = pr_log s' @ [PrKcp (Send addr conv (encode_tunnel_frame Finish ?sid []))]"
    using assms(1,3) by (simp add: rt_on_tcp_event_def pb_on_tcp_event_def rt_business_eq)
  with s'(1,2) show ?thesis by blast
qed

section \<open>Starting and stopping\<close>

text \<open>No thread, no listening socket, no consumer.\<close>

definition idle :: "ProxyRuntime \<Rightarrow> bool" where
  "idle s \<longleftrightarrow> \<not> kt_running (pr_kcp s) \<and> \<not> ds_running (pr_discovery s) \<and> \<not> ds_threads (pr_discovery s) \<and>
     ds_listen_fd (pr_discovery s) = -1 \<and> \<not> kb_running (pr_kafka_broadcast s) \<and> \<not> kb_worker (pr_kafka_broadcast s) \<and>
     \<not> kb_consumer (pr_kafka_broadcast s)"

lemma kt_start_running:
  "kt_start pton bind_ok lay k = (ok, acts, k') \<Longrightarrow> kt_running k' = ok" if "\<not> kt_running k"
proof -
  have "kt_running (snd (add_peer_link pton lay peer conv k)) = kt_running k" for peer conv and k :: KcpTunnel
    by (simp add: add_peer_link_def split: option.split)
  then show "kt_start pton bind_ok lay k = (ok, acts, k') \<Longrightarrow> kt_running k' = ok"
    using that by (auto simp: kt_start_def Let_def split: if_splits option.splits)
qed

lemma ds_start_running:
  assumes "ds_start L E file a (DiscoveryService_init config, e) = Some (ok, acts, d, e')"
  shows "ds_running d = ok" and "ds_threads d = ok" and "(0 \<le> ds_listen_fd d) = ok" and "\<not> ok \<Longrightarrow> ds_listen_fd d = -1"
proof -
  let ?s = "(DiscoveryService_init config)\<lparr>ds_running := True\<rparr>"
  obtain s e1 where l: "load_route_table L E file (?s, e) = Some (s, e1)"
    using assms by (auto simp: ds_start_def DiscoveryService_init_def split: option.splits)
  have s: "ds_running s \<and> \<not> ds_threads s"
    using l by (auto simp: load_route_table_def DiscoveryService_init_def split_beta Let_def split: if_splits)
  obtain cap e2 where c: "local_capability E e1 = (cap, e2)" by (cases "local_capability E e1")
  have init: "\<not> ds_running (DiscoveryService_init config)" by (simp add: DiscoveryService_init_def)
  obtain fd acts0 where fd: "create_tcp_listener (dl_pton L) (dc_local_endpoint (ds_config s)) a = (fd, acts0)" by (rule prod.exhaust)
  have neg: "fd < 0 \<Longrightarrow> fd = -1" using fd by (auto simp: create_tcp_listener_def split: if_splits)
  have "ok = (0 \<le> fd) \<and> ds_running d = ok \<and> ds_threads d = ok \<and> ds_listen_fd d = fd"
    using assms l c init fd s add_self [of L E "(s, e2)" None True 0 "Some cap"]
    by (auto simp: ds_start_def Let_def start_listener_def split: if_splits)
  then show "ds_running d = ok" and "ds_threads d = ok" and "(0 \<le> ds_listen_fd d) = ok" and "\<not> ok \<Longrightarrow> ds_listen_fd d = -1"
    using neg by auto
qed

lemma kb_start_running:
  assumes "\<not> kb_running k" and "\<not> kb_worker k" and "\<not> kb_consumer k" and "kb_start conf new sub k = (ok, acts, k')"
  shows "kb_running k' = (ok \<and> kb_enabled (kb_config k))" and "kb_worker k' = kb_running k'" and "kb_consumer k' = kb_running k'"
  using assms by (auto simp: kb_start_def create_consumer_def close_consumer_def Let_def split: if_splits prod.splits)

lemma capability_env:
  "pr_kcp (snd (local_capability (rt_disc_env A L) s)) = pr_kcp s"
  "pr_kafka_broadcast (snd (local_capability (rt_disc_env A L) s)) = pr_kafka_broadcast s"
  "pr_kcp (snd (cb_now (rt_disc_env A L) s)) = pr_kcp s"
  "pr_kafka_broadcast (snd (cb_now (rt_disc_env A L) s)) = pr_kafka_broadcast s"
  by (simp_all add: local_capability_def rt_disc_env_def split_beta Let_def)

lemma stopped:
  "\<not> kt_running (pr_kcp (rt_stop_kcp s))" "pr_discovery (rt_stop_kcp s) = pr_discovery s"
  "pr_kafka_broadcast (rt_stop_kcp s) = pr_kafka_broadcast s"
  by (simp_all add: rt_stop_kcp_def kt_stop_def split_beta Let_def)

lemma stopped_discovery:
  assumes "ds_running (pr_discovery s)" and "rt_stop_discovery L pretty a (s, fs) = (s', fs')"
  shows "\<not> ds_running (pr_discovery s') \<and> \<not> ds_threads (pr_discovery s') \<and> ds_listen_fd (pr_discovery s') = -1 \<and>
    pr_kafka_broadcast s' = pr_kafka_broadcast s"
  using assms by (auto simp: rt_stop_discovery_def ds_stop_def Let_def)

lemma rolled_back:
  assumes "ds_running (pr_discovery s)" and "\<not> kb_running (pr_kafka_broadcast s)" and "\<not> kb_worker (pr_kafka_broadcast s)"
    and "\<not> kb_consumer (pr_kafka_broadcast s)"
  shows "idle (rt_stop_kcp (fst (rt_stop_discovery L pretty a (s, fs))))"
  using stopped_discovery [OF assms(1) prod.collapse [symmetric], of L pretty a fs] assms(2-4) by (simp add: idle_def stopped)

lemma stopped_kafka:
  "\<not> kb_running (pr_kafka_broadcast (rt_stop_kafka s)) \<and> \<not> kb_worker (pr_kafka_broadcast (rt_stop_kafka s)) \<and>
   \<not> kb_consumer (pr_kafka_broadcast (rt_stop_kafka s)) \<and> pr_discovery (rt_stop_kafka s) = pr_discovery s"
  by (simp add: rt_stop_kafka_def kb_stop_def close_consumer_def split_beta Let_def)

lemma stop_idle:
  assumes "ds_running (pr_discovery s)"
  shows "idle (fst (rt_stop L pretty a (s, fs)))"
proof -
  obtain acts egress where e: "eg_stop (pr_egress s) = (acts, egress)" by (rule prod.exhaust)
  let ?k = "rt_stop_kafka (logged PrEgress acts ((logged PrTcp (ti_stop (pr_tcp s)) s)\<lparr>pr_egress := egress\<rparr>))"
  obtain acts' edge where d: "ed_stop (pr_edge_data ?k) = (acts', edge)" by (rule prod.exhaust)
  obtain s' fs' where r: "rt_stop_discovery L pretty a (logged PrEdge acts' (?k\<lparr>pr_edge_data := edge\<rparr>), fs) = (s', fs')" by (rule prod.exhaust)
  have "rt_stop L pretty a (s, fs) = (rt_stop_kcp s', fs')" using e d r by (simp add: rt_stop_def Let_def)
  then show ?thesis
    using stopped_discovery [OF _ r] assms
      stopped_kafka [of "logged PrEgress acts ((logged PrTcp (ti_stop (pr_tcp s)) s)\<lparr>pr_egress := egress\<rparr>)"]
    by (simp add: idle_def stopped)
qed

lemma fresh_discovery: "pr_discovery (ProxyRuntime_init now c) = DiscoveryService_init (pc_discovery c)"
  by (simp add: ProxyRuntime_init_def)

lemma fresh_runtime:
  fixes now c
  defines "s \<equiv> ProxyRuntime_init now c"
  shows "\<not> kt_running (pr_kcp s)" "\<not> ds_running (pr_discovery s)" "\<not> ds_threads (pr_discovery s)" "ds_listen_fd (pr_discovery s) = -1"
    "\<not> kb_running (pr_kafka_broadcast s)" "\<not> kb_worker (pr_kafka_broadcast s)" "\<not> kb_consumer (pr_kafka_broadcast s)"
    "kb_config (pr_kafka_broadcast s) = pc_kafka_broadcast c"
  by (simp_all add: s_def ProxyRuntime_init_def set_control_callback_def set_frame_callback_def KcpTunnel_init_def
      DiscoveryService_init_def kb_set_sender_def KafkaBroadcastSource_init_def)

text \<open>The rest of \<open>start\<close> once the tunnel runs and the table is loaded.\<close>

lemma start_continues:
  assumes "kt_start (dl_pton (rl_disc L)) (st_bind a) (rl_peers L) (pr_kcp s) = (True, acts, k)"
    and "ds_start (rl_disc L) (rt_disc_env A L) (st_table a) (st_listen a) (pr_discovery s, logged PrKcp acts (s\<lparr>pr_kcp := k\<rparr>)) =
      Some (ok', acts', d, u)"
    and "kb_start (st_conf a) (st_consumer a) (st_subscribe a) (pr_kafka_broadcast u) = (ok'', acts'', b)"
    and v: "v = logged PrDiscovery acts' (u\<lparr>pr_discovery := d\<rparr>)" and w: "w = logged PrKafka acts'' (v\<lparr>pr_kafka_broadcast := b\<rparr>)"
  shows "rt_start L pretty A a (s, fs) =
    (if \<not> ok' then (Done False, rt_stop_kcp v, fs)
     else if \<not> ok'' then (let (s, fs) = rt_stop_discovery L pretty (st_save a) (w, fs) in (Done False, rt_stop_kcp s, fs))
     else if st_tcp_throws a
     then (let (s, fs) = rt_stop_discovery L pretty (st_save a) (rt_stop_kafka w, fs) in (Threw, rt_stop_kcp s, fs))
     else (Done True, logged PrTcp (ti_start (pr_tcp w)) w, fs))"
  using assms(1-3) by (simp add: rt_start_def Let_def v w)

text \<open>
  C38: Starting is all or nothing. When \<open>start\<close> succeeds, tunnel and discovery run, the Kafka
  consumer runs if it is enabled, and \<open>stop\<close> ends them all. When it reports failure, everything
  started before is stopped again. It also lets exceptions through: with everything stopped when the
  TCP server throws, but with tunnel and discovery marked running when the route table file does.
\<close>

theorem start_all_or_nothing:
  "let (r, s, fs') = rt_start L pretty A a (ProxyRuntime_init now c, fs) in
   case r of
     Blocked \<Rightarrow> False
   | Done ok \<Rightarrow>
       if ok then kt_running (pr_kcp s) \<and> ds_running (pr_discovery s) \<and> ds_threads (pr_discovery s) \<and>
         0 \<le> ds_listen_fd (pr_discovery s) \<and> kb_running (pr_kafka_broadcast s) = kb_enabled (pc_kafka_broadcast c) \<and>
         idle (fst (rt_stop L pretty a' (s, fs')))
       else idle s
   | Threw \<Rightarrow> if ds_running (pr_discovery s) then kt_running (pr_kcp s) \<and> \<not> ds_threads (pr_discovery s) else st_tcp_throws a \<and> idle s"
proof -
  let ?s = "ProxyRuntime_init now c"
  note init = fresh_runtime [of now c]
  obtain ok acts k where k: "kt_start (dl_pton (rl_disc L)) (st_bind a) (rl_peers L) (pr_kcp ?s) = (ok, acts, k)" by (rule prod_cases3)
  note kr = kt_start_running [OF init(1) k]
  let ?d = "ds_start (rl_disc L) (rt_disc_env A L) (st_table a) (st_listen a) (pr_discovery ?s, logged PrKcp acts (?s\<lparr>pr_kcp := k\<rparr>))"
  consider (tunnel) "\<not> ok" | (table) "ok" "?d = None" | (discovery) ok' acts' d u where "ok" "?d = Some (ok', acts', d, u)"
    by (cases ?d) auto
  then show ?thesis
  proof cases
    case tunnel
    then show ?thesis using kr init by (simp add: rt_start_def k Let_def idle_def)
  next
    case table
    then show ?thesis using kr init by (simp add: rt_start_def k Let_def)
  next
    case (discovery ok' acts' d u)
    note d = discovery(2) [unfolded fresh_discovery]
    have u: "pr_kcp u = k" "pr_kafka_broadcast u = pr_kafka_broadcast ?s" using start_env [OF d] by (auto simp: capability_env)
    obtain ok'' acts'' b where b: "kb_start (st_conf a) (st_consumer a) (st_subscribe a) (pr_kafka_broadcast u) = (ok'', acts'', b)"
      by (rule prod_cases3)
    define v where "v = logged PrDiscovery acts' (u\<lparr>pr_discovery := d\<rparr>)"
    define w where "w = logged PrKafka acts'' (v\<lparr>pr_kafka_broadcast := b\<rparr>)"
    have p: "pr_discovery v = d" "pr_kcp v = k" "pr_kafka_broadcast v = pr_kafka_broadcast ?s" "pr_discovery w = d" "pr_kcp w = k"
      "pr_kafka_broadcast w = b" by (simp_all add: v_def w_def u)
    have on: "kt_start (dl_pton (rl_disc L)) (st_bind a) (rl_peers L) (pr_kcp ?s) = (True, acts, k)" using k discovery(1) by simp
    show ?thesis
      unfolding start_continues [OF on discovery(2) b v_def w_def]
      using ds_start_running [OF d] kb_start_running [OF init(5-7) b [unfolded u]] kr discovery(1) init p
        rolled_back [of w L pretty "st_save a" fs] rolled_back [of "rt_stop_kafka w" L pretty "st_save a" fs] stopped_kafka [of w]
        stop_idle [of "logged PrTcp (ti_start (pr_tcp w)) w" L pretty a' fs]
      by (auto simp: split_beta Let_def stopped idle_def [of "rt_stop_kcp v"]) (auto simp: idle_def stopped)
  qed
qed

section \<open>Messages from Kafka\<close>

text \<open>The sender as the consumer calls it; a call that does not return commits nothing.\<close>

definition rt_consumer :: "'j rt_lib \<Rightarrow> rt_answers \<Rightarrow> bytes \<Rightarrow> ProxyRuntime \<Rightarrow> nat \<times> ProxyRuntime" where
  "rt_consumer L A payload s = (case rt_kafka_sender L A payload s of Done (n, s') \<Rightarrow> (n, s') | _ \<Rightarrow> (0, s))"

lemma broadcast_no_links:
  assumes "peer_links k = []"
  shows "\<exists>k'. broadcast_frame send lay rand now type sid payload metadata k = (0, [], k')"
proof -
  have "broadcast_packet send packet mid k' = (0, [])" if "peer_links k' = []" for packet mid k'
    using that by (simp add: broadcast_packet_def broadcast_targets_def split: option.split)
  then show ?thesis using assms by (simp add: broadcast_frame_def Let_def split: option.split prod.split)
qed

lemma record_seen:
  assumes "nx_law srv" and "srv_has srv st (''seen:'' @ em_message_id m)"
    and "srv_exec srv st (seen_args m (rc_config r)) = (st', reply)" and "em_message_id m \<noteq> []"
    and "redis_enabled (rc_config r)" and "0 \<le> rc_fd r" and "length (redis_command (seen_args m (rc_config r))) \<le> n"
  shows "\<exists>acts. record_edge_message pton m doc ([Ready True, Sent n] @ byte_answers (str_bytes (reply @ crlf)) @ w, cas) r =
    Some (True, True, acts, (w, cas), r)"
proof -
  let ?cmd = "redis_command (seen_args m (rc_config r))"
  have r: "reply = ''$-1''" using nx_present(2) [OF assms(1,2)] assms(3) by (simp add: seen_args_def)
  have two: "execute_locked pton cmd wd r = execute_attempts (Suc (Suc 0)) pton cmd wd r" for cmd wd
    by (simp add: execute_locked_def numeral_2_eq_2)
  have "?cmd \<noteq> []" by (simp add: redis_command_def)
  then have "execute_locked pton ?cmd ([Ready True, Sent n] @ byte_answers (str_bytes (reply @ crlf)) @ w, cas) r =
      Some (Some \<lparr>rp_type = 0x24, rp_nil = True, rp_text = []\<rparr>,
        [RsSend (rc_fd r) (str_bytes ?cmd), RsRecv (rc_fd r) (str_bytes (reply @ crlf))], (w, cas), r)"
    using exchange_read [OF assms(6) _ assms(7), of "''$-1''", OF _ _ sample_replies(2), of w] assms(6)
    by (simp add: two ensure_connected_def r)
  then show ?thesis using assms(4,5) by (simp add: record_edge_message_def set_nx_command_def seen_args_def)
qed

text \<open>
  C39: A message from Kafka can be lost. When it arrives while the proxy has no link, it is recorded
  in Redis and sent to nobody, and its offset is not committed. When it is delivered again, Redis
  answers that its identifier is known, and the consumer commits it without any frame being sent,
  however many links there are by then.
\<close>

theorem kafka_message_lost:
  assumes "km_err msg = NoError" and "km_payload msg \<noteq> []"
    and "rt_record_kafka L A (km_payload msg) BroadcastMetadata_init s = Done ((True, False), s1)" and "peer_links (pr_kcp s) = []"
    and "parse_edge_kafka_message_json (dl_json (rl_disc L)) (an_wall B (pr_asked t)) (bytes_str (km_payload msg)) BroadcastMetadata_init = Some m"
    and "nx_law srv" and "srv_has srv st (''seen:'' @ em_message_id m)" and "em_message_id m \<noteq> []"
    and "srv_exec srv st (seen_args m (rc_config (ed_redis (pr_edge_data t)))) = (st', reply)"
    and "redis_enabled (rc_config (ed_redis (pr_edge_data t)))" and "0 \<le> rc_fd (ed_redis (pr_edge_data t))"
    and "length (redis_command (seen_args m (rc_config (ed_redis (pr_edge_data t))))) \<le> n"
    and "an_redis B (pr_asked t) = ([Ready True, Sent n] @ byte_answers (str_bytes (reply @ crlf)) @ w, cas)"
  shows "\<exists>s' t' acts. kb_iteration (rt_consumer L A) (Some msg) s = ([], s') \<and> pr_log s' = pr_log s1 \<and>
    kb_iteration (rt_consumer L B) (Some msg) t = ([KfCommit (km_partition msg) (km_offset msg)], t') \<and>
    pr_log t' = pr_log t @ map (PrEdge \<circ> EdRedis) acts"
proof -
  have "pr_kcp s1 = pr_kcp s" using callbacks_untouched(11) [OF assms(3)] by (simp add: untouched_def)
  then obtain k where "broadcast_frame (an_send A (pr_asked s1)) (rl_seen L) (an_rand A (pr_asked s1)) (an_steady A (pr_asked s1))
      KafkaBroadcast 1 (km_payload msg) None (pr_kcp s1) = (0, [], k)" using broadcast_no_links assms(4) by metis
  then have "rt_kafka_sender L A (km_payload msg) s = Done (0, logged PrKcp [] ((asked s1)\<lparr>pr_kcp := k\<rparr>))"
    using assms(3) by (simp add: rt_kafka_sender_def rt_broadcast_def)
  then have 1: "\<exists>s'. kb_iteration (rt_consumer L A) (Some msg) s = ([], s') \<and> pr_log s' = pr_log s1"
    using assms(1,2) by (simp add: kb_iteration_def rt_consumer_def)
  let ?edge = "pr_edge_data t"
  obtain acts where "record_edge_message (dl_pton (rl_disc L)) m (bytes_str (km_payload msg)) (an_redis B (pr_asked t)) (ed_redis ?edge) =
      Some (True, True, acts, (w, cas), ed_redis ?edge)"
    using record_seen [OF assms(6,7,9,8,10-12)] assms(13) by metis
  then have "rt_record_kafka L B (km_payload msg) BroadcastMetadata_init t =
      Done ((True, True), logged (PrEdge \<circ> EdRedis) acts ((asked t)\<lparr>pr_edge_data := ?edge\<lparr>ed_redis := ed_redis ?edge\<rparr>\<rparr>))"
    using assms(2,5) by (simp add: rt_record_kafka_def record_kafka_message_def io_def)
  then have "\<exists>t'. kb_iteration (rt_consumer L B) (Some msg) t = ([KfCommit (km_partition msg) (km_offset msg)], t') \<and>
      pr_log t' = pr_log t @ map (PrEdge \<circ> EdRedis) acts"
    using assms(1,2) by (simp add: kb_iteration_def rt_consumer_def rt_kafka_sender_def)
  with 1 show ?thesis by blast
qed

section \<open>A sample proxy\<close>

definition sample_runtime_config :: ProxyRuntimeConfig where
  "sample_runtime_config =
     \<lparr>pc_admission = \<lparr>max_ingress_streams = 1, max_ingress_bytes_per_second = 0, acc_max_kcp_links = 4\<rparr>,
      pc_tcp = sample_ingress_config, pc_egress = sample_egress_config,
      pc_edge_data = \<lparr>ep_redis = redis_config\<lparr>rc_endpoint := \<lparr>ep_host = [], ep_port = 0\<rparr>\<rparr>, ep_kafka = ks_config (ed_kafka sample_pipeline)\<rparr>,
      pc_kafka_broadcast = \<lparr>kb_enabled = False, kb_brokers = [], kb_topic = [], kb_group_id = [], kb_client_id = [],
        kb_auto_offset_reset = [], kb_poll_timeout_ms = 0\<rparr>,
      pc_kcp = sample_tunnel_config (from_uint32 1), pc_discovery = sample_disc_config 1\<rparr>"

definition sample_answers :: "redis_world \<Rightarrow> rt_answers" where
  "sample_answers wd =
     \<lparr>an_wall = \<lambda>_. 5000, an_steady = \<lambda>_. 0, an_rand = \<lambda>_. Some (from_uint32 7), an_send = \<lambda>_ _ _ _. True,
      an_redis = \<lambda>_. wd, an_kafka = \<lambda>_. kafka_ok, an_connect = \<lambda>_. sample_connect 9, an_spawn = \<lambda>_. True,
      an_write = \<lambda>_. [Sent 100], an_alive = \<lambda>_ _. True, an_conn_send = \<lambda>_ _ _. True\<rparr>"

definition sample_rt_lib :: "jval json_lib \<Rightarrow> jval rt_lib" where
  "sample_rt_lib J = \<lparr>rl_disc = sample_disc_lib J, rl_peers = \<lambda>m. m, rl_seen = \<lambda>m. m, rl_streams = \<lambda>m. m\<rparr>"

text \<open>The proxy with a running tunnel and stream 5 open on the egress side.\<close>

definition sample_runtime :: ProxyRuntime where
  "sample_runtime = (ProxyRuntime_init 0 sample_runtime_config)
     \<lparr>pr_kcp := sample_tunnel 1, pr_egress := sample_state [new_stream 5 9] [(5, 0)] [0]\<rparr>"

definition sample_event :: TcpEvent where
  "sample_event = \<lparr>te_type = TcpData, te_source = Ingress, te_stream_id = 5, te_payload = [104, 105]\<rparr>"

lemma sample_runtime_simps [simp]:
  "pr_kcp sample_runtime = sample_tunnel 1" "pr_egress sample_runtime = sample_state [new_stream 5 9] [(5, 0)] [0]"
  "pr_asked sample_runtime = 0" "pr_log sample_runtime = []"
  "pr_discovery sample_runtime = DiscoveryService_init (sample_disc_config 1)"
  "pr_admission sample_runtime = AdmissionControl_init (pc_admission sample_runtime_config) 0"
  "pr_edge_data sample_runtime = EdgeDataPipeline_init (pc_edge_data sample_runtime_config)"
  by (simp_all add: sample_runtime_def ProxyRuntime_init_def sample_runtime_config_def)

lemma sample_event_simps [simp]:
  "te_type sample_event = TcpData" "te_source sample_event = Ingress" "te_stream_id sample_event = 5" "te_payload sample_event = [104, 105]"
  by (simp_all add: sample_event_def)

lemma sample_target:
  "frame_target (sample_rt_lib J) now sample_runtime = Some (sockaddr_zero, conv_zero)"
  by (simp add: frame_target_def sample_rt_lib_def select_default_next_hop_def DiscoveryService_init_def RouteManager_init_def
      sample_tunnel_def KcpTunnel_init_def sample_tunnel_config_def)

lemma unlimited: "max_ingress_bytes_per_second (ac_config a) = 0 \<Longrightarrow> fst (try_accept_ingress_bytes now b a)"
  by (simp add: try_accept_ingress_bytes_def)

lemma edge_off:
  assumes "\<not> redis_enabled (rc_config (ed_redis s))"
  shows "write_edge_data J pton ka now sid payload metadata wd s \<noteq> None"
  using assms by (auto simp: write_edge_data_def record_edge_message_def Let_def split: option.split prod.split)

theorem ingress_bytes_reach_egress_witness:
  "\<exists>s' acts packet t'. rt_on_tcp_event (sample_rt_lib sample_json) (sample_answers ([], [])) sample_event sample_runtime = Done ((), s') \<and>
    pr_log s' = acts @ [PrKcp (Send sockaddr_zero conv_zero packet)] \<and>
    rt_kcp_message (sample_rt_lib sample_json) (sample_answers ([], [])) sample_key packet sample_runtime = Done ((), t') \<and>
    pr_log t' = [PrEgress (EgSend 9 [104, 105])]"
proof -
  have off: "\<not> redis_enabled (rc_config (ed_redis (EdgeDataPipeline_init (pc_edge_data sample_runtime_config))))"
    by (simp add: EdgeDataPipeline_init_def sample_runtime_config_def RedisStateCache_init_def redis_enabled_def)
  have free: "max_ingress_bytes_per_second (ac_config (AdmissionControl_init (pc_admission sample_runtime_config) 0)) = 0"
    by (simp add: AdmissionControl_init_def sample_runtime_config_def)
  have tun: "kt_running (sample_tunnel 1)" "frame_callback (sample_tunnel 1)" by (simp_all add: sample_tunnel_def)
  have eg: "\<not> eg_stopping (sample_state [new_stream 5 9] [(5, 0)] [0])" "eg_streams (sample_state [new_stream 5 9] [(5, 0)] [0]) = [(5, 0)]"
    "eg_objects (sample_state [new_stream 5 9] [(5, 0)] [0]) = [new_stream 5 9]" by (simp_all add: sample_state_def)
  have wr: "write_all (an_write (sample_answers ([], [])) n) [104, 105] = Some (True, [104, 105], [])" for n
    by (simp add: sample_answers_def)
  let ?L = "sample_rt_lib sample_json" and ?A = "sample_answers ([], [])" and ?s = sample_runtime
  have "\<exists>s' acts packet t'. rt_on_tcp_event ?L ?A sample_event ?s = Done ((), s') \<and>
    pr_log s' = pr_log ?s @ acts @ [PrKcp (Send sockaddr_zero conv_zero packet)] \<and>
    rt_kcp_message ?L ?A sample_key packet ?s = Done ((), t') \<and>
    pr_log t' = pr_log ?s @ [PrEgress (EgSend (es_fd (eg_objects (pr_egress ?s) ! 0)) (te_payload sample_event))] \<and>
    pr_egress t' = pr_egress ?s \<and> pr_tcp t' = pr_tcp ?s \<and> pr_kcp t' = pr_kcp ?s \<and> pr_discovery t' = pr_discovery ?s"
    by (rule ingress_bytes_reach_egress)
      (simp_all add: unlimited [OF free] edge_off [OF off] tun eg wr sample_target um_find_def del: not_None_eq,
        simp add: new_stream_def)
  then show ?thesis by (simp add: eg) (metis new_stream_def EgressStream.select_convs(2))
qed

text \<open>The same proxy with its one place for a stream taken.\<close>

definition full_runtime :: ProxyRuntime where
  "full_runtime = sample_runtime\<lparr>pr_admission := (pr_admission sample_runtime)\<lparr>ingress_streams := {4}\<rparr>\<rparr>"

lemma full_runtime_simps [simp]:
  "pr_kcp full_runtime = sample_tunnel 1" "pr_log full_runtime = []" "pr_discovery full_runtime = pr_discovery sample_runtime"
  "pr_tcp full_runtime = ti_set_event_handler (TcpIngress_init sample_ingress_config)"
  "ingress_streams (pr_admission full_runtime) = {4}"
  by (simp_all add: full_runtime_def) (simp add: sample_runtime_def ProxyRuntime_init_def sample_runtime_config_def)

lemma full_refuses: "\<not> admits A (sample_event\<lparr>te_type := TcpConnected\<rparr>) full_runtime"
  by (simp add: admits_def try_accept_ingress_stream_def) (simp add: full_runtime_def AdmissionControl_init_def sample_runtime_config_def)

lemma full_target: "frame_target (sample_rt_lib J) now full_runtime = Some (sockaddr_zero, conv_zero)"
  using sample_target [of J now] same_paths_target [of sample_runtime full_runtime "sample_rt_lib J"] by (simp add: same_paths_def)

lemma no_connection: "ti_shutdown_stream sid (ti_set_event_handler (TcpIngress_init config)) = []"
  by (simp add: ti_shutdown_stream_def ti_set_event_handler_def TcpIngress_init_def)


theorem refused_stream_finished_witness:
  "\<exists>s' s''. rt_on_tcp_event (sample_rt_lib sample_json) (sample_answers ([], [])) (sample_event\<lparr>te_type := TcpConnected\<rparr>) full_runtime =
      Done ((), s') \<and>
    rt_on_tcp_event (sample_rt_lib sample_json) (sample_answers ([], [])) (sample_event\<lparr>te_type := TcpClosed\<rparr>) s' = Done ((), s'') \<and>
    pr_log s'' = [PrKcp (Send sockaddr_zero conv_zero (encode_tunnel_frame Finish 5 []))]"
proof -
  let ?e = "sample_event\<lparr>te_type := TcpConnected\<rparr>"
  have "kt_running (pr_kcp full_runtime)" by (simp add: sample_tunnel_def)
  from refused_stream_finished [of ?e, OF _ _ _ full_refuses this full_target, of sample_json "sample_answers ([], [])"]
  show ?thesis by (simp add: no_connection) (metis append_Nil)
qed



text \<open>A new message for which Redis acknowledges all three commands.\<close>

lemma record_acknowledged:
  assumes "redis_enabled (rc_config r)" and "0 \<le> rc_fd r" and "em_message_id m \<noteq> []"
    and "length (redis_command (seen_args m (rc_config r))) \<le> 500"
    and "length (set_command ((''device:'' @ em_mac_hex m) @ '':state'') ''online'' (rc_device_state_ttl_seconds (rc_config r))) \<le> 500"
    and "length (set_command ((''device:'' @ em_mac_hex m) @ '':latest'') doc (rc_device_latest_ttl_seconds (rc_config r))) \<le> 500"
  shows "\<exists>acts. record_edge_message pton m doc (answered ''+OK'' @ answered ''+OK'' @ answered ''+OK'', []) r =
    Some (True, False, acts, ([], []), r)"
proof -
  have ok: "\<exists>acts. execute_locked pton cmd (answered ''+OK'' @ w, cas) r =
      Some (Some \<lparr>rp_type = 0x2b, rp_nil = False, rp_text = [79, 75]\<rparr>, acts, (w, cas), r)" if "length cmd \<le> 500" "cmd \<noteq> []" for cmd w cas
    using execute_answered [of r cmd "''+OK''", OF assms(2) that(2,1) _ sample_replies(1)] by simp
  have n: "set_command a b c \<noteq> []" "redis_command l \<noteq> []" for a b c l by (simp_all add: set_command_def redis_command_def)
  obtain a1 where "execute_locked pton (redis_command (seen_args m (rc_config r))) (answered ''+OK'' @ answered ''+OK'' @ answered ''+OK'', []) r =
      Some (Some \<lparr>rp_type = 0x2b, rp_nil = False, rp_text = [79, 75]\<rparr>, a1, (answered ''+OK'' @ answered ''+OK'', []), r)"
    using ok [OF assms(4) n(2), of "answered ''+OK'' @ answered ''+OK''" "[]"] by blast
  moreover obtain a2 a3 where "record_state pton m doc (answered ''+OK'' @ answered ''+OK'', []) r = Some (True, a2 @ a3, ([], []), r)"
    using ok [OF assms(5) n(1), of "answered ''+OK''" "[]"] ok [OF assms(6) n(1), of "[]" "[]"]
    by (auto simp: record_state_def Let_def)
  ultimately show ?thesis
    using assms(1,3) by (simp add: record_edge_message_def set_nx_command_def seen_args_def)
qed

definition sample_record :: kafka_message where
  "sample_record = \<lparr>km_err = NoError, km_partition = 0, km_offset = 41, km_payload = [104]\<rparr>"

definition linkless :: ProxyRuntime where
  "linkless = sample_runtime\<lparr>pr_kcp := (sample_tunnel 1)\<lparr>peer_links := []\<rparr>, pr_edge_data := sample_pipeline\<rparr>"

theorem kafka_message_lost_witness:
  "\<exists>(L :: jval rt_lib) A B s' t'. kb_iteration (rt_consumer L A) (Some sample_record) linkless = ([], s') \<and>
     kb_iteration (rt_consumer L B) (Some sample_record) (linkless\<lparr>pr_kcp := sample_tunnel 1\<rparr>) = ([KfCommit 0 41], t')"
proof -
  obtain m where m: "make_edge_data_message 7 5 EdgeMessageProps.sample_edge_frame sample_metadata = Some m"
    "em_message_id m = convid_to_hex (from_uint32 8)" "em_mac_hex m = ''02005e100009''" by (rule sample_edge_message)
  define J where "J = brief_json (js_object sample_json (js_null sample_json) (edge_message_fields sample_json m))"
  have "js_object J j fs = js_object sample_json j fs" for j fs
    by (induction fs arbitrary: j) (auto simp: J_def brief_json_def)
  then have "serialize_edge_data_message_json J m = ''h''"
    by (simp add: serialize_edge_data_message_json_def edge_message_fields_def J_def brief_json_def)
  moreover define m' where "m' = m\<lparr>em_received_at_ms := 5000\<rparr>"
  ultimately have parse: "parse_edge_kafka_message_json J 5000 ''h'' BroadcastMetadata_init = Some m'"
    using parse_made_message [OF _ m(1), of J 5000 BroadcastMetadata_init] by (simp add: J_def brief_json_laws BroadcastMetadata_init_def)
  have m': "em_message_id m' = em_message_id m" "em_mac_hex m' = em_mac_hex m" "seen_args m' c = seen_args m c" for c
    by (simp_all add: m'_def seen_args_def)
  have c: "ed_redis sample_pipeline = \<lparr>rc_config = redis_config, rc_fd = 8\<rparr>" "redis_enabled redis_config"
    "rc_seen_ttl_seconds redis_config = 600" "rc_device_state_ttl_seconds redis_config = 60"
    "rc_device_latest_ttl_seconds redis_config = 86400" by code_simp+
  have "length (convid_to_hex (from_uint32 8)) = 64" by (simp add: convid_to_hex_eq hex_256_def length_hex_bytes)
  then have mid: "em_message_id m' \<noteq> []" using m(2) m'(1) by auto
  note short = length_claim [OF m(2) c(3)]
  let ?L = "sample_rt_lib J" and ?A = "sample_answers (answered ''+OK'' @ answered ''+OK'' @ answered ''+OK'', [])"
  let ?t = "linkless\<lparr>pr_kcp := sample_tunnel 1\<rparr>"
  have run: "pr_edge_data linkless = sample_pipeline" "pr_asked linkless = 0" "peer_links (pr_kcp linkless) = []"
    by (simp_all add: linkless_def)
  have pay: "km_err sample_record = NoError" "km_payload sample_record = [104]" "bytes_str [104] = ''h''"
    by (simp_all add: sample_record_def) code_simp
  obtain acts where "record_edge_message (dl_pton (rl_disc ?L)) m' ''h'' (answered ''+OK'' @ answered ''+OK'' @ answered ''+OK'', [])
      (ed_redis sample_pipeline) = Some (True, False, acts, ([], []), ed_redis sample_pipeline)"
    using record_acknowledged [of "ed_redis sample_pipeline" m' "''h''"] c mid short m' m(3)
    by (auto simp: set_command_def set_args_def redis_command_def bulk_def crlf_def to_string.simps)
  then have "\<exists>s1. rt_record_kafka ?L ?A (km_payload sample_record) BroadcastMetadata_init linkless = Done ((True, False), s1)"
    using parse by (simp add: rt_record_kafka_def record_kafka_message_def io_def run pay sample_answers_def)
      (simp add: sample_rt_lib_def pay)
  then obtain s1 where one: "rt_record_kafka ?L ?A (km_payload sample_record) BroadcastMetadata_init linkless = Done ((True, False), s1)"
    by blast
  obtain st reply where e: "srv_exec sample_server {''seen:'' @ em_message_id m'} (seen_args m' redis_config) = (st, reply)" by fastforce
  let ?B = "sample_answers ([Ready True, Sent 500] @ byte_answers (str_bytes (reply @ crlf)) @ [], [])"
  have t: "pr_edge_data ?t = sample_pipeline" "pr_asked ?t = 0" by (simp_all add: run)
  have two: "parse_edge_kafka_message_json (dl_json (rl_disc ?L)) (an_wall ?B (pr_asked ?t)) (bytes_str (km_payload sample_record))
      BroadcastMetadata_init = Some m'"
    using parse by (simp add: pay sample_answers_def sample_rt_lib_def)
  have "\<exists>s' t' acts. kb_iteration (rt_consumer ?L ?A) (Some sample_record) linkless = ([], s') \<and> pr_log s' = pr_log s1 \<and>
    kb_iteration (rt_consumer ?L ?B) (Some sample_record) ?t = ([KfCommit (km_partition sample_record) (km_offset sample_record)], t') \<and>
    pr_log t' = pr_log ?t @ map (PrEdge \<circ> EdRedis) acts"
    by (rule kafka_message_lost [where w = "[]" and cas = "[]" and n = 500, OF pay(1) _ one run(3) two sample_server_nx _ mid])
      (use c e short m' in \<open>simp_all add: pay t sample_server_def sample_answers_def\<close>)
  then show ?thesis by (simp add: sample_record_def) blast
qed

end
