(* ===== verification/Spec2Isabelle.thy ===== *)
theory Spec2Isabelle
  imports TunnelFrame EdgeFrame Admission RouteClaims KcpTunnelClaims TcpIngressClaims TcpEgressClaims PipelineClaims RouteFileClaims
    DiscoveryClaims RuntimeClaims
begin

text \<open>
  A verification library for the IoT proxy \<open>iota_proxy\<close>.

  \<^bold>\<open>The program.\<close> A proxy accepts edge devices over TCP, cuts their byte streams into edge data frames,
  records every frame in Redis and Kafka, replicates it to the other proxies and forwards it through
  a tunnel over KCP to the proxy that has the stream open towards its target. Proxies find each
  other by signed messages over TCP and by control frames, keep a table of routes, and broadcast
  messages read from Kafka. Admission control limits streams, bytes per second and links. The class
  \<open>ProxyRuntime\<close> owns the components and connects them by callbacks.

  \<^bold>\<open>Conventions.\<close> A class is a record, an enumeration a datatype, a method a function from the state to its
  result and the new state. Machine integers are words of their width (\<open>u16\<close>, \<open>u32\<close>, \<open>u64\<close>), byte strings
  are lists of 8-bit words, sizes are natural numbers. An output parameter with a boolean result is
  an option; an exception or a call that does not return is a value (\<open>Outcome\<close>). What a component
  does to the outside is a list of actions; what the outside answers (clocks, random bytes, system
  calls, Redis, Kafka, the KCP manager) is an argument, so a theorem holds for all answers. Hash
  tables are association lists with an arbitrary order, passed in as a layout function wherever the
  code iterates. Doubles are reals rounded to 53 bits after every operation. The JSON library is a parameter with its
  documented laws (\<open>json_laws\<close>), instantiated by a concrete library in the witnesses.

  \<^bold>\<open>Theories and sources\<close> (under \<open>src/iota_proxy\<close> unless stated otherwise):

  \<^item> \<open>Prelude\<close>, \<open>ByteCodec\<close>, \<open>CString\<close>, \<open>Floats\<close>, \<open>HashMap\<close>, \<open>Sockets\<close>, \<open>Json\<close>, \<open>Outcome\<close>: shared types and
    lemmas, the loads and stores of \<open>TunnelFrame.cpp\<close>, the pieces of the C and C++ libraries the code
    uses, the loops around \<open>send\<close> and \<open>connect\<close>, and the interface of the JSON library.
  \<^item> \<open>NodeId\<close>: \<open>KcpConv.hpp\<close> of myring, \<open>Endpoint.cpp\<close> and the text forms in \<open>NodeIdentity.cpp\<close>.
  \<^item> \<open>TunnelFrame\<close>, \<open>EdgeFrame\<close>: the two frame formats (\<open>src/frame\<close>).
  \<^item> \<open>Admission\<close>: \<open>AdmissionControl.cpp\<close>, with the token bucket in floating point.
  \<^item> \<open>RouteTypes\<close>, \<open>RouteManager\<close>: the route table (\<open>RouteManager.cpp\<close>); \<open>RouteInvariant\<close>, \<open>RouteProps\<close> and
    \<open>RouteClaims\<close> its invariant and the selection of next hops, probes and advertised routes;
    \<open>RouteFile\<close>, \<open>RouteFileClaims\<close>: the table file.
  \<^item> \<open>KcpTunnel\<close> with \<open>KcpTunnelProps\<close>, \<open>KcpTunnelState\<close>, \<open>KcpTunnelClaims\<close>: \<open>KcpTunnel.cpp\<close>, the broadcast
    envelope, duplicate suppression, fan-out and relaying.
  \<^item> \<open>TcpIngress\<close> with \<open>TcpIngressProps\<close>, \<open>TcpIngressClaims\<close>: \<open>TcpIngress.cpp\<close>, reassembly and stream life cycle.
  \<^item> \<open>TcpEgress\<close> with \<open>TcpEgressSteps\<close>, \<open>TcpEgressClaims\<close>: \<open>TcpEgress.cpp\<close>, also as an interleaving of the calls
    and the reading threads at the granularity of the locks.
  \<^item> \<open>EdgeMessage\<close>, \<open>EdgeMessageProps\<close>: \<open>EdgeDataMessage.cpp\<close>; \<open>Redis\<close>, \<open>RedisProps\<close>, \<open>RedisClaims\<close>:
    \<open>RedisStateCache.cpp\<close>; \<open>Kafka\<close>: \<open>KafkaSink.cpp\<close> and \<open>KafkaBroadcastSource.cpp\<close>; \<open>Pipeline\<close>, \<open>PipelineClaims\<close>:
    \<open>EdgeDataPipeline.cpp\<close>.
  \<^item> \<open>DiscoveryJson\<close>, \<open>DiscoveryJsonProps\<close>, \<open>Discovery\<close>: \<open>DiscoveryService.cpp\<close>; \<open>DiscoveryProps\<close>, \<open>DiscoveryState\<close>,
    \<open>DiscoveryHello\<close>, \<open>DiscoveryClaims\<close>: what its handlers keep, its reachable states and its handshake.
  \<^item> \<open>PassThrough\<close>: \<open>PassThroughBusiness.cpp\<close>; \<open>ProxyRuntime\<close>: \<open>ProxyRuntime.cpp\<close>; \<open>RuntimeProps\<close>,
    \<open>RuntimeClaims\<close>: the proxy as a whole.

  \<^bold>\<open>Interfaces.\<close> Where a component relies on others through callbacks, a locale states what every callback
  keeps and derives what the handlers keep: \<open>handler_contract\<close> and \<open>route_contract\<close> for discovery (interpreted
  for the invariant of the table, the absence of the own node and the fixed limits),
  \<open>business_contract\<close> for the business layer (interpreted on the callbacks \<open>ProxyRuntime\<close> installs).

  \<^bold>\<open>What is shown.\<close> Formats: frames, messages, replies and table files are read back as written, and the
  decoders accept nothing else. Invariants: tables, counters and sets stay within their limits in
  every reachable state of each component and of the proxy. Safety: descriptors have one holder,
  streams one life cycle, relayed broadcasts a shrinking time to live, next hops a live link, and
  only a peer that signed for this node enters the table through a session. Composition: the
  bytes of a device leave the other proxy unchanged, admission is enforced before anything else, and
  starting is all or nothing. Errors: the branches on which the code loses a message, a stream or a
  connection are stated as theorems of their own.

  \<^bold>\<open>Loops.\<close> Loops over data are structural recursion or carry a termination proof. Loops that wait for a peer
  recurse over the list of its answers, and running out of answers is the value for waiting: a
  theorem that such a call returns names the answers that are enough. Nothing else uses fuel, but for
  the two attempts of \<open>execute_locked\<close>, which are the code's own bound.

  \<^bold>\<open>Granularity.\<close> A method that holds its lock throughout is one step. For the egress the steps are the locked
  sections; for discovery and the runtime a handler is one step, so interleavings inside a handler
  are not covered there.

  \<^bold>\<open>Not modelled.\<close> The Ed25519 calls of OpenSSL (parameters) and the identity file in \<open>NodeIdentity.cpp\<close>;
  \<open>app/main.cpp\<close>, which fills the configuration records; log output. In \<open>src/myring\<close>: the KCP protocol
  engine and its manager, whose deliveries the tunnel sees as arbitrary handler calls, the io_uring
  event loops and the TCP server, the allocator, the object pool and the lock-free queue, which are
  about raw memory and the memory order of atomics. The firewall \<open>SIPFW\<close>, the Go programs
  \<open>business_service\<close> and \<open>storage_service\<close>, scripts and build output are separate from the proxy.
\<close>

end
